(* ===== verification/Rally_Prelude.thy ===== *)
theory Rally_Prelude
  imports Main "HOL-Library.AList" "HOL-Library.Char_ord" "HOL-Library.List_Lexorder"
    "HOL-Library.Product_Lexorder"
begin

text \<open>
  Shared ground of the development: the JSON values the Python code passes around, the
  few Python operations on values and strings the components use (truthiness, \<open>or\<close>,
  \<open>==\<close>, \<open>str\<close>, \<open>repr\<close>, \<open>int\<close>, \<open>strip\<close>, \<open>split\<close>, \<open>join\<close>, slicing), exceptions as
  values of a sum type, and insertion-ordered dictionaries.

  A Python string is a \<open>string\<close> here, one \<open>char\<close> for each character, so code points
  above 255 do not occur; case mapping is that of ASCII. JSON numbers are integers:
  no field that the modelled code reads is meant to hold a fraction.
\<close>

section \<open>Exceptions as values\<close>

text \<open>
  The exceptions the modelled code raises or lets through. A function that may raise
  returns \<open>exn + 'a\<close>, with \<open>Inl\<close> for the exception.
\<close>

datatype exn =
    TypeError | ValueError | AttributeError | KeyError
  | RuntimeError string
  | AgentError string
  | SendBlocked string
  | NoteRejected string
  | NetworkError string
  | CoordinatorError string
  | FileExistsError string
  | ConnectorConfigError string
  | MediaGenerationError string
  | ConsoleError string

type_synonym 'a res = "exn + 'a"

definition bindE :: "'e + 'a \<Rightarrow> ('a \<Rightarrow> 'e + 'b) \<Rightarrow> 'e + 'b" where
  "bindE m f = (case m of Inl e \<Rightarrow> Inl e | Inr x \<Rightarrow> f x)"

definition guardE :: "bool \<Rightarrow> 'e \<Rightarrow> 'e + unit" where
  "guardE b e = (if b then Inr () else Inl e)"

fun mapE :: "('a \<Rightarrow> 'e + 'b) \<Rightarrow> 'a list \<Rightarrow> 'e + 'b list" where
  "mapE f [] = Inr []"
| "mapE f (x # xs) = bindE (f x) (\<lambda>y. bindE (mapE f xs) (\<lambda>ys. Inr (y # ys)))"

text \<open>
  Inversion of a computation that returned; the collection drives the component
  proofs, which all start from an equation \<open>f x = Inr y\<close>.
\<close>

named_theorems returns

lemma bindE_simps [simp]:
  "bindE (Inl e) f = Inl e"
  "bindE (Inr x) f = f x"
  by (simp_all add: bindE_def)

lemma bindE_returns [returns]: "bindE m f = Inr y \<longleftrightarrow> (\<exists>x. m = Inr x \<and> f x = Inr y)"
  by (cases m) auto

lemma bindE_raises: "bindE m f = Inl e \<longleftrightarrow> m = Inl e \<or> (\<exists>x. m = Inr x \<and> f x = Inl e)"
  by (cases m) auto

lemma guardE_returns [returns]: "guardE b e = Inr u \<longleftrightarrow> b"
  by (simp add: guardE_def)

lemma guardE_simps [simp]: "guardE True e = Inr ()" "guardE False e = Inl e"
  by (simp_all add: guardE_def)

lemma if_Inl_returns [returns]: "(if b then Inl e else m) = Inr y \<longleftrightarrow> \<not> b \<and> m = Inr y"
  by simp

lemma if_Inl_returns' [returns]: "(if b then m else Inl e) = Inr y \<longleftrightarrow> b \<and> m = Inr y"
  by simp

lemma mapE_set:
  assumes "mapE f xs = Inr ys" and "y \<in> set ys"
  shows "\<exists>x \<in> set xs. f x = Inr y"
  using assms by (induction xs arbitrary: ys) (auto simp: returns)

lemma mapE_length: "mapE f xs = Inr ys \<Longrightarrow> length ys = length xs"
  by (induction xs arbitrary: ys) (auto simp: returns)

lemma mapE_total: "(\<And>x. x \<in> set xs \<Longrightarrow> \<exists>y. f x = Inr y) \<Longrightarrow> \<exists>ys. mapE f xs = Inr ys"
  by (induction xs) (auto simp: returns)


section \<open>JSON values and Python's view of them\<close>

datatype json =
    JNull
  | JBool bool
  | JInt int
  | JStr string
  | JArr "json list"
  | JObj "(string \<times> json) list"

text \<open>\<open>bool(x)\<close> and \<open>a or b\<close>.\<close>

fun truthy :: "json \<Rightarrow> bool" where
  "truthy JNull = False"
| "truthy (JBool b) = b"
| "truthy (JInt i) = (i \<noteq> 0)"
| "truthy (JStr s) = (s \<noteq> [])"
| "truthy (JArr xs) = (xs \<noteq> [])"
| "truthy (JObj kvs) = (kvs \<noteq> [])"

definition py_or :: "json \<Rightarrow> json \<Rightarrow> json" where
  "py_or a b = (if truthy a then a else b)"

lemma py_or_simps [simp]:
  "truthy a \<Longrightarrow> py_or a b = a"
  "\<not> truthy a \<Longrightarrow> py_or a b = b"
  by (simp_all add: py_or_def)

text \<open>\<open>d.get(k)\<close> on a parsed object.\<close>

definition jget :: "string \<Rightarrow> (string \<times> json) list \<Rightarrow> json" where
  "jget k kvs = (case map_of kvs k of None \<Rightarrow> JNull | Some v \<Rightarrow> v)"

text \<open>
  Python's \<open>==\<close> identifies \<open>True\<close> with \<open>1\<close>, \<open>False\<close> with \<open>0\<close>, and objects that differ
  in the order of their keys. \<open>py_canon\<close> picks one value of each class.
\<close>

fun py_canon :: "json \<Rightarrow> json" where
  "py_canon (JBool b) = JInt (if b then 1 else 0)"
| "py_canon (JArr xs) = JArr (map py_canon xs)"
| "py_canon (JObj kvs) = JObj (sort_key fst (map (\<lambda>(k, v). (k, py_canon v)) kvs))"
| "py_canon v = v"

definition py_eq :: "json \<Rightarrow> json \<Rightarrow> bool" where
  "py_eq a b \<longleftrightarrow> py_canon a = py_canon b"

lemma py_eq_refl [simp, intro!]: "py_eq a a"
  by (simp add: py_eq_def)

lemma py_eq_sym: "py_eq a b \<Longrightarrow> py_eq b a"
  by (simp add: py_eq_def)

lemma py_eq_trans [trans]: "py_eq a b \<Longrightarrow> py_eq b c \<Longrightarrow> py_eq a c"
  by (simp add: py_eq_def)

lemma py_eq_JStr [simp]: "py_eq a (JStr s) \<longleftrightarrow> a = JStr s" "py_eq (JStr s) a \<longleftrightarrow> a = JStr s"
  by (cases a; auto simp: py_eq_def)+

lemma py_eq_JNull [simp]: "py_eq a JNull \<longleftrightarrow> a = JNull" "py_eq JNull a \<longleftrightarrow> a = JNull"
  by (cases a; auto simp: py_eq_def)+

lemma py_eq_truthy: "py_eq a b \<Longrightarrow> truthy a = truthy b"
proof -
  have "truthy (py_canon v) = truthy v" for v
  proof (cases v)
    case (JObj kvs)
    have "length (sort_key fst (map (\<lambda>(k, v). (k, py_canon v)) kvs)) = length kvs" by simp
    then have "(sort_key fst (map (\<lambda>(k, v). (k, py_canon v)) kvs) \<noteq> []) = (kvs \<noteq> [])"
      by (metis length_0_conv)
    with JObj show ?thesis by simp
  qed auto
  then show "py_eq a b \<Longrightarrow> truthy a = truthy b" unfolding py_eq_def by metis
qed

text \<open>Only scalars can be dictionary keys or set members; the others raise \<open>TypeError\<close>.\<close>

fun hashable :: "json \<Rightarrow> bool" where
  "hashable (JArr xs) = False"
| "hashable (JObj kvs) = False"
| "hashable v = True"

definition mem_py :: "json \<Rightarrow> json list \<Rightarrow> bool" where
  "mem_py x ys \<longleftrightarrow> (\<exists>y \<in> set ys. py_eq y x)"

lemma mem_py_code [code]: "mem_py x ys = list_ex (\<lambda>y. py_eq y x) ys"
  by (simp add: mem_py_def list_ex_iff)

lemma mem_py_simps [simp]:
  "mem_py x [] = False"
  "mem_py x (y # ys) = (py_eq y x \<or> mem_py x ys)"
  "mem_py x (ys @ zs) = (mem_py x ys \<or> mem_py x zs)"
  by (auto simp: mem_py_def)

lemma mem_py_self [intro]: "x \<in> set ys \<Longrightarrow> mem_py x ys"
  by (auto simp: mem_py_def)


section \<open>Strings\<close>

abbreviation nl :: string where "nl \<equiv> [CHR 10]"

definition is_space :: "char \<Rightarrow> bool" where
  "is_space c \<longleftrightarrow> c \<in> {CHR '' '', CHR 9, CHR 10, CHR 11, CHR 12, CHR 13, CHR 28, CHR 29, CHR 30,
     CHR 31}"

definition strip :: "string \<Rightarrow> string" where
  "strip s = rev (dropWhile is_space (rev (dropWhile is_space s)))"

definition upper_char :: "char \<Rightarrow> char" where
  "upper_char c = (let n = of_char c :: nat in if 97 \<le> n \<and> n \<le> 122 then char_of (n - 32) else c)"

definition lower_char :: "char \<Rightarrow> char" where
  "lower_char c = (let n = of_char c :: nat in if 65 \<le> n \<and> n \<le> 90 then char_of (n + 32) else c)"

definition upper :: "string \<Rightarrow> string" where "upper s = map upper_char s"

definition lower :: "string \<Rightarrow> string" where "lower s = map lower_char s"

definition starts_with :: "string \<Rightarrow> string \<Rightarrow> bool" where
  "starts_with s p \<longleftrightarrow> take (length p) s = p"

definition ends_with :: "string \<Rightarrow> string \<Rightarrow> bool" where
  "ends_with s p \<longleftrightarrow> drop (length s - length p) s = p \<and> length p \<le> length s"

fun join :: "string \<Rightarrow> string list \<Rightarrow> string" where
  "join sep [] = []"
| "join sep [x] = x"
| "join sep (x # y # ys) = x @ sep @ join sep (y # ys)"

text \<open>\<open>s.split()\<close>: the maximal runs of characters that are not white space.\<close>

fun split_ws_acc :: "string \<Rightarrow> string \<Rightarrow> string list" where
  "split_ws_acc w [] = (if w = [] then [] else [w])"
| "split_ws_acc w (c # cs) =
     (if is_space c then (if w = [] then split_ws_acc [] cs else w # split_ws_acc [] cs)
      else split_ws_acc (w @ [c]) cs)"

definition split_ws :: "string \<Rightarrow> string list" where "split_ws s = split_ws_acc [] s"

text \<open>\<open>s.split(c)\<close> for a one-character separator.\<close>

fun split_on :: "char \<Rightarrow> string \<Rightarrow> string list" where
  "split_on c [] = [[]]"
| "split_on c (x # xs) =
     (if x = c then [] # split_on c xs
      else (case split_on c xs of [] \<Rightarrow> [[x]] | w # ws \<Rightarrow> (x # w) # ws))"

lemma split_on_not_Nil [simp]: "split_on c s \<noteq> []"
  by (induction s) (auto split: list.splits)

lemma starts_with_simps [simp]:
  "starts_with s []" "\<not> starts_with [] (d # p)"
  "starts_with (c # s) (d # p) \<longleftrightarrow> c = d \<and> starts_with s p"
  by (auto simp: starts_with_def)

lemma starts_with_append [simp]: "starts_with (p @ s) p"
  by (simp add: starts_with_def)

lemma length_strip: "length (strip s) \<le> length s"
proof -
  have "length (dropWhile P xs) \<le> length xs" for P and xs :: string
    by (rule length_dropWhile_le)
  then show ?thesis by (metis strip_def length_rev order_trans)
qed

text \<open>\<open>s[-n:]\<close> for a positive \<open>n\<close>.\<close>

definition take_last :: "nat \<Rightarrow> 'a list \<Rightarrow> 'a list" where
  "take_last n xs = drop (length xs - n) xs"

lemma length_take_last [simp]: "length (take_last n xs) = min n (length xs)"
  by (simp add: take_last_def)

text \<open>Decimal numerals, as \<open>"%d"\<close> and \<open>str\<close> print them.\<close>

definition digit_char :: "nat \<Rightarrow> char" where "digit_char d = char_of (48 + d)"

fun show_nat :: "nat \<Rightarrow> string" where
  "show_nat n = (if n < 10 then [digit_char n] else show_nat (n div 10) @ [digit_char (n mod 10)])"

declare show_nat.simps [simp del]

definition show_int :: "int \<Rightarrow> string" where
  "show_int i = (if i < 0 then CHR ''-'' # show_nat (nat (- i)) else show_nat (nat i))"

definition is_digit :: "char \<Rightarrow> bool" where
  "is_digit c \<longleftrightarrow> (let n = of_char c :: nat in 48 \<le> n \<and> n \<le> 57)"

definition digit_val :: "char \<Rightarrow> nat" where "digit_val c = of_char c - 48"

definition read_nat :: "string \<Rightarrow> nat" where
  "read_nat s = foldl (\<lambda>n c. 10 * n + digit_val c) 0 s"

text \<open>The round trip of \<open>%d\<close> and \<open>int\<close>.\<close>

lemma digit_char_facts:
  assumes "d < 10"
  shows "is_digit (digit_char d)" and "digit_val (digit_char d) = d"
  using assms by (simp_all add: is_digit_def digit_char_def digit_val_def)

lemma read_nat_snoc [simp]: "read_nat (s @ [c]) = 10 * read_nat s + digit_val c"
  by (simp add: read_nat_def)

lemma show_nat_digits: "\<forall>c \<in> set (show_nat n). is_digit c"
proof (induction n rule: show_nat.induct)
  case (1 n)
  show ?case
  proof (cases "n < 10")
    case True
    then show ?thesis by (simp add: show_nat.simps [of n] digit_char_facts)
  next
    case False
    with 1 have "\<forall>c \<in> set (show_nat (n div 10)). is_digit c" by simp
    with False show ?thesis by (simp add: show_nat.simps [of n] digit_char_facts)
  qed
qed

lemma show_nat_not_Nil [simp]: "show_nat n \<noteq> []"
  by (subst show_nat.simps) simp

lemma read_show_nat [simp]: "read_nat (show_nat n) = n"
proof (induction n rule: show_nat.induct)
  case (1 n)
  show ?case
  proof (cases "n < 10")
    case True
    then show ?thesis by (simp add: show_nat.simps [of n] digit_char_facts read_nat_def)
  next
    case False
    with 1 have "read_nat (show_nat (n div 10)) = n div 10" by simp
    with False show ?thesis by (simp add: show_nat.simps [of n] digit_char_facts)
  qed
qed

lemma show_nat_inj [simp]: "show_nat m = show_nat n \<longleftrightarrow> m = n"
  by (metis read_show_nat)

lemma show_nat_no_minus: "CHR ''-'' \<notin> set (show_nat n)"
  using show_nat_digits [of n] by (auto simp: is_digit_def)

lemma show_int_inj [simp]: "show_int i = show_int j \<longleftrightarrow> i = j"
proof
  assume eq: "show_int i = show_int j"
  have hd: "hd (show_nat n) \<noteq> CHR ''-''" for n
    using show_nat_no_minus [of n] by (metis hd_in_set show_nat_not_Nil)
  from eq hd [of "nat i"] hd [of "nat j"] show "i = j"
    by (auto simp: show_int_def split: if_splits dest!: arg_cong [where f = hd])
qed simp


section \<open>Printing and reading JSON values\<close>

text \<open>
  \<open>repr\<close> of a string: the quote is \<open>'\<close> unless the string holds that and no \<open>"\<close>;
  the backslash, the quote and the control characters are escaped.
\<close>

definition hex_char :: "nat \<Rightarrow> char" where
  "hex_char d = (if d < 10 then char_of (48 + d) else char_of (87 + d))"

definition repr_char :: "char \<Rightarrow> char \<Rightarrow> string" where
  "repr_char q c =
     (let n = of_char c :: nat in
      if c = q \<or> c = CHR 0x5C then [CHR 0x5C, c]
      else if n = 10 then [CHR 0x5C, CHR ''n'']
      else if n = 13 then [CHR 0x5C, CHR ''r'']
      else if n = 9 then [CHR 0x5C, CHR ''t'']
      else if n < 32 \<or> (127 \<le> n \<and> n \<le> 160) \<or> n = 173
        then [CHR 0x5C, CHR ''x'', hex_char (n div 16), hex_char (n mod 16)]
      else [c])"

definition repr_str :: "string \<Rightarrow> string" where
  "repr_str s =
     (let q = (if CHR 39 \<in> set s \<and> CHR 34 \<notin> set s then CHR 34 else CHR 39)
      in [q] @ concat (map (repr_char q) s) @ [q])"

fun py_repr :: "json \<Rightarrow> string" where
  "py_repr JNull = ''None''"
| "py_repr (JBool b) = (if b then ''True'' else ''False'')"
| "py_repr (JInt i) = show_int i"
| "py_repr (JStr s) = repr_str s"
| "py_repr (JArr xs) = ''['' @ join '', '' (map py_repr xs) @ '']''"
| "py_repr (JObj kvs) =
     ''{'' @ join '', '' (map (\<lambda>(k, v). repr_str k @ '': '' @ py_repr v) kvs) @ ''}''"

text \<open>\<open>str(x)\<close> and \<open>"%s" % x\<close>.\<close>

definition py_str :: "json \<Rightarrow> string" where
  "py_str v = (case v of JStr s \<Rightarrow> s | _ \<Rightarrow> py_repr v)"

lemma py_str_JStr [simp]: "py_str (JStr s) = s"
  by (simp add: py_str_def)

text \<open>
  \<open>int(s)\<close> of a string: surrounding white space and a sign are allowed, and single
  underscores between digits.
\<close>

fun int_digits :: "string \<Rightarrow> bool" where
  "int_digits [] = False"
| "int_digits [c] = is_digit c"
| "int_digits (c # d # cs) =
     (is_digit c \<and> (if d = CHR ''_'' then int_digits cs else int_digits (d # cs)))"

definition parse_int :: "string \<Rightarrow> int option" where
  "parse_int s =
     (let t = strip s;
          neg = (case t of c # _ \<Rightarrow> c = CHR ''-'' | [] \<Rightarrow> False);
          body = (case t of c # cs \<Rightarrow> if c = CHR ''-'' \<or> c = CHR ''+'' then cs else t | [] \<Rightarrow> [])
      in if int_digits body
         then let n = int (read_nat (filter is_digit body)) in Some (if neg then - n else n)
         else None)"

fun py_int :: "json \<Rightarrow> int res" where
  "py_int (JInt i) = Inr i"
| "py_int (JBool b) = Inr (if b then 1 else 0)"
| "py_int (JStr s) = (case parse_int s of Some i \<Rightarrow> Inr i | None \<Rightarrow> Inl ValueError)"
| "py_int _ = Inl TypeError"

text \<open>\<open>sep.join(xs)\<close> raises \<open>TypeError\<close> on a member that is not a string.\<close>

definition as_str :: "json \<Rightarrow> string res" where
  "as_str v = (case v of JStr s \<Rightarrow> Inr s | _ \<Rightarrow> Inl TypeError)"

lemma as_str_returns [returns]: "as_str v = Inr s \<longleftrightarrow> v = JStr s"
  by (cases v) (auto simp: as_str_def)

definition join_json :: "string \<Rightarrow> json list \<Rightarrow> string res" where
  "join_json sep vs = bindE (mapE as_str vs) (\<lambda>ss. Inr (join sep ss))"


text \<open>\<open>v[:n]\<close>.\<close>

fun py_take :: "nat \<Rightarrow> json \<Rightarrow> json res" where
  "py_take n (JStr s) = Inr (JStr (take n s))"
| "py_take n (JArr xs) = Inr (JArr (take n xs))"
| "py_take n _ = Inl TypeError"

section \<open>Insertion-ordered dictionaries keyed by JSON scalars\<close>

text \<open>
  A Python dictionary compares keys with \<open>==\<close>, keeps the first key object of an entry
  and replaces the value. Dictionaries keyed by strings are association lists updated
  with \<open>AList.update\<close>.
\<close>

fun pd_get :: "json \<Rightarrow> (json \<times> 'v) list \<Rightarrow> 'v option" where
  "pd_get k [] = None"
| "pd_get k ((k', v) # d) = (if py_eq k' k then Some v else pd_get k d)"

fun pd_set :: "json \<Rightarrow> 'v \<Rightarrow> (json \<times> 'v) list \<Rightarrow> (json \<times> 'v) list" where
  "pd_set k v [] = [(k, v)]"
| "pd_set k v ((k', w) # d) = (if py_eq k' k then (k', v) # d else (k', w) # pd_set k v d)"

lemma pd_get_set: "pd_get k' (pd_set k v d) = (if py_eq k k' then Some v else pd_get k' d)"
  by (induction d) (auto simp: py_eq_def)

lemma pd_get_in: "pd_get k d = Some v \<Longrightarrow> \<exists>k'. (k', v) \<in> set d \<and> py_eq k' k"
  by (induction d) (auto split: if_splits)

lemma pd_get_None: "pd_get k d = None \<longleftrightarrow> (\<forall>(k', v) \<in> set d. \<not> py_eq k' k)"
  by (induction d) (auto split: if_splits)

lemma pd_set_in: "(k', w) \<in> set (pd_set k v d) \<Longrightarrow> (k', w) \<in> set d \<or> (w = v \<and> py_eq k' k)"
  by (induction d) (auto split: if_splits)

lemma pd_set_mem: "mem_py x (map fst (pd_set k v d)) \<longleftrightarrow> mem_py x (map fst d) \<or> py_eq k x"
  by (induction d) (auto simp: py_eq_def split: if_splits)

lemma pd_get_mem: "(\<exists>v. pd_get k d = Some v) \<longleftrightarrow> mem_py k (map fst d)"
  by (induction d) auto

end
