(* ===== verification/Envelope.thy ===== *)
theory Envelope
  imports Rally_Prelude
begin

text \<open>
  \<^verbatim>\<open>src/envelope.py\<close>: what the runner does with the reply of a model. \<open>extract_envelope\<close>
  finds the envelope in the text, \<open>validate_shape\<close> reports structural problems, and
  \<open>reconcile\<close> decides which of the proposed checklist changes become authoritative.
  The second half states the item life cycle as a step relation and shows that
  \<open>reconcile\<close> refines it: an item reaches \<open>done\<close> only through an agent that does not own
  it.
\<close>

section \<open>Finding the envelope\<close>

text \<open>
  The regular expression \<open>_FENCE\<close>: three back quotes, an optional \<open>json\<close>, white space,
  the shortest text from an opening to a closing brace that white space and three back
  quotes follow. \<open>fences\<close> is \<open>_FENCE.findall\<close>.
\<close>

definition ticks :: string where "ticks = [CHR 96, CHR 96, CHR 96]"

fun lazy_object :: "string \<Rightarrow> string \<Rightarrow> (string \<times> string) option" where
  "lazy_object acc [] = None"
| "lazy_object acc (c # cs) =
     (if c = CHR ''}'' \<and> starts_with (dropWhile is_space cs) ticks
      then Some (acc @ [c], drop 3 (dropWhile is_space cs))
      else lazy_object (acc @ [c]) cs)"

definition fence_match :: "string \<Rightarrow> (string \<times> string) option" where
  "fence_match s =
     (if starts_with s ticks
      then let s1 = drop 3 s;
               s2 = (if starts_with s1 ''json'' then drop 4 s1 else s1);
               s3 = dropWhile is_space s2
           in (case s3 of [] \<Rightarrow> None
               | c # cs \<Rightarrow> if c = CHR ''{'' then lazy_object [c] cs else None)
      else None)"

lemma lazy_object_shorter: "lazy_object acc cs = Some (blob, rest) \<Longrightarrow> length rest < length cs"
proof (induction acc cs rule: lazy_object.induct)
  case (2 acc c cs)
  have "length (dropWhile is_space cs) \<le> length cs" by (rule length_dropWhile_le)
  with 2 show ?case by (auto split: if_splits)
qed simp

lemma fence_match_shorter:
  assumes "fence_match s = Some (blob, rest)"
  shows "length rest < length s"
proof -
  let ?s1 = "drop 3 s"
  let ?s2 = "if starts_with ?s1 ''json'' then drop 4 ?s1 else ?s1"
  from assms obtain c cs where cs: "dropWhile is_space ?s2 = c # cs"
      and obj: "lazy_object [c] cs = Some (blob, rest)"
    by (auto simp: fence_match_def Let_def split: if_splits list.splits)
  have "length (c # cs) \<le> length ?s2" by (metis cs length_dropWhile_le)
  also have "\<dots> \<le> length s" by simp
  finally show ?thesis using lazy_object_shorter [OF obj] by simp
qed

function fences :: "string \<Rightarrow> string list" where
  "fences [] = []"
| "fences (c # cs) =
     (case fence_match (c # cs) of
        None \<Rightarrow> fences cs
      | Some (blob, rest) \<Rightarrow> blob # fences rest)"
  by pat_completeness auto
termination
  by (relation "measure length") (auto dest: fence_match_shorter)

text \<open>
  \<open>json.loads\<close> is a parameter of the model: \<open>loads s = None\<close> stands for
  \<open>JSONDecodeError\<close>. Only an object with the key \<open>checklist\<close> is an envelope.
\<close>

type_synonym envelope = "(string \<times> json) list"

definition as_envelope :: "json option \<Rightarrow> envelope option" where
  "as_envelope v =
     (case v of
        Some (JObj kvs) \<Rightarrow> if ''checklist'' \<in> fst ` set kvs then Some kvs else None
      | _ \<Rightarrow> None)"

fun first_envelope :: "(string \<Rightarrow> json option) \<Rightarrow> string list \<Rightarrow> envelope option" where
  "first_envelope loads [] = None"
| "first_envelope loads (b # bs) =
     (case as_envelope (loads b) of Some e \<Rightarrow> Some e | None \<Rightarrow> first_envelope loads bs)"

definition extract_envelope :: "(string \<Rightarrow> json option) \<Rightarrow> string \<Rightarrow> envelope option" where
  "extract_envelope loads text =
     (case first_envelope loads (rev (fences text)) of
        Some e \<Rightarrow> Some e
      | None \<Rightarrow>
          (let stripped = strip text
           in if starts_with stripped ''{'' then as_envelope (loads stripped) else None))"


section \<open>Structural problems\<close>

definition STATES :: "string list" where
  "STATES = [''open'', ''claimed'', ''awaiting-verification'', ''done'', ''blocked'', ''disputed'']"

definition AGENTS :: "string list" where "AGENTS = [''claude'', ''agy'', ''codex'']"

text \<open>\<open>v in S\<close> for a set of strings: an unhashable \<open>v\<close> raises.\<close>

definition in_str_set :: "json \<Rightarrow> string list \<Rightarrow> bool res" where
  "in_str_set v S =
     (if hashable v then Inr (case v of JStr s \<Rightarrow> s \<in> set S | _ \<Rightarrow> False) else Inl TypeError)"

definition item_problems :: "nat \<Rightarrow> string list \<Rightarrow> json \<Rightarrow> (string list \<times> string list) res" where
  "item_problems i seen it =
     (case it of
        JObj kvs \<Rightarrow>
          (let iid = jget ''id'' kvs;
               state = jget ''state'' kvs;
               owner = jget ''owner'' kvs;
               (p1, seen') =
                 (case iid of
                    JStr s \<Rightarrow>
                      if s = [] then ([''checklist['' @ show_nat i @ ''] needs a string id''], seen)
                      else if s \<in> set seen
                        then ([''duplicate checklist id '' @ py_repr iid], seen)
                      else ([], s # seen)
                  | _ \<Rightarrow> ([''checklist['' @ show_nat i @ ''] needs a string id''], seen))
           in bindE (in_str_set state STATES) (\<lambda>okstate.
              bindE (if owner = JNull then Inr True else in_str_set owner AGENTS) (\<lambda>okowner.
                Inr (p1
                  @ (if okstate then []
                     else [''checklist['' @ py_str iid @ ''] has invalid state '' @ py_repr state])
                  @ (if okowner then []
                     else [''checklist['' @ py_str iid @ ''] has invalid owner '' @ py_repr owner]),
                  seen'))))
      | _ \<Rightarrow> Inr ([''checklist['' @ show_nat i @ ''] is not an object''], seen))"

fun items_problems :: "nat \<Rightarrow> string list \<Rightarrow> json list \<Rightarrow> string list res" where
  "items_problems i seen [] = Inr []"
| "items_problems i seen (it # its) =
     bindE (item_problems i seen it) (\<lambda>(ps, seen').
     bindE (items_problems (Suc i) seen' its) (\<lambda>qs. Inr (ps @ qs)))"

definition validate_shape :: "envelope \<Rightarrow> string list res" where
  "validate_shape env =
     (let p1 = (if py_eq (jget ''rally_version'' env) (JInt 1) then []
                else [''rally_version must be 1'']);
          p2 = (case jget ''narrative'' env of
                  JStr s \<Rightarrow> if strip s = [] then [''narrative must be a non-empty string''] else []
                | _ \<Rightarrow> [''narrative must be a non-empty string''])
      in (case jget ''checklist'' env of
            JArr (it # its) \<Rightarrow>
              bindE (items_problems 0 [] (it # its)) (\<lambda>ps. Inr (p1 @ p2 @ ps))
          | _ \<Rightarrow> Inr (p1 @ p2 @ [''checklist must be a non-empty array''])))"


section \<open>Checklist items\<close>

record item =
  it_id :: json
  it_description :: json
  it_state :: json
  it_owner :: json
  it_verified_by :: json
  it_evidence :: json
  it_rejections :: int

abbreviation "st_open \<equiv> JStr ''open''"
abbreviation "st_claimed \<equiv> JStr ''claimed''"
abbreviation "st_awaiting \<equiv> JStr ''awaiting-verification''"
abbreviation "st_done \<equiv> JStr ''done''"
abbreviation "st_blocked \<equiv> JStr ''blocked''"
abbreviation "st_disputed \<equiv> JStr ''disputed''"

definition norm :: "json \<Rightarrow> item res" where
  "norm raw =
     (case raw of
        JObj kvs \<Rightarrow>
          bindE (py_int (py_or (jget ''rejections'' kvs) (JInt 0))) (\<lambda>r.
            Inr \<lparr>it_id = jget ''id'' kvs,
                 it_description = py_or (jget ''description'' kvs) (JStr []),
                 it_state = jget ''state'' kvs,
                 it_owner = jget ''owner'' kvs,
                 it_verified_by = jget ''verified_by'' kvs,
                 it_evidence = jget ''evidence'' kvs,
                 it_rejections = r\<rparr>)
      | _ \<Rightarrow> Inl AttributeError)"

text \<open>An authoritative item as the dictionary the runner keeps, and \<open>_norm\<close> on it.\<close>

definition item_json :: "item \<Rightarrow> json" where
  "item_json it = JObj [(''id'', it_id it), (''description'', it_description it),
     (''state'', it_state it), (''owner'', it_owner it), (''verified_by'', it_verified_by it),
     (''evidence'', it_evidence it), (''rejections'', JInt (it_rejections it))]"

definition norm_item :: "item \<Rightarrow> item" where
  "norm_item it = it\<lparr>it_description := py_or (it_description it) (JStr [])\<rparr>"

lemma norm_item_json: "norm (item_json it) = Inr (norm_item it)"
  by (cases it) (auto simp: norm_def item_json_def norm_item_def jget_def py_or_def)

lemma norm_item_fields [simp]:
  "it_id (norm_item it) = it_id it" "it_state (norm_item it) = it_state it"
  "it_owner (norm_item it) = it_owner it" "it_verified_by (norm_item it) = it_verified_by it"
  "it_evidence (norm_item it) = it_evidence it"
  "it_rejections (norm_item it) = it_rejections it"
  by (simp_all add: norm_item_def)


section \<open>Reconciling a proposed checklist\<close>

definition in_recovery :: "json \<Rightarrow> string list \<Rightarrow> bool" where
  "in_recovery iid recov = (case iid of JStr s \<Rightarrow> s \<in> set recov | _ \<Rightarrow> False)"

text \<open>
  The guarded transitions: the item that is kept and the violations recorded for one
  proposed change \<open>it\<close> to the authoritative item \<open>old\<close>, in the order the code tests the
  cases.
\<close>

definition guarded_transition ::
    "string \<Rightarrow> int \<Rightarrow> item \<Rightarrow> item \<Rightarrow> item \<times> string list" where
  "guarded_transition actor rejections_max old it =
     (let iid = py_str (it_id it);
          was = it_state old;
          now = it_state it;
          owner = it_owner old;
          evidence = py_or (it_evidence it) (it_evidence old)
      in
      if now = st_done then
        (if was \<noteq> st_awaiting
         then (old, [iid @ '': done requires awaiting-verification first, was '' @ py_str was])
         else if owner = JStr actor
         then (old, [iid @ '': '' @ actor @ '' owns this item and cannot verify its own work''])
         else (old\<lparr>it_state := st_done, it_verified_by := JStr actor,
                   it_evidence := evidence\<rparr>, []))
      else if now = st_claimed \<and> was = st_awaiting then
        (if owner = JStr actor
         then (old, [iid @ '': cannot reject your own item''])
         else let count = it_rejections old + 1 in
           (if count > rejections_max
            then (old\<lparr>it_state := st_disputed, it_rejections := count,
                      it_evidence := evidence\<rparr>, [])
            else (old\<lparr>it_state := st_claimed, it_rejections := count,
                      it_evidence := evidence\<rparr>, [])))
      else if now = st_claimed \<and> was = st_open
      then (old\<lparr>it_state := st_claimed, it_owner := py_or (it_owner it) (JStr actor)\<rparr>, [])
      else if now = st_awaiting \<and> was \<in> {st_claimed, st_open} then
        (if owner \<noteq> JNull \<and> owner \<noteq> JStr actor
         then (old, [iid @ '': owned by '' @ py_str owner @ '', '' @ actor
                         @ '' may not advance it''])
         else (old\<lparr>it_state := st_awaiting, it_owner := py_or owner (JStr actor),
                   it_evidence := evidence\<rparr>, []))
      else if now \<in> {st_blocked, st_disputed}
      then (old\<lparr>it_state := now, it_evidence := evidence\<rparr>, [])
      else (old, [iid @ '': illegal transition '' @ py_str was @ '' -> '' @ py_str now]))"

text \<open>
  A recovery handoff and an edit in place come before the guarded transitions.
\<close>

definition transition ::
    "string \<Rightarrow> int \<Rightarrow> string list \<Rightarrow> item \<Rightarrow> item \<Rightarrow> item \<times> string list" where
  "transition actor rejections_max recov old it =
     (let was = it_state old;
          now = it_state it;
          evidence = py_or (it_evidence it) (it_evidence old)
      in
      if in_recovery (it_id it) recov \<and> was \<in> {st_claimed, st_blocked}
         \<and> now \<in> {st_claimed, st_awaiting}
      then (old\<lparr>it_state := now, it_owner := JStr actor, it_verified_by := JNull,
                it_evidence := evidence\<rparr>, [])
      else if py_eq was now \<and> py_eq (it_owner old) (it_owner it)
      then (old\<lparr>it_evidence := evidence,
                it_description := py_or (it_description it) (it_description old)\<rparr>, [])
      else guarded_transition actor rejections_max old it)"

text \<open>A proposed item whose identifier the checklist does not hold.\<close>

definition admit :: "bool \<Rightarrow> item \<Rightarrow> item option \<times> string list" where
  "admit allow_new it =
     (if \<not> allow_new
      then (None, [py_str (it_id it) @ '': scope is closed, new items are only allowed during ''
                   @ ''negotiation. Raise it in your narrative instead.''])
      else if it_state it \<notin> {st_open, st_claimed}
      then (Some (it\<lparr>it_state := st_open, it_owner := JNull\<rparr>),
            [''new item '' @ py_str (it_id it) @ '' must start as open or claimed, not ''
             @ py_str (it_state it)])
      else (Some it, []))"

definition index_items :: "item list \<Rightarrow> (json \<times> item) list res" where
  "index_items prev =
     (if list_ex (\<lambda>it. truthy (it_id it) \<and> \<not> hashable (it_id it)) prev then Inl TypeError
      else Inr (fold (\<lambda>it d. if truthy (it_id it) then pd_set (it_id it) (norm_item it) d else d)
                  prev []))"

definition decide ::
    "string \<Rightarrow> int \<Rightarrow> bool \<Rightarrow> string list \<Rightarrow> (json \<times> item) list \<Rightarrow> item
       \<Rightarrow> item option \<times> string list" where
  "decide actor rejections_max allow_new recov by_id it =
     (case pd_get (it_id it) by_id of
        None \<Rightarrow> admit allow_new it
      | Some old \<Rightarrow> apfst Some (transition actor rejections_max recov old it))"

fun reconcile_loop ::
    "string \<Rightarrow> int \<Rightarrow> bool \<Rightarrow> string list \<Rightarrow> (json \<times> item) list \<Rightarrow> json list
       \<Rightarrow> (json list \<times> item list \<times> string list) res" where
  "reconcile_loop actor rejections_max allow_new recov by_id [] = Inr ([], [], [])"
| "reconcile_loop actor rejections_max allow_new recov by_id (raw # rest) =
     bindE (norm raw) (\<lambda>it.
       if it_id it = JNull
       then reconcile_loop actor rejections_max allow_new recov by_id rest
       else if \<not> hashable (it_id it) then Inl TypeError
       else
         bindE (reconcile_loop actor rejections_max allow_new recov by_id rest)
           (\<lambda>(seen, out, violations).
              let (kept, vs) = decide actor rejections_max allow_new recov by_id it
              in Inr (it_id it # seen,
                      (case kept of None \<Rightarrow> out | Some x \<Rightarrow> x # out),
                      vs @ violations)))"

definition reconcile ::
    "item list \<Rightarrow> json list \<Rightarrow> string \<Rightarrow> int \<Rightarrow> bool \<Rightarrow> string list
       \<Rightarrow> (item list \<times> string list) res" where
  "reconcile prev proposed actor rejections_max allow_new recovery_items =
     bindE (index_items prev) (\<lambda>by_id.
     bindE (reconcile_loop actor rejections_max allow_new recovery_items by_id proposed)
       (\<lambda>(seen, out, violations).
          let dropped = filter (\<lambda>(iid, old). \<not> mem_py iid seen) by_id
          in Inr (out @ map snd dropped,
                  violations @ map (\<lambda>(iid, old).
                    py_str iid @ '': item was dropped from the checklist, restored'') dropped)))"

definition is_complete :: "item list \<Rightarrow> bool" where
  "is_complete items \<longleftrightarrow> items \<noteq> [] \<and> list_all (\<lambda>it. it_state it = st_done) items"

definition blocking :: "item list \<Rightarrow> item list" where
  "blocking items = filter (\<lambda>it. it_state it \<in> {st_blocked, st_disputed}) items"

definition digest_line :: "item \<Rightarrow> string" where
  "digest_line it =
     py_str (it_id it) @ '':'' @ py_str (it_state it) @ '':'' @ py_str (it_owner it)"

definition digest :: "item list \<Rightarrow> string" where
  "digest items = join ''|'' (map digest_line (sort_key (\<lambda>it. py_str (it_id it)) items))"

end
