(* ===== verification/Envelope_Correct.thy ===== *)
theory Envelope_Correct
  imports Envelope "HOL-Library.Multiset"
begin

text \<open>
  The item life cycle as an abstract step relation, the invariant that no finished item
  was verified by its owner, and the proof that \<open>reconcile\<close> refines the relation and keeps
  the invariant whatever a model proposes.
\<close>

section \<open>The life cycle of an item\<close>

datatype phase = Open | Claimed | Awaiting | Done | Blocked | Disputed

definition phase_of :: "json \<Rightarrow> phase option" where
  "phase_of v =
     (case v of
        JStr s \<Rightarrow> map_of [(''open'', Open), (''claimed'', Claimed),
          (''awaiting-verification'', Awaiting), (''done'', Done), (''blocked'', Blocked),
          (''disputed'', Disputed)] s
      | _ \<Rightarrow> None)"

lemma phase_of_simps [simp]:
  "phase_of st_open = Some Open" "phase_of st_claimed = Some Claimed"
  "phase_of st_awaiting = Some Awaiting" "phase_of st_done = Some Done"
  "phase_of st_blocked = Some Blocked" "phase_of st_disputed = Some Disputed"
  by (simp_all add: phase_of_def)

lemma phase_of_iff:
  "phase_of v = Some Open \<longleftrightarrow> v = st_open" "phase_of v = Some Claimed \<longleftrightarrow> v = st_claimed"
  "phase_of v = Some Awaiting \<longleftrightarrow> v = st_awaiting" "phase_of v = Some Done \<longleftrightarrow> v = st_done"
  "phase_of v = Some Blocked \<longleftrightarrow> v = st_blocked" "phase_of v = Some Disputed \<longleftrightarrow> v = st_disputed"
  by (auto simp: phase_of_def split: json.splits if_splits)

text \<open>What the life cycle is about: the phase, who owns the item, who verified it.\<close>

record card =
  c_phase :: "phase option"
  c_owner :: json
  c_verifier :: json
  c_rejections :: int

definition card_of :: "item \<Rightarrow> card" where
  "card_of it = \<lparr>c_phase = phase_of (it_state it), c_owner = it_owner it,
     c_verifier = it_verified_by it, c_rejections = it_rejections it\<rparr>"

text \<open>
  The steps the rules allow \<open>actor\<close>: \<open>granted\<close> says whether the runner named the item in a
  recovery handoff, \<open>limit\<close> is the number of rejections before a dispute.
\<close>

inductive life_step :: "string \<Rightarrow> bool \<Rightarrow> int \<Rightarrow> card \<Rightarrow> card \<Rightarrow> bool"
  for actor granted limit where
  stay: "life_step actor granted limit c c"
| claim: "c_phase c = Some Open \<Longrightarrow>
    life_step actor granted limit c (c\<lparr>c_phase := Some Claimed, c_owner := w\<rparr>)"
| submit: "c_phase c \<in> {Some Open, Some Claimed} \<Longrightarrow> c_owner c \<in> {JNull, JStr actor} \<Longrightarrow>
    life_step actor granted limit c (c\<lparr>c_phase := Some Awaiting, c_owner := JStr actor\<rparr>)"
| verify: "c_phase c = Some Awaiting \<Longrightarrow> c_owner c \<noteq> JStr actor \<Longrightarrow>
    life_step actor granted limit c (c\<lparr>c_phase := Some Done, c_verifier := JStr actor\<rparr>)"
| reject: "c_phase c = Some Awaiting \<Longrightarrow> c_owner c \<noteq> JStr actor \<Longrightarrow> c_rejections c + 1 \<le> limit \<Longrightarrow>
    life_step actor granted limit c
      (c\<lparr>c_phase := Some Claimed, c_rejections := c_rejections c + 1\<rparr>)"
| dispute: "c_phase c = Some Awaiting \<Longrightarrow> c_owner c \<noteq> JStr actor \<Longrightarrow> limit < c_rejections c + 1 \<Longrightarrow>
    life_step actor granted limit c
      (c\<lparr>c_phase := Some Disputed, c_rejections := c_rejections c + 1\<rparr>)"
| escalate: "p \<in> {Blocked, Disputed} \<Longrightarrow>
    life_step actor granted limit c (c\<lparr>c_phase := Some p\<rparr>)"
| takeover: "granted \<Longrightarrow> c_phase c \<in> {Some Claimed, Some Blocked} \<Longrightarrow> p \<in> {Claimed, Awaiting} \<Longrightarrow>
    life_step actor granted limit c
      (c\<lparr>c_phase := Some p, c_owner := JStr actor, c_verifier := JNull\<rparr>)"

inductive_cases life_stepE: "life_step actor granted limit c c'"

text \<open>The only way into \<open>Done\<close> is a verification by an agent that does not own the item.\<close>

lemma life_step_to_done:
  assumes "life_step actor granted limit c c'" and "c_phase c' = Some Done"
  shows "(c_phase c = Some Done \<and> c' = c)
    \<or> (c_phase c = Some Awaiting \<and> c_owner c \<noteq> JStr actor \<and> c_owner c' = c_owner c
       \<and> c_verifier c' = JStr actor)"
  using assms by (auto elim!: life_stepE)

lemma life_step_phase:
  "life_step actor granted limit c c' \<Longrightarrow> c_phase c \<noteq> None \<Longrightarrow> c_phase c' \<noteq> None"
  by (auto elim!: life_stepE)

text \<open>Rejections never decrease, and stay at most one above the limit.\<close>

lemma life_step_rejections:
  assumes "life_step actor granted limit c c'"
  shows "c_rejections c \<le> c_rejections c' \<and> c_rejections c' \<le> c_rejections c + 1"
  using assms by (auto elim!: life_stepE)


section \<open>One change refines the life cycle\<close>

lemma py_or_self [simp]: "py_or a a = a"
  by (simp add: py_or_def)


text \<open>The outcomes of a guarded transition, with the tests that select each.\<close>

lemma guarded_cases [case_names Revert Verify Reject Dispute Claim Submit Escalate]:
  fixes actor limit old it
  defines "new \<equiv> fst (guarded_transition actor limit old it)"
    and "msgs \<equiv> snd (guarded_transition actor limit old it)"
    and "evidence \<equiv> py_or (it_evidence it) (it_evidence old)"
  obtains
    "new = old" "length msgs = 1"
  | "it_state it = st_done" "it_state old = st_awaiting" "it_owner old \<noteq> JStr actor" "msgs = []"
      "new = old\<lparr>it_state := st_done, it_verified_by := JStr actor, it_evidence := evidence\<rparr>"
  | "it_state it = st_claimed" "it_state old = st_awaiting" "it_owner old \<noteq> JStr actor"
      "it_rejections old + 1 \<le> limit" "msgs = []"
      "new = old\<lparr>it_state := st_claimed, it_rejections := it_rejections old + 1,
                 it_evidence := evidence\<rparr>"
  | "it_state it = st_claimed" "it_state old = st_awaiting" "it_owner old \<noteq> JStr actor"
      "limit < it_rejections old + 1" "msgs = []"
      "new = old\<lparr>it_state := st_disputed, it_rejections := it_rejections old + 1,
                 it_evidence := evidence\<rparr>"
  | "it_state it = st_claimed" "it_state old = st_open" "msgs = []"
      "new = old\<lparr>it_state := st_claimed, it_owner := py_or (it_owner it) (JStr actor)\<rparr>"
  | "it_state it = st_awaiting" "it_state old \<in> {st_claimed, st_open}"
      "it_owner old \<in> {JNull, JStr actor}" "msgs = []"
      "new = old\<lparr>it_state := st_awaiting, it_owner := JStr actor, it_evidence := evidence\<rparr>"
  | "it_state it \<in> {st_blocked, st_disputed}" "msgs = []"
      "new = old\<lparr>it_state := it_state it, it_evidence := evidence\<rparr>"
proof -
  note defs = guarded_transition_def Let_def new_def msgs_def evidence_def
  consider (fin) "it_state it = st_done" | (claim) "it_state it = st_claimed"
    | (await) "it_state it = st_awaiting" | (esc) "it_state it \<in> {st_blocked, st_disputed}"
    | (bad) "it_state it \<notin> {st_done, st_claimed, st_awaiting, st_blocked, st_disputed}"
    by auto
  then show thesis
  proof cases
    case fin
    consider "it_state old \<noteq> st_awaiting" | "it_state old = st_awaiting" "it_owner old = JStr actor"
      | "it_state old = st_awaiting" "it_owner old \<noteq> JStr actor" by auto
    then show thesis by cases (use fin that(1,2) in \<open>simp_all add: defs\<close>)
  next
    case claim
    consider "it_state old = st_open" | "it_state old = st_awaiting" "it_owner old = JStr actor"
      | "it_state old = st_awaiting" "it_owner old \<noteq> JStr actor" "it_rejections old + 1 \<le> limit"
      | "it_state old = st_awaiting" "it_owner old \<noteq> JStr actor" "limit < it_rejections old + 1"
      | "it_state old \<notin> {st_open, st_awaiting}" by fastforce
    then show thesis by cases (use claim that(1,3,4,5) in \<open>simp_all add: defs\<close>)
  next
    case await
    consider "it_state old \<in> {st_claimed, st_open}" "it_owner old \<in> {JNull, JStr actor}"
      | "it_state old \<in> {st_claimed, st_open}" "it_owner old \<notin> {JNull, JStr actor}"
      | "it_state old \<notin> {st_claimed, st_open}" by auto
    then show thesis
      by cases (use await that(1,6) in \<open>auto simp add: defs py_or_def\<close>)
  next
    case esc
    then show thesis using that(7) by (auto simp add: defs)
  next
    case bad
    then show thesis using that(1) by (simp add: defs)
  qed
qed

lemma guarded_refines:
  "life_step actor granted limit (card_of old)
     (card_of (fst (guarded_transition actor limit old it)))"
  by (cases rule: guarded_cases [of actor limit old it]; simp)
     (auto simp add: card_of_def life_step.simps)

lemma transition_id [simp]:
  "it_id (fst (transition actor limit recov old it)) = it_id old"
  by (cases rule: guarded_cases [of actor limit old it]) (simp_all add: transition_def Let_def)

lemma transition_refines:
  "life_step actor (in_recovery (it_id it) recov) limit (card_of old)
     (card_of (fst (transition actor limit recov old it)))"
proof (cases "in_recovery (it_id it) recov \<and> it_state old \<in> {st_claimed, st_blocked}
    \<and> it_state it \<in> {st_claimed, st_awaiting}")
  case True
  then obtain p where "p \<in> {Claimed, Awaiting}" and "phase_of (it_state it) = Some p" by auto
  then have "card_of (fst (transition actor limit recov old it))
      = (card_of old)\<lparr>c_phase := Some p, c_owner := JStr actor, c_verifier := JNull\<rparr>"
    using True by (simp add: transition_def Let_def card_of_def)
  moreover have "c_phase (card_of old) \<in> {Some Claimed, Some Blocked}"
    using True by (auto simp: card_of_def)
  ultimately show ?thesis
    using True \<open>p \<in> {Claimed, Awaiting}\<close> by (simp only: life_step.takeover)
next
  case notake: False
  show ?thesis
  proof (cases "py_eq (it_state old) (it_state it) \<and> py_eq (it_owner old) (it_owner it)")
    case True
    with notake have "card_of (fst (transition actor limit recov old it)) = card_of old"
      by (auto simp: transition_def Let_def card_of_def)
    then show ?thesis by (simp add: life_step.stay)
  next
    case False
    with notake have "transition actor limit recov old it = guarded_transition actor limit old it"
      by (simp only: transition_def Let_def if_False simp_thms if_not_P)
    then show ?thesis by (simp add: guarded_refines)
  qed
qed

text \<open>A change that is refused leaves the item as it was and is reported.\<close>

lemma self_verification_reverted:
  assumes "it_state old = st_awaiting" and "it_owner old = JStr actor" and "it_state it = st_done"
  shows "transition actor limit recov old it =
    (old, [py_str (it_id it) @ '': '' @ actor @ '' owns this item and cannot verify its own work''])"
  using assms by (simp add: transition_def guarded_transition_def Let_def)


section \<open>The loop over the proposed items\<close>

lemma index_items_fold:
  assumes "(k, old) \<in> set (fold (\<lambda>it d. if truthy (it_id it)
      then pd_set (it_id it) (norm_item it) d else d) xs d)"
  shows "(k, old) \<in> set d
    \<or> (\<exists>p \<in> set xs. old = norm_item p \<and> truthy (it_id p) \<and> py_eq k (it_id p))"
  using assms
proof (induction xs arbitrary: d)
  case (Cons x xs)
  from Cons.IH [OF Cons.prems [simplified fold_Cons comp_def]]
  show ?case by (auto split: if_splits dest!: pd_set_in)
qed simp

lemma index_items_sound:
  assumes "index_items prev = Inr d" and "(k, old) \<in> set d"
  obtains p where "p \<in> set prev" "old = norm_item p" "truthy (it_id p)" "py_eq k (it_id p)"
  using assms index_items_fold [of k old prev "[]"]
  by (auto simp: index_items_def split: if_splits)

lemma index_items_fold_mem:
  "mem_py x (map fst (fold (\<lambda>it d. if truthy (it_id it)
      then pd_set (it_id it) (norm_item it) d else d) xs d))
   \<longleftrightarrow> mem_py x (map fst d) \<or> (\<exists>p \<in> set xs. truthy (it_id p) \<and> py_eq (it_id p) x)"
  by (induction xs arbitrary: d) (auto simp: pd_set_mem)

lemma index_items_complete:
  assumes "index_items prev = Inr d"
  shows "mem_py x (map fst d) \<longleftrightarrow> (\<exists>p \<in> set prev. truthy (it_id p) \<and> py_eq (it_id p) x)"
  using assms index_items_fold_mem [of x prev "[]"] by (auto simp: index_items_def split: if_splits)

lemma loop_ConsE [case_names Skip Take]:
  assumes "reconcile_loop actor limit allow recov by_id (raw # rest) = Inr (seen, out, viol)"
  obtains it where "norm raw = Inr it" "it_id it = JNull"
      "reconcile_loop actor limit allow recov by_id rest = Inr (seen, out, viol)"
  | it seen' out' viol' where "norm raw = Inr it" "it_id it \<noteq> JNull" "hashable (it_id it)"
      "reconcile_loop actor limit allow recov by_id rest = Inr (seen', out', viol')"
      "seen = it_id it # seen'"
      "out = (case fst (decide actor limit allow recov by_id it) of
                None \<Rightarrow> out' | Some x \<Rightarrow> x # out')"
      "viol = snd (decide actor limit allow recov by_id it) @ viol'"
proof -
  from assms obtain it where n: "norm raw = Inr it" by (auto simp: bindE_returns)
  show thesis
  proof (cases "it_id it = JNull")
    case True
    with assms n that(1) show thesis by simp
  next
    case False
    obtain kept vs where d: "decide actor limit allow recov by_id it = (kept, vs)" by fastforce
    from assms n False have h: "hashable (it_id it)" by (simp split: if_splits)
    from assms n False h obtain s o' v where
      "reconcile_loop actor limit allow recov by_id rest = Inr (s, o', v)"
      "seen = it_id it # s" "out = (case kept of None \<Rightarrow> o' | Some x \<Rightarrow> x # o')" "viol = vs @ v"
      by (auto simp: bindE_returns d)
    with that(2) [OF n False h] d show thesis by simp
  qed
qed

lemma loop_out:
  assumes "reconcile_loop actor limit allow recov by_id proposed = Inr (seen, out, viol)"
    and "x \<in> set out"
  shows "\<exists>it. it_id it \<noteq> JNull \<and> hashable (it_id it) \<and> it_id it \<in> set seen
    \<and> fst (decide actor limit allow recov by_id it) = Some x"
  using assms
proof (induction proposed arbitrary: seen out viol)
  case (Cons raw rest)
  from Cons.prems(1) show ?case
  proof (cases rule: loop_ConsE)
    case (Skip it)
    with Cons show ?thesis by blast
  next
    case (Take it seen' out' viol')
    with Cons.prems(2) have "fst (decide actor limit allow recov by_id it) = Some x \<or> x \<in> set out'"
      by (auto split: option.splits)
    with Cons.IH [OF Take(4)] Take show ?thesis by auto
  qed
qed simp

lemma loop_seen:
  assumes "reconcile_loop actor limit allow recov by_id proposed = Inr (seen, out, viol)"
    and "i \<in> set seen"
  shows "\<exists>it. it_id it = i \<and> i \<noteq> JNull \<and> hashable i
    \<and> set (snd (decide actor limit allow recov by_id it)) \<subseteq> set viol
    \<and> (\<forall>x. fst (decide actor limit allow recov by_id it) = Some x \<longrightarrow> x \<in> set out)"
  using assms
proof (induction proposed arbitrary: seen out viol)
  case (Cons raw rest)
  from Cons.prems(1) show ?case
  proof (cases rule: loop_ConsE)
    case (Skip it)
    with Cons show ?thesis by blast
  next
    case (Take it seen' out' viol')
    then have sub: "set out' \<subseteq> set out" "set viol' \<subseteq> set viol"
      by (auto split: option.splits)
    show ?thesis
    proof (cases "i \<in> set seen'")
      case True
      from Cons.IH [OF Take(4) this] sub show ?thesis by blast
    next
      case False
      with Cons.prems(2) Take have "i = it_id it" by simp
      with Take show ?thesis by (intro exI [of _ it]) (auto split: option.splits)
    qed
  qed
qed simp


section \<open>What a reconciled checklist holds\<close>

text \<open>Every kept item is an old one after a legal step, or a new one during negotiation.\<close>

lemma reconcile_out_cases [consumes 2, case_names Old New]:
  assumes "reconcile prev proposed actor limit allow recov = Inr (out, viol)" and "x \<in> set out"
  obtains old where "old \<in> set prev" "truthy (it_id old)" "py_eq (it_id x) (it_id old)"
      "it_id x = it_id old"
      "life_step actor (\<exists>s \<in> set recov. it_id x = JStr s) limit (card_of old) (card_of x)"
  | "allow" "it_id x \<noteq> JNull" "hashable (it_id x)" "it_state x \<in> {st_open, st_claimed}"
      "\<not> (\<exists>p \<in> set prev. truthy (it_id p) \<and> py_eq (it_id p) (it_id x))"
proof -
  from assms(1) obtain by_id seen out' viol' where
      idx: "index_items prev = Inr by_id"
      and lp: "reconcile_loop actor limit allow recov by_id proposed = Inr (seen, out', viol')"
      and out: "out = out' @ map snd (filter (\<lambda>(iid, old). \<not> mem_py iid seen) by_id)"
    by (auto simp: reconcile_def bindE_returns Let_def)
  have card: "card_of (norm_item p) = card_of p" for p by (simp add: card_of_def)
  show thesis
  proof (cases "x \<in> set out'")
    case True
    from loop_out [OF lp this] obtain it where it: "it_id it \<noteq> JNull" "hashable (it_id it)"
        "fst (decide actor limit allow recov by_id it) = Some x" by blast
    show thesis
    proof (cases "pd_get (it_id it) by_id")
      case None
      with it have "admit allow it = (Some x, snd (admit allow it))"
        by (simp add: decide_def prod_eq_iff)
      then have "allow" "it_id x = it_id it" "it_state x \<in> {st_open, st_claimed}"
        by (auto simp: admit_def split: if_splits)
      moreover have "\<not> mem_py (it_id it) (map fst by_id)"
        using None by (metis not_None_eq option.distinct(1) pd_get_mem)
      ultimately show thesis
        using that(2) it index_items_complete [OF idx] by metis
    next
      case (Some old)
      then obtain k where k: "(k, old) \<in> set by_id" "py_eq k (it_id it)" by (blast dest: pd_get_in)
      from index_items_sound [OF idx k(1)] obtain p where
        p: "p \<in> set prev" "old = norm_item p" "truthy (it_id p)" "py_eq k (it_id p)" .
      from it(3) Some have x: "x = fst (transition actor limit recov old it)"
        by (simp add: decide_def)
      have "py_eq (it_id it) (it_id p)" using k(2) p(4) by (simp add: py_eq_def)
      then have "in_recovery (it_id it) recov \<longleftrightarrow> (\<exists>s \<in> set recov. it_id p = JStr s)"
        by (cases "it_id it"; cases "it_id p") (auto simp: in_recovery_def)
      with transition_refines [of actor it recov limit old] x p(2)
      have "life_step actor (\<exists>s \<in> set recov. it_id p = JStr s) limit (card_of p) (card_of x)"
        by (simp add: card)
      moreover have "it_id x = it_id p" using x p(2) by simp
      ultimately show thesis using that(1) p by simp
    qed
  next
    case False
    with out assms(2) obtain k where "(k, x) \<in> set by_id" by auto
    from index_items_sound [OF idx this] obtain p where
      "p \<in> set prev" "x = norm_item p" "truthy (it_id p)" .
    with that(1) show thesis by (simp add: card life_step.stay)
  qed
qed


section \<open>The invariant of an authoritative checklist\<close>

definition independent :: "json \<Rightarrow> json \<Rightarrow> bool" where
  "independent owner verifier =
     (truthy owner \<and> (case verifier of JStr v \<Rightarrow> v \<noteq> [] \<and> owner \<noteq> JStr v | _ \<Rightarrow> False))"

definition card_ok :: "card \<Rightarrow> bool" where
  "card_ok c \<longleftrightarrow> c_phase c \<noteq> None
     \<and> (c_phase c \<in> {Some Awaiting, Some Done} \<longrightarrow> truthy (c_owner c))
     \<and> (c_phase c = Some Done \<longrightarrow> independent (c_owner c) (c_verifier c))"

definition item_ok :: "item \<Rightarrow> bool" where
  "item_ok it \<longleftrightarrow> it_id it \<noteq> JNull \<and> hashable (it_id it) \<and> card_ok (card_of it)"

definition checklist_ok :: "item list \<Rightarrow> bool" where
  "checklist_ok items = list_all item_ok items"

lemma life_step_ok:
  assumes "life_step actor granted limit c c'" and "card_ok c" and "actor \<noteq> []"
  shows "card_ok c'"
  using assms by (auto elim!: life_stepE simp: card_ok_def independent_def)

lemma item_ok_done:
  assumes "item_ok it" and "it_state it = st_done"
  shows "independent (it_owner it) (it_verified_by it)"
  using assms by (simp add: item_ok_def card_ok_def card_of_def)

lemma new_item_ok:
  "it_id x \<noteq> JNull \<Longrightarrow> hashable (it_id x) \<Longrightarrow> it_state x \<in> {st_open, st_claimed} \<Longrightarrow> item_ok x"
  by (auto simp: item_ok_def card_ok_def card_of_def)

text \<open>
  Whatever a model proposes, a turn that is accepted leaves every item in a known state,
  and every finished item with a verifier who is not its owner.
\<close>

theorem reconcile_checklist_ok:
  assumes "reconcile prev proposed actor limit allow recov = Inr (out, viol)"
    and "checklist_ok prev" and "actor \<noteq> []"
  shows "checklist_ok out"
  unfolding checklist_ok_def list_all_iff
proof
  fix x assume "x \<in> set out"
  with assms(1) show "item_ok x"
  proof (cases rule: reconcile_out_cases)
    case (Old old)
    with assms(2) have "item_ok old" by (simp add: checklist_ok_def list_all_iff)
    with Old life_step_ok [OF Old(5) _ assms(3)] show ?thesis by (simp add: item_ok_def)
  next
    case New
    then show ?thesis by (simp add: new_item_ok)
  qed
qed

theorem reconcile_no_self_approval:
  assumes "reconcile prev proposed actor limit allow recov = Inr (out, viol)"
    and "x \<in> set out" and "it_state x = st_done"
  shows "\<exists>old \<in> set prev. it_id old = it_id x \<and> it_owner x = it_owner old
    \<and> (it_state old = st_done \<and> it_verified_by x = it_verified_by old
       \<or> it_state old = st_awaiting \<and> it_owner old \<noteq> JStr actor \<and> it_verified_by x = JStr actor)"
  using assms(1,2)
proof (cases rule: reconcile_out_cases)
  case (Old old)
  have "c_phase (card_of x) = Some Done" using assms(3) by (simp add: card_of_def)
  from life_step_to_done [OF Old(5) this] Old show ?thesis
    by (auto simp: card_of_def phase_of_iff intro!: bexI [of _ old])
next
  case New
  with assms(3) show ?thesis by simp
qed

theorem reconcile_only_grows:
  assumes "reconcile prev proposed actor limit allow recov = Inr (out, viol)"
    and "p \<in> set prev" and "truthy (it_id p)"
  shows "\<exists>x \<in> set out. py_eq (it_id x) (it_id p)"
proof -
  from assms(1) obtain by_id seen out' viol' where
      idx: "index_items prev = Inr by_id"
      and lp: "reconcile_loop actor limit allow recov by_id proposed = Inr (seen, out', viol')"
      and out: "out = out' @ map snd (filter (\<lambda>(iid, old). \<not> mem_py iid seen) by_id)"
    by (auto simp: reconcile_def bindE_returns Let_def)
  from assms(2,3) have "mem_py (it_id p) (map fst by_id)"
    by (auto simp: index_items_complete [OF idx])
  then obtain old where get: "pd_get (it_id p) by_id = Some old" by (metis pd_get_mem)
  then obtain k where k: "(k, old) \<in> set by_id" "py_eq k (it_id p)" by (blast dest: pd_get_in)
  from index_items_sound [OF idx k(1)] k(2) have id_old: "py_eq (it_id old) (it_id p)"
    by (metis norm_item_fields(1) py_eq_def)
  show ?thesis
  proof (cases "mem_py k seen")
    case False
    with k(1) out have "old \<in> set out" by force
    with id_old show ?thesis by blast
  next
    case True
    then obtain i where "i \<in> set seen" and ik: "py_eq i k" by (auto simp: mem_py_def)
    from loop_seen [OF lp this(1)] obtain it where it: "it_id it = i"
      "\<forall>x. fst (decide actor limit allow recov by_id it) = Some x \<longrightarrow> x \<in> set out'" by blast
    have "mem_py i (map fst by_id)" using ik k(1) by (force simp: mem_py_def py_eq_def)
    then obtain old' where get': "pd_get i by_id = Some old'" by (metis pd_get_mem)
    then obtain k' where k': "(k', old') \<in> set by_id" "py_eq k' i" by (blast dest: pd_get_in)
    from index_items_sound [OF idx k'(1)] k'(2) have "py_eq (it_id old') i"
      by (metis norm_item_fields(1) py_eq_def)
    moreover have "fst (transition actor limit recov old' it) \<in> set out"
      using it get' out by (simp add: decide_def)
    ultimately show ?thesis
      using ik k(2) by (intro bexI) (auto simp: py_eq_def)
  qed
qed

theorem reconcile_scope_closed:
  assumes "reconcile prev proposed actor limit False recov = Inr (out, viol)" and "x \<in> set out"
  shows "\<exists>p \<in> set prev. it_id p = it_id x"
  using assms by (cases rule: reconcile_out_cases) auto

text \<open>The decision on an item that awaits verification is exactly the independence test.\<close>

theorem verification_accepted_iff:
  assumes "it_state old = st_awaiting" and "it_state it = st_done"
  shows "it_state (fst (transition actor limit recov old it)) = st_done
    \<longleftrightarrow> it_owner old \<noteq> JStr actor"
  using assms by (simp add: transition_def guarded_transition_def Let_def)

section \<open>Envelopes the code does not survive, and items it forgets\<close>

lemma norm_not_object: "(\<forall>kvs. raw \<noteq> JObj kvs) \<Longrightarrow> norm raw = Inl AttributeError"
  by (cases raw) (auto simp: norm_def)

lemma loop_raises:
  assumes "raw \<in> set proposed" and "norm raw = Inl e"
  shows "\<exists>e'. reconcile_loop actor limit allow recov by_id proposed = Inl e'"
  using assms
proof (induction proposed)
  case (Cons x rest)
  show ?case
  proof (cases "norm x")
    case (Inr it)
    with Cons.prems have "raw \<in> set rest" by auto
    with Cons.IH Cons.prems(2) show ?thesis using Inr by auto
  qed simp
qed simp

theorem reconcile_raises_on_non_object:
  assumes "raw \<in> set proposed" and "\<forall>kvs. raw \<noteq> JObj kvs"
  shows "\<exists>e. reconcile prev proposed actor limit allow recov = Inl e"
proof (cases "index_items prev")
  case (Inr by_id)
  from loop_raises [OF assms(1) norm_not_object [OF assms(2)]] obtain e where
    "reconcile_loop actor limit allow recov by_id proposed = Inl e" by blast
  with Inr show ?thesis by (simp add: reconcile_def)
qed (simp add: reconcile_def)

text \<open>
  Only items with a truthy identifier are indexed, so one with the empty string for an
  identifier can be admitted and then vanishes, unreported, from the next checklist.
\<close>

theorem falsy_id_forgotten:
  assumes "\<not> truthy (it_id p)"
  shows "reconcile [p] [] actor limit allow recov = Inr ([], [])"
  using assms by (simp add: reconcile_def index_items_def)

section \<open>The progress fingerprint\<close>

lemma sort_key_map: "sort_key k (map g xs) = map g (sort_key (\<lambda>x. k (g x)) xs)"
proof -
  have ins: "insort_key k (g x) (map g ys) = map g (insort_key (\<lambda>x. k (g x)) x ys)" for x ys
    by (induction ys) auto
  show ?thesis by (induction xs) (simp_all add: ins)
qed

text \<open>The progress fingerprint ignores the order of the items and any edit in place.\<close>

theorem digest_order:
  assumes "mset xs = mset ys" and "inj_on (\<lambda>it. py_str (it_id it)) (set xs)"
  shows "digest xs = digest ys"
proof -
  let ?k = "\<lambda>it. py_str (it_id it)"
  have "sort_key ?k xs = sort_key ?k ys"
    using assms by (intro sort_key_inj_key_eq) simp_all
  then show ?thesis by (simp add: digest_def)
qed

lemma digest_by_triples:
  "digest items =
     join ''|'' (map (\<lambda>(i, s, o'). py_str i @ '':'' @ py_str s @ '':'' @ py_str o')
       (sort_key (\<lambda>(i, s, o'). py_str i) (map (\<lambda>it. (it_id it, it_state it, it_owner it)) items)))"
  by (simp add: digest_def sort_key_map comp_def digest_line_def [abs_def])

lemma mset_map_reorder:
  assumes "mset (map f xs) = mset ys"
  shows "\<exists>zs. mset zs = mset xs \<and> map f zs = ys"
  using assms
proof (induction ys arbitrary: xs)
  case (Cons y ys)
  have "set (map f xs) = set (y # ys)" using Cons.prems by (rule mset_eq_setD)
  then have "y \<in> set (map f xs)" by (metis list.set_intros(1))
  then obtain as x bs where xs: "xs = as @ x # bs" "f x = y" by (auto dest: split_list)
  with Cons.prems have "mset (map f (as @ bs)) = mset ys" by simp
  from Cons.IH [OF this] obtain zs where "mset zs = mset (as @ bs)" "map f zs = ys" by blast
  with xs have "mset (x # zs) = mset xs \<and> map f (x # zs) = y # ys" by simp
  then show ?case by (rule exI)
qed simp

theorem digest_edit_in_place:
  assumes "map (\<lambda>it. (it_id it, it_state it, it_owner it)) xs
    = map (\<lambda>it. (it_id it, it_state it, it_owner it)) ys"
  shows "digest xs = digest ys"
  by (simp only: digest_by_triples assms)

section \<open>The envelope that is chosen\<close>

lemma first_envelope_sound:
  "first_envelope loads bs = Some e \<Longrightarrow> \<exists>b \<in> set bs. loads b = Some (JObj e)
     \<and> ''checklist'' \<in> fst ` set e"
  by (induction bs) (auto simp: as_envelope_def split: option.splits json.splits if_splits)

theorem extract_envelope_sound:
  assumes "extract_envelope loads text = Some e"
  shows "''checklist'' \<in> fst ` set e
    \<and> (\<exists>b \<in> insert (strip text) (set (fences text)). loads b = Some (JObj e))"
  using assms first_envelope_sound [of loads "rev (fences text)" e]
  by (auto simp: extract_envelope_def as_envelope_def Let_def
      split: option.splits json.splits if_splits)

theorem extract_prefers_last_fence:
  assumes "fences text = bs @ [b]" and "loads b = Some (JObj e)" and "''checklist'' \<in> fst ` set e"
  shows "extract_envelope loads text = Some e"
  using assms by (simp add: extract_envelope_def as_envelope_def)

end
