(* ===== verification/Report.thy ===== *)
theory Report
  imports Envelope_Correct
begin

text \<open>
  \<^verbatim>\<open>src/report.py\<close>: the classification of the reason a run ended, the deterministic summary
  that is the fallback of the report, and the prompt for the report writer. A dash or any
  other character outside ASCII is the sequence of its UTF-8 bytes.
\<close>

section \<open>Why a run ended\<close>

definition HALT_MEANING :: "(string \<times> string \<times> string) list" where
  "HALT_MEANING =
     [(''complete'', ''COMPLETE'',
         ''Every checklist item was verified by the agent that did not do the work.''),
      (''turn_budget'', ''HALT'',
         ''The run hit its turn budget before finishing. This is not a completion.''),
      (''no_progress'', ''HALT'',
         ''Several turns passed with no item changing state, so the run was not converging.''),
      (''disputed'', ''HALT'',
         ''Independent agents disagreed three times on the same item and escalated to you.''),
      (''blocked'', ''HALT'', ''An item needs something only you can provide.''),
      (''agent_error'', ''HALT'',
         ''Both bounded model attempts failed before a safe continuation was accepted.''),
      (''stopped_by_human'', ''HALT'', ''You stopped this run.'')]"

definition classify :: "string \<Rightarrow> string \<times> string" where
  "classify h =
     (case find (\<lambda>m. starts_with h (fst m)) HALT_MEANING of
        None \<Rightarrow> (''HALT'', h) | Some m \<Rightarrow> snd m)"

text \<open>A halt is never reported as a completion.\<close>

lemma classify_complete: "fst (classify h) = ''COMPLETE'' \<longleftrightarrow> starts_with h ''complete''"
  by (simp add: classify_def HALT_MEANING_def)

lemma classify_two: "fst (classify h) = ''COMPLETE'' \<or> fst (classify h) = ''HALT''"
  by (simp add: classify_def HALT_MEANING_def)


section \<open>The mechanical summary\<close>

definition em_dash :: string where "em_dash = [CHR 0xE2, CHR 0x80, CHR 0x94]"

definition proof_line :: "item \<Rightarrow> string res" where
  "proof_line i =
     bindE (py_take 90 (it_description i)) (\<lambda>d.
     bindE (py_take 160 (py_or (it_evidence i) (JStr ''none recorded''))) (\<lambda>e.
       Inr (''- '' @ py_str (it_id i) @ '' '' @ em_dash @ '' '' @ py_str d @ nl
            @ ''  Verified by '' @ py_str (py_or (it_verified_by i) (JStr ''not recorded''))
            @ ''; evidence: '' @ py_str e)))"

definition stuck_line :: "item \<Rightarrow> string res" where
  "stuck_line i =
     bindE (py_take 90 (it_description i)) (\<lambda>d.
     bindE (py_take 200 (py_or (it_evidence i) (JStr []))) (\<lambda>e.
       Inr (''- '' @ py_str (it_id i) @ '' '' @ em_dash @ '' '' @ py_str d @ '' (''
            @ py_str (it_state i) @ '')'' @ nl @ ''  '' @ py_str e)))"

definition open_line :: "item \<Rightarrow> string res" where
  "open_line i =
     bindE (py_take 90 (it_description i)) (\<lambda>d.
       Inr (''- '' @ py_str (it_id i) @ '' '' @ em_dash @ '' '' @ py_str d @ '' (''
            @ py_str (it_state i) @ '')''))"

definition finished :: "item list \<Rightarrow> item list" where
  "finished items = filter (\<lambda>i. it_state i = st_done) items"

definition unfinished :: "item list \<Rightarrow> item list" where
  "unfinished items = filter (\<lambda>i. it_state i \<notin> {st_done, st_blocked, st_disputed}) items"

definition headline :: "string \<Rightarrow> item list \<Rightarrow> string" where
  "headline status items =
     (if status = ''COMPLETE'' then ''Completed '' else ''Action needed '') @ em_dash @ '' ''
     @ show_nat (length (finished items)) @ '' of '' @ show_nat (length items)
     @ '' outcomes independently verified.''"

definition summary_lines :: "item list \<Rightarrow> string \<Rightarrow> string \<Rightarrow> string list res" where
  "summary_lines items task halt =
     (let status = fst (classify halt); meaning = snd (classify halt) in
      bindE (mapE proof_line (finished items)) (\<lambda>proof_part.
      bindE (mapE stuck_line (blocking items)) (\<lambda>stuck_part.
      bindE (mapE open_line (unfinished items)) (\<lambda>open_part.
        Inr ([headline status items, [], ''Outcome'', meaning]
          @ (if task \<noteq> [] then [[], ''Your request'', take 600 task] else [])
          @ [[], ''Independent proof'']
          @ (if proof_part \<noteq> [] then proof_part
             else [''- No item reached independent verification.''])
          @ (if blocking items \<noteq> [] then [[], ''What Rally needs from you''] @ stuck_part else [])
          @ (if unfinished items \<noteq> [] then [[], ''Still open''] @ open_part else [])
          @ [[], ''Next step'']
          @ (if status = ''COMPLETE''
             then [''No action is required. Reply in this thread if you want Rally ''
                   @ ''to extend or revise the result.'']
             else [''Reply in this thread with the missing decision, access, or ''
                   @ ''material. Rally will resume this same run without treating ''
                   @ ''your reply as approval of its own work.'']))))))"

definition mechanical_summary :: "item list \<Rightarrow> string \<Rightarrow> string \<Rightarrow> string res" where
  "mechanical_summary items task halt =
     bindE (summary_lines items task halt) (\<lambda>lines. Inr (join nl lines))"


section \<open>The prompt of the report writer\<close>

definition latest_evidence :: "json \<Rightarrow> string" where
  "latest_evidence v =
     (let text = strip (py_str (py_or v (JStr ''none''))) in
      if length text \<le> 600 then text else ''[latest evidence tail] '' @ take_last 600 text)"

definition report_instructions :: string where
  "report_instructions = join nl
    [''Write it as an executive brief:'',
     ''- Lead with the outcome in one sentence. If this is a HALT, say so plainly in'',
     ''  that sentence. Never describe a halt as a completion.'',
     ''- What was built, and where it is.'',
     ''- What was verified, and by what evidence. Name which agent verified what,'',
     ''  since the cross-check is the point of the system.'',
     ''- What to look at first.'',
     ''- What is still open, and what you would do next.'',
     ''- Use the headings Outcome, What changed, Independent proof, and Next step when'',
     ''  they apply. Make the next action understandable to a non-technical operator.'',
     ''- Translate implementation detail into business meaning. Do not expose local'',
     ''  paths, raw identifiers, JSON, model/tool traces, prompt text, stack traces, or'',
     ''  internal orchestration jargon in the executive body. The delivery layer adds'',
     ''  a separate audit receipt.'',
     ''- Evidence may contain re-checks after repairs. Treat the evidence shown here'',
     ''  as current and never repeat an older measurement or rejected claim.'',
     ''- Use decisive language, short sections, and only material detail. Avoid'',
     ''  greetings, sign-offs, internal process commentary, and tool-by-tool narration.'',
     [],
     ''Plain prose and short headings. No transcript, no tool traces, no JSON, no'',
     ''checklist dump, no progress narration. Under 400 words. Output only the report'',
     ''itself, with no preamble.'']"

definition prompt_line :: "item \<Rightarrow> string res" where
  "prompt_line i =
     bindE (py_take 100 (it_description i)) (\<lambda>d.
       Inr (''  '' @ py_str (it_id i) @ '' ['' @ py_str (it_state i) @ ''] '' @ py_str d
            @ '' | owner='' @ py_str (it_owner i) @ '' verified_by='' @ py_str (it_verified_by i)
            @ '' | evidence: '' @ latest_evidence (it_evidence i)))"

definition build_report_prompt :: "item list \<Rightarrow> string \<Rightarrow> string \<Rightarrow> string res" where
  "build_report_prompt items task halt =
     bindE (mapE prompt_line items) (\<lambda>rows.
       Inr (join nl
         [''The Rally run is over. Write the single message the human receives.'',
          ''This is the only thing they read, so it carries the whole outcome.'', [],
          ''OUTCOME: '' @ fst (classify halt), ''WHY: '' @ snd (classify halt), [],
          ''WHAT THEY ASKED FOR:'', task, [],
          ''THE FINAL CHECKLIST, as the runner recorded it (authoritative):'',
          join nl rows, [], report_instructions]))"

section \<open>What the summary says\<close>

text \<open>The values that Python can slice: strings and lists.\<close>

definition sliceable :: "json \<Rightarrow> bool" where
  "sliceable v = (case v of JStr s \<Rightarrow> True | JArr xs \<Rightarrow> True | _ \<Rightarrow> False)"

lemma py_take_total: "(\<exists>w. py_take n v = Inr w) \<longleftrightarrow> sliceable v"
  by (cases v) (auto simp: sliceable_def)

definition reportable :: "item \<Rightarrow> bool" where
  "reportable i \<longleftrightarrow> sliceable (it_description i)
     \<and> (it_state i \<in> {st_done, st_blocked, st_disputed} \<longrightarrow> sliceable (py_or (it_evidence i) (JStr [])))"

lemma sliceable_or: "s \<noteq> [] \<Longrightarrow> sliceable (py_or v (JStr s)) \<longleftrightarrow> sliceable (py_or v (JStr []))"
  by (simp add: py_or_def sliceable_def)

lemma mapE_defined: "(\<exists>ys. mapE f xs = Inr ys) \<longleftrightarrow> (\<forall>x \<in> set xs. \<exists>y. f x = Inr y)"
  by (induction xs) (auto simp: returns)

lemma bindE_defined: "(\<exists>y. bindE m f = Inr y) \<longleftrightarrow> (\<exists>x. m = Inr x \<and> (\<exists>y. f x = Inr y))"
  by (auto simp: returns)

lemma lines_defined:
  "(\<exists>l. proof_line i = Inr l) \<longleftrightarrow> sliceable (it_description i) \<and> sliceable (py_or (it_evidence i) (JStr []))"
  "(\<exists>l. stuck_line i = Inr l) \<longleftrightarrow> sliceable (it_description i) \<and> sliceable (py_or (it_evidence i) (JStr []))"
  "(\<exists>l. open_line i = Inr l) \<longleftrightarrow> sliceable (it_description i)"
  "(\<exists>l. prompt_line i = Inr l) \<longleftrightarrow> sliceable (it_description i)"
  by (simp_all add: proof_line_def stuck_line_def open_line_def prompt_line_def
      bindE_defined py_take_total sliceable_or)

lemma mechanical_summary_defined:
  "(\<exists>t. mechanical_summary items task halt = Inr t) \<longleftrightarrow> (\<forall>i \<in> set items. reportable i)"
proof -
  have "(\<exists>t. mechanical_summary items task halt = Inr t) \<longleftrightarrow>
      (\<exists>ls. mapE proof_line (finished items) = Inr ls)
      \<and> (\<exists>ls. mapE stuck_line (blocking items) = Inr ls)
      \<and> (\<exists>ls. mapE open_line (unfinished items) = Inr ls)"
    by (simp add: mechanical_summary_def summary_lines_def Let_def bindE_defined)
  also have "\<dots> \<longleftrightarrow> (\<forall>i \<in> set items. reportable i)"
    unfolding mapE_defined lines_defined
    by (auto simp: finished_def blocking_def unfinished_def reportable_def)
  finally show ?thesis .
qed

text \<open>
  The first line of the summary tells completion from a halt, and counts the items that
  were verified.
\<close>

lemma summary_headline:
  assumes "summary_lines items task halt = Inr lines"
  shows "hd lines = headline (fst (classify halt)) items"
  using assms by (auto simp: summary_lines_def Let_def returns)

lemma headline_honest:
  "starts_with (headline (fst (classify h)) items) ''Completed'' \<longleftrightarrow> starts_with h ''complete''"
  using classify_complete [of h] by (auto simp: headline_def starts_with_def)

text \<open>The evidence the writer sees is the end of the evidence, never a prefix of it.\<close>

lemma take_last_suffix: "\<exists>p. xs = p @ take_last n xs"
  by (metis append_take_drop_id take_last_def)

lemma latest_evidence_tail:
  "\<exists>p tail. strip (py_str (py_or v (JStr ''none''))) = p @ tail \<and> length tail \<le> 600
     \<and> (latest_evidence v = tail \<and> p = [] \<or> latest_evidence v = ''[latest evidence tail] '' @ tail)"
proof (cases "length (strip (py_str (py_or v (JStr ''none'')))) \<le> 600")
  case True
  then show ?thesis by (auto simp: latest_evidence_def)
next
  case False
  moreover obtain p where "strip (py_str (py_or v (JStr ''none''))) = p @ take_last 600
      (strip (py_str (py_or v (JStr ''none''))))"
    using take_last_suffix by blast
  ultimately show ?thesis
    by (intro exI [of _ p] exI [of _ "take_last 600 (strip (py_str (py_or v (JStr ''none''))))"])
      (auto simp: latest_evidence_def)
qed
end
