(* ===== verification/Fleet.thy ===== *)
theory Fleet
  imports Rally_Prelude
begin

text \<open>
  \<^verbatim>\<open>src/agents.py\<close>: the fleet of workers. \<open>assert_pins\<close> refuses a fleet that cannot
  review itself independently; the \<open>run_*\<close> functions build the command line of each
  provider and run it. The operating system is a parameter: \<open>exec\<close> runs a command and says
  how it ended.
\<close>

section \<open>Configuration\<close>

text \<open>
  One entry of the \<open>agents\<close> object of the configuration. An absent key is \<open>None\<close>, or the
  empty string or list where the code treats the two alike.
\<close>

record agent_cfg =
  a_family :: string
  a_model :: "string option"
  a_exec_flags :: "string list"
  a_adapter :: string
  a_bin :: "string option"
  a_effort :: "string option"
  a_mcp_config_path :: string
  a_connector_env :: "(string \<times> string) list"
  a_profile_home :: string
  a_use_schema :: bool

type_synonym fleet = "(string \<times> agent_cfg) list"

definition opt_str :: "string option \<Rightarrow> string" where
  "opt_str m = (case m of None \<Rightarrow> ''None'' | Some s \<Rightarrow> s)"

definition opt_repr :: "string option \<Rightarrow> string" where
  "opt_repr m = (case m of None \<Rightarrow> ''None'' | Some s \<Rightarrow> repr_str s)"


section \<open>The pins\<close>

fun check_families :: "(string \<times> string) list \<Rightarrow> fleet \<Rightarrow> unit res" where
  "check_families seen [] = Inr ()"
| "check_families seen ((name, a) # rest) =
     (if a_family a = [] then Inl (AgentError (''agent '' @ name @ '' has no declared family''))
      else (case map_of seen (a_family a) of
              Some other \<Rightarrow> Inl (AgentError (''same-family workers: '' @ name @ '' (''
                @ opt_str (a_model a) @ '') and '' @ other @ '' are both '' @ a_family a
                @ ''. Every configured Rally worker must declare a distinct family.''))
            | None \<Rightarrow> check_families ((a_family a, name) # seen) rest))"

definition check_symmetry :: "fleet \<Rightarrow> unit res" where
  "check_symmetry agents =
     (let able = map fst (filter (\<lambda>p. a_exec_flags (snd p) \<noteq> []) agents);
          unable = map fst (filter (\<lambda>p. a_exec_flags (snd p) = []) agents)
      in if able \<noteq> [] \<and> unable \<noteq> []
         then Inl (AgentError (''execution asymmetry: '' @ join '', '' able
                @ '' can run commands, '' @ join '', '' unable @ '' cannot. ''
                @ ''The agent that cannot execute can only read source, so its verification is a weaker ''
                @ ''claim than the one recorded. Give every worker exec_flags, or none.''))
         else Inr ())"

definition check_agy :: "fleet \<Rightarrow> unit res" where
  "check_agy agents =
     (case map_of agents ''agy'' of
        None \<Rightarrow> Inr ()
      | Some a \<Rightarrow>
          if starts_with (case a_model a of None \<Rightarrow> [] | Some m \<Rightarrow> m) ''gemini-'' then Inr ()
          else Inl (AgentError (''agy model '' @ opt_repr (a_model a) @ '' is not a gemini model. ''
                @ ''The Antigravity CLI also serves Claude models; pin it to gemini-* or the run is ''
                @ ''single-family.'')))"

definition assert_pins :: "fleet \<Rightarrow> unit res" where
  "assert_pins agents =
     (if length agents < 2 then Inl (AgentError ''Rally needs at least two configured workers'')
      else bindE (check_families [] agents) (\<lambda>_.
           bindE (check_symmetry agents) (\<lambda>_. check_agy agents)))"

lemma check_families_iff:
  "check_families seen agents = Inr () \<longleftrightarrow>
     distinct (map (\<lambda>p. a_family (snd p)) agents)
     \<and> (\<forall>p \<in> set agents. a_family (snd p) \<noteq> [] \<and> a_family (snd p) \<notin> fst ` set seen)"
proof (induction seen agents rule: check_families.induct)
  case (2 seen name a rest)
  show ?case
  proof (cases "a_family a = [] \<or> a_family a \<in> fst ` set seen")
    case True
    then show ?thesis by (auto split: option.splits simp: map_of_eq_None_iff)
  next
    case False
    then have "map_of seen (a_family a) = None" by (simp add: map_of_eq_None_iff)
    with False 2 show ?thesis by (simp add: image_iff) metis
  qed
qed simp

lemma check_symmetry_iff:
  "check_symmetry agents = Inr () \<longleftrightarrow>
     (\<forall>p \<in> set agents. a_exec_flags (snd p) \<noteq> [])
     \<or> (\<forall>p \<in> set agents. a_exec_flags (snd p) = [])"
  by (simp add: check_symmetry_def Let_def filter_empty_conv)

lemma check_agy_iff:
  "check_agy agents = Inr () \<longleftrightarrow>
     (\<forall>a. map_of agents ''agy'' = Some a \<longrightarrow> (\<exists>m. a_model a = Some m \<and> starts_with m ''gemini-''))"
  by (auto simp: check_agy_def starts_with_def split: option.splits if_splits)

text \<open>A fleet is accepted exactly when no worker can be reviewed by its own family.\<close>

theorem assert_pins_iff:
  "assert_pins agents = Inr () \<longleftrightarrow>
     2 \<le> length agents
     \<and> distinct (map (\<lambda>p. a_family (snd p)) agents)
     \<and> (\<forall>p \<in> set agents. a_family (snd p) \<noteq> [])
     \<and> ((\<forall>p \<in> set agents. a_exec_flags (snd p) \<noteq> [])
          \<or> (\<forall>p \<in> set agents. a_exec_flags (snd p) = []))
     \<and> (\<forall>a. map_of agents ''agy'' = Some a \<longrightarrow>
           (\<exists>m. a_model a = Some m \<and> starts_with m ''gemini-''))"
proof -
  have "assert_pins agents = Inr () \<longleftrightarrow> 2 \<le> length agents \<and> check_families [] agents = Inr ()
      \<and> check_symmetry agents = Inr () \<and> check_agy agents = Inr ()"
    by (auto simp: assert_pins_def returns)
  then show ?thesis
    unfolding check_families_iff check_symmetry_iff check_agy_iff by auto
qed

text \<open>Two names of an accepted fleet stand for two model families.\<close>

lemma assert_pins_families:
  assumes "assert_pins agents = Inr ()"
    and "map_of agents n = Some a" and "map_of agents m = Some b" and "n \<noteq> m"
  shows "a_family a \<noteq> a_family b"
proof
  assume eq: "a_family a = a_family b"
  from assms(1) have d: "distinct (map (\<lambda>p. a_family (snd p)) agents)"
    by (simp add: assert_pins_iff)
  have "(n, a) \<in> set agents" "(m, b) \<in> set agents" using assms(2,3) by (auto dest: map_of_SomeD)
  with d eq have "(n, a) = (m, b)"
    unfolding distinct_map inj_on_def by fastforce
  with assms(4) show False by simp
qed


section \<open>Running a provider\<close>

text \<open>How a command ended: within the limit with an exit code and its output, or not.\<close>

datatype run_end = TimedOut | Exited int string

type_synonym executor = "string list \<Rightarrow> string \<Rightarrow> int \<Rightarrow> (string \<times> string) list \<Rightarrow> run_end"

definition run_cmd ::
    "executor \<Rightarrow> (string \<times> string) list \<Rightarrow> string list \<Rightarrow> string \<Rightarrow> int
       \<Rightarrow> (string \<times> string) list \<Rightarrow> string res" where
  "run_cmd exec environ cmd workdir timeout extra_env =
     (let env = fold (\<lambda>(k, v) e. if v \<noteq> [] then AList.update k v e else e) extra_env environ
      in (case exec cmd workdir timeout env of
            TimedOut \<Rightarrow> Inl (AgentError (''turn exceeded '' @ show_int timeout @ ''s''))
          | Exited code out \<Rightarrow>
              if code \<noteq> 0
              then Inl (AgentError (''exit '' @ show_int code @ '': '' @ take_last 800 out))
              else Inr out))"

definition get_model :: "agent_cfg \<Rightarrow> string res" where
  "get_model cfg = (case a_model cfg of None \<Rightarrow> Inl KeyError | Some m \<Rightarrow> Inr m)"

definition effort_flags :: "agent_cfg \<Rightarrow> string list" where
  "effort_flags cfg =
     (case a_effort cfg of
        Some e \<Rightarrow> if e \<in> {''low'', ''medium'', ''high''} then [''--effort'', e] else []
      | None \<Rightarrow> [])"

definition agy_cmd :: "string \<Rightarrow> agent_cfg \<Rightarrow> int \<Rightarrow> string \<Rightarrow> string list res" where
  "agy_cmd prompt cfg timeout schema_path =
     bindE (get_model cfg) (\<lambda>model.
       Inr ([case a_bin cfg of None \<Rightarrow> ''agy'' | Some b \<Rightarrow> b, ''--model'', model]
            @ effort_flags cfg
            @ [''--print-timeout'', show_int (max 60 (timeout - 30)) @ ''s'']
            @ a_exec_flags cfg
            @ (if schema_path \<noteq> []
               then [''--output-format'', ''json'', ''--json-schema'', schema_path] else [])
            @ [''-p='' @ prompt]))"

definition claude_cmd :: "string \<Rightarrow> agent_cfg \<Rightarrow> string list res" where
  "claude_cmd prompt cfg =
     bindE (get_model cfg) (\<lambda>model.
       Inr ([case a_bin cfg of None \<Rightarrow> ''claude'' | Some b \<Rightarrow> b, ''-p'', ''--model'', model,
             ''--effort'', case a_effort cfg of None \<Rightarrow> ''high'' | Some e \<Rightarrow> e]
            @ a_exec_flags cfg
            @ (if a_mcp_config_path cfg \<noteq> []
               then [''--mcp-config'', a_mcp_config_path cfg, ''--strict-mcp-config''] else [])
            @ [prompt]))"

text \<open>
  \<open>json.dumps\<close> of a string, with \<open>ensure_ascii\<close>; and the server entry of the isolated MCP
  configuration file, whose content is a parameter.
\<close>

definition dumps_char :: "char \<Rightarrow> string" where
  "dumps_char c =
     (let n = of_char c :: nat in
      if n = 34 \<or> n = 92 then [CHR 0x5C, c]
      else if n = 10 then [CHR 0x5C, CHR ''n'']
      else if n = 13 then [CHR 0x5C, CHR ''r'']
      else if n = 9 then [CHR 0x5C, CHR ''t'']
      else if n = 8 then [CHR 0x5C, CHR ''b'']
      else if n = 12 then [CHR 0x5C, CHR ''f'']
      else if n < 32 \<or> 126 < n
        then [CHR 0x5C, CHR ''u'', CHR ''0'', CHR ''0'', hex_char (n div 16), hex_char (n mod 16)]
      else [c])"

definition dumps_str :: "string \<Rightarrow> string" where
  "dumps_str s = [CHR 34] @ concat (map dumps_char s) @ [CHR 34]"

record mcp_server =
  m_command :: string
  m_args :: "string list"
  m_env :: "(string \<times> string) list"

definition codex_mcp_override :: "mcp_server \<Rightarrow> string res" where
  "codex_mcp_override server =
     (if m_command server = []
      then Inl (AgentError ''Codex connector configuration has no gateway command'')
      else Inr (''mcp_servers.rally-connectors={ command = '' @ dumps_str (m_command server)
        @ '', args = ['' @ join '', '' (map dumps_str (m_args server))
        @ ''], env = { ''
        @ join '', '' (map (\<lambda>(k, v). k @ '' = '' @ dumps_str v) (sort_key fst (m_env server)))
        @ '' } }''))"

definition codex_cmd ::
    "(string \<Rightarrow> mcp_server) \<Rightarrow> string \<Rightarrow> string \<Rightarrow> agent_cfg \<Rightarrow> string \<Rightarrow> string
       \<Rightarrow> string list res" where
  "codex_cmd read_mcp prompt workdir cfg schema_path output_path =
     bindE (get_model cfg) (\<lambda>model.
     bindE (if a_mcp_config_path cfg = [] then Inr []
            else bindE (codex_mcp_override (read_mcp (a_mcp_config_path cfg)))
                   (\<lambda>ov. Inr [''-c'', ov])) (\<lambda>mcp.
       Inr ([case a_bin cfg of None \<Rightarrow> ''codex'' | Some b \<Rightarrow> b, ''exec'', ''--model'', model,
             ''--cd'', workdir, ''--ephemeral'', ''--ignore-user-config'',
             ''--skip-git-repo-check'', ''--color'', ''never'']
            @ a_exec_flags cfg @ mcp
            @ (if schema_path \<noteq> [] then [''--output-schema'', schema_path] else [])
            @ [''--output-last-message'', output_path, prompt])))"

definition grok_cmd :: "string \<Rightarrow> string \<Rightarrow> agent_cfg \<Rightarrow> string list res" where
  "grok_cmd prompt workdir cfg =
     (if strip (a_profile_home cfg) = [] \<or> \<not> starts_with (strip (a_profile_home cfg)) ''/''
      then Inl (AgentError ''Grok requires an absolute, dedicated profile_home'')
      else if a_mcp_config_path cfg \<noteq> []
      then Inl (AgentError ''Grok connector isolation is not enabled yet'')
      else bindE (get_model cfg) (\<lambda>model.
        Inr ([case a_bin cfg of None \<Rightarrow> ''grok'' | Some b \<Rightarrow> b, ''--no-auto-update'',
              ''--cwd'', workdir, ''--model'', model, ''--output-format'', ''plain'', ''--no-plan'',
              ''--no-subagents'', ''--no-memory'', ''--disable-web-search'']
             @ effort_flags cfg @ a_exec_flags cfg @ [''-p'', prompt])))"

text \<open>
  What the providers need from the machine: the process environment, the executor, the
  name of the temporary file Codex writes its last message to and what it holds after the
  command, and the reader of MCP configuration files.
\<close>

record machine =
  mc_exec :: executor
  mc_environ :: "(string \<times> string) list"
  mc_temp_path :: string
  mc_temp_text :: string
  mc_read_mcp :: "string \<Rightarrow> mcp_server"

definition run_agy :: "machine \<Rightarrow> string \<Rightarrow> string \<Rightarrow> agent_cfg \<Rightarrow> int \<Rightarrow> string \<Rightarrow> string res" where
  "run_agy m prompt workdir cfg timeout schema_path =
     bindE (agy_cmd prompt cfg timeout schema_path) (\<lambda>cmd.
       run_cmd (mc_exec m) (mc_environ m) cmd workdir timeout (a_connector_env cfg))"

definition run_claude :: "machine \<Rightarrow> string \<Rightarrow> string \<Rightarrow> agent_cfg \<Rightarrow> int \<Rightarrow> string res" where
  "run_claude m prompt workdir cfg timeout =
     (if a_adapter cfg = ''agy''
      then run_agy m prompt workdir (cfg\<lparr>a_effort := None\<rparr>) timeout []
      else bindE (claude_cmd prompt cfg) (\<lambda>cmd.
             run_cmd (mc_exec m) (mc_environ m) cmd workdir timeout (a_connector_env cfg)))"

definition run_codex :: "machine \<Rightarrow> string \<Rightarrow> string \<Rightarrow> agent_cfg \<Rightarrow> int \<Rightarrow> string \<Rightarrow> string res" where
  "run_codex m prompt workdir cfg timeout schema_path =
     bindE (codex_cmd (mc_read_mcp m) prompt workdir cfg schema_path (mc_temp_path m)) (\<lambda>cmd.
     bindE (run_cmd (mc_exec m) (mc_environ m) cmd workdir timeout (a_connector_env cfg))
       (\<lambda>combined. let final = strip (mc_temp_text m)
          in Inr (if final \<noteq> [] then final else combined)))"

definition run_grok :: "machine \<Rightarrow> string \<Rightarrow> string \<Rightarrow> agent_cfg \<Rightarrow> int \<Rightarrow> string res" where
  "run_grok m prompt workdir cfg timeout =
     bindE (grok_cmd prompt workdir cfg) (\<lambda>cmd.
       run_cmd (mc_exec m) (mc_environ m) cmd workdir timeout
         (AList.update ''GROK_HOME'' (strip (a_profile_home cfg)) (a_connector_env cfg)))"

definition run_agent ::
    "machine \<Rightarrow> string \<Rightarrow> string \<Rightarrow> string \<Rightarrow> agent_cfg \<Rightarrow> int \<Rightarrow> string \<Rightarrow> string res" where
  "run_agent m name prompt workdir cfg timeout schema_path =
     (let adapter = (if a_adapter cfg \<noteq> [] then a_adapter cfg else name) in
      if adapter = ''agy'' then run_agy m prompt workdir cfg timeout schema_path
      else if adapter = ''codex'' then run_codex m prompt workdir cfg timeout schema_path
      else if adapter = ''claude'' then run_claude m prompt workdir cfg timeout
      else if adapter = ''grok'' then run_grok m prompt workdir cfg timeout
      else Inl (AgentError (''unknown agent adapter '' @ repr_str adapter @ '' for '' @ name)))"

text \<open>
  The prompt is the last word of every command line, attached to its flag where the
  provider's parser would take a detached one for something else.
\<close>

lemma agy_prompt_last:
  "agy_cmd prompt cfg timeout schema_path = Inr cmd \<Longrightarrow> last cmd = ''-p='' @ prompt"
  by (auto simp: agy_cmd_def returns)

lemma claude_prompt_last: "claude_cmd prompt cfg = Inr cmd \<Longrightarrow> last cmd = prompt"
  by (auto simp: claude_cmd_def returns)

lemma codex_prompt_last:
  "codex_cmd read_mcp prompt workdir cfg schema_path out = Inr cmd \<Longrightarrow> last cmd = prompt"
  by (auto simp: codex_cmd_def returns)

lemma grok_prompt_last: "grok_cmd prompt workdir cfg = Inr cmd \<Longrightarrow> last cmd = prompt"
  by (auto simp: grok_cmd_def returns)

text \<open>Every Codex command ignores the user's own configuration.\<close>

lemma codex_isolated:
  "codex_cmd read_mcp prompt workdir cfg schema_path out = Inr cmd \<Longrightarrow>
     ''--ignore-user-config'' \<in> set cmd"
  by (auto simp: codex_cmd_def returns)

end
