(* ===== verification/Send_Ledger.thy ===== *)
theory Send_Ledger
  imports Rally_Prelude
begin

text \<open>
  The send ledger and the credential lookup of \<^verbatim>\<open>src/transport.py\<close>. Every outgoing mail
  reserves a place first; the ledger refuses when a ceiling is reached and when it cannot be
  read. The locale below states once what a rolling ceiling gives, and is interpreted for
  the hourly, the daily and the per-run ceiling.
\<close>

section \<open>The ledger\<close>

text \<open>Times are whole seconds.\<close>

record reservation =
  r_run :: string
  r_at :: int
  r_key :: "string option"

text \<open>The ledger file: absent, not readable as JSON, or a list of reservations.\<close>

datatype ledger_file = Absent | Unreadable | Sends "reservation list"

definition ledger_read :: "ledger_file \<Rightarrow> reservation list option" where
  "ledger_read f = (case f of Absent \<Rightarrow> Some [] | Unreadable \<Rightarrow> None | Sends xs \<Rightarrow> Some xs)"

record ceilings =
  per_run :: int
  per_hour :: int
  per_day :: int

definition default_ceilings :: "int \<Rightarrow> ceilings" where
  "default_ceilings n = \<lparr>per_run = n, per_hour = 30, per_day = 200\<rparr>"

definition recent :: "int \<Rightarrow> int \<Rightarrow> reservation list \<Rightarrow> reservation list" where
  "recent width now xs = filter (\<lambda>s. now - r_at s < width) xs"

definition check_and_reserve ::
    "ledger_file \<Rightarrow> int \<Rightarrow> ceilings \<Rightarrow> string \<Rightarrow> string option \<Rightarrow> unit res \<times> ledger_file" where
  "check_and_reserve disk now c run_id reservation_key =
     (case ledger_read disk of
        None \<Rightarrow> (Inl (SendBlocked ''send ledger unreadable, failing closed''), disk)
      | Some data \<Rightarrow>
          (let sends = recent 86400 now data;
               run_count = int (length (filter (\<lambda>s. r_run s = run_id) sends));
               hour_count = int (length (recent 3600 now sends))
           in
           if reservation_key \<notin> {None, Some []}
              \<and> list_ex (\<lambda>s. r_run s = run_id \<and> r_key s = reservation_key) sends
           then (Inr (), disk)
           else if per_run c \<le> run_count
           then (Inl (SendBlocked (''run '' @ run_id @ '' hit its '' @ show_int (per_run c)
                   @ '' send ceiling'')), disk)
           else if per_hour c \<le> hour_count
           then (Inl (SendBlocked (''global hourly ceiling of '' @ show_int (per_hour c)
                   @ '' reached'')), disk)
           else if per_day c \<le> int (length sends)
           then (Inl (SendBlocked (''global daily ceiling of '' @ show_int (per_day c)
                   @ '' reached'')), disk)
           else (Inr (), Sends (sends @ [\<lparr>r_run = run_id, r_at = now,
                   r_key = (if reservation_key = Some [] then None else reservation_key)\<rparr>]))))"

text \<open>What one call does, by outcome.\<close>

lemma reserve_cases [case_names Unreadable Retry Refused Reserved]:
  obtains "disk = Unreadable"
      "check_and_reserve disk now c run key
         = (Inl (SendBlocked ''send ledger unreadable, failing closed''), disk)"
  | xs s where "ledger_read disk = Some xs" "s \<in> set (recent 86400 now xs)" "r_run s = run"
      "r_key s = key" "key \<notin> {None, Some []}"
      "check_and_reserve disk now c run key = (Inr (), disk)"
  | msg where "check_and_reserve disk now c run key = (Inl (SendBlocked msg), disk)"
  | xs where "ledger_read disk = Some xs"
      "int (length (filter (\<lambda>s. r_run s = run) (recent 86400 now xs))) < per_run c"
      "int (length (recent 3600 now (recent 86400 now xs))) < per_hour c"
      "int (length (recent 86400 now xs)) < per_day c"
      "check_and_reserve disk now c run key
         = (Inr (), Sends (recent 86400 now xs @ [\<lparr>r_run = run, r_at = now,
              r_key = (if key = Some [] then None else key)\<rparr>]))"
proof (cases "ledger_read disk")
  case None
  then show ?thesis
    using that(1) by (cases disk) (auto simp: check_and_reserve_def ledger_read_def)
next
  case (Some xs)
  let ?sends = "recent 86400 now xs"
  show ?thesis
  proof (cases "key \<notin> {None, Some []} \<and> list_ex (\<lambda>s. r_run s = run \<and> r_key s = key) ?sends")
    case True
    then obtain s where "s \<in> set ?sends" "r_run s = run" "r_key s = key"
      by (auto simp: list_ex_iff)
    with True Some show ?thesis
      using that(2) [OF Some] by (auto simp: check_and_reserve_def Let_def)
  next
    case False
    note eq = check_and_reserve_def [of disk now c run key, unfolded Some option.case Let_def
        if_not_P [OF False]]
    show ?thesis
    proof (cases "int (length (filter (\<lambda>s. r_run s = run) ?sends)) < per_run c
        \<and> int (length (recent 3600 now ?sends)) < per_hour c \<and> int (length ?sends) < per_day c")
      case True
      with eq show ?thesis by (intro that(4) [OF Some]) simp_all
    next
      case False
      then have "\<exists>msg. check_and_reserve disk now c run key = (Inl (SendBlocked msg), disk)"
        unfolding eq by (auto simp: not_less)
      with that(3) show ?thesis by blast
    qed
  qed
qed

text \<open>A refused call leaves the file alone.\<close>

lemma reserve_refused_unchanged:
  "check_and_reserve disk now c run key = (Inl e, disk') \<Longrightarrow> disk' = disk"
  by (cases rule: reserve_cases [of disk now c run key]) auto

lemma recent_recent [simp]:
  "now \<le> later \<Longrightarrow> recent w later (recent w now xs) = recent w later xs"
  by (induction xs) (auto simp: recent_def)

lemma recent_self: "0 < w \<Longrightarrow> recent w now (recent w now xs) = recent w now xs"
  by (simp add: recent_def)


section \<open>Rolling ceilings\<close>

text \<open>
  A history grows at its end, at non-decreasing times. If every addition of a \<open>relevant\<close>
  entry happens while fewer than \<open>limit\<close> relevant entries are less than \<open>width\<close> old, then
  no window of that width, wherever it ends, holds more than \<open>limit\<close>.
\<close>

locale rolling_ceiling =
  fixes width :: int and limit :: int and relevant :: "reservation \<Rightarrow> bool"
  assumes width_positive: "0 < width"
begin

definition window :: "int \<Rightarrow> reservation list \<Rightarrow> reservation list" where
  "window t h = filter (\<lambda>s. relevant s \<and> t - width < r_at s \<and> r_at s \<le> t) h"

definition respected :: "reservation list \<Rightarrow> bool" where
  "respected h \<longleftrightarrow> (\<forall>t. int (length (window t h)) \<le> limit)"

lemma respected_Nil: "0 \<le> limit \<Longrightarrow> respected []"
  by (simp add: respected_def window_def)

lemma respected_snoc:
  assumes "respected h" and past: "\<forall>s \<in> set h. r_at s \<le> r_at e"
    and room: "relevant e \<Longrightarrow>
      int (length (filter relevant (filter (\<lambda>s. r_at e - r_at s < width) h))) < limit"
  shows "respected (h @ [e])"
  unfolding respected_def
proof
  fix t
  show "int (length (window t (h @ [e]))) \<le> limit"
  proof (cases "relevant e \<and> t - width < r_at e \<and> r_at e \<le> t")
    case False
    with assms(1) show ?thesis by (auto simp: window_def respected_def)
  next
    case True
    have le: "length (window t h)
        \<le> length (filter relevant (filter (\<lambda>s. r_at e - r_at s < width) h))"
      using True unfolding window_def filter_filter
      by (induction h) auto
    have "length (window t (h @ [e])) = Suc (length (window t h))"
      using True by (simp add: window_def)
    with le room True show ?thesis by linarith
  qed
qed

end

interpretation hourly: rolling_ceiling 3600 limit "\<lambda>_. True" for limit
  by unfold_locales simp

interpretation daily: rolling_ceiling 86400 limit "\<lambda>_. True" for limit
  by unfold_locales simp

interpretation run_daily: rolling_ceiling 86400 limit "\<lambda>s. r_run s = run" for limit run
  by unfold_locales simp


section \<open>Every history of reservations respects the three ceilings\<close>

text \<open>
  A request is a time, a run and an optional reservation key. \<open>ledger_run\<close> issues the
  requests in order and collects the reservations that were granted.
\<close>

type_synonym request = "int \<times> string \<times> string option"

fun ledger_run ::
    "ceilings \<Rightarrow> ledger_file \<Rightarrow> reservation list \<Rightarrow> request list
       \<Rightarrow> ledger_file \<times> reservation list" where
  "ledger_run c disk granted [] = (disk, granted)"
| "ledger_run c disk granted ((now, run, key) # reqs) =
     (let (r, disk') = check_and_reserve disk now c run key;
          granted' = (if disk' = disk then granted
                      else case disk' of Sends xs \<Rightarrow> granted @ [last xs] | _ \<Rightarrow> granted)
      in ledger_run c disk' granted' reqs)"

text \<open>The file always holds what was granted in the day before the last grant.\<close>

definition tracks :: "ledger_file \<Rightarrow> reservation list \<Rightarrow> int \<Rightarrow> bool" where
  "tracks disk h now \<longleftrightarrow> (\<exists>xs. ledger_read disk = Some xs
     \<and> (\<forall>later \<ge> now. recent 86400 later xs = recent 86400 later h))
     \<and> (\<forall>s \<in> set h. r_at s \<le> now)"

definition all_respected :: "ceilings \<Rightarrow> reservation list \<Rightarrow> bool" where
  "all_respected c h \<longleftrightarrow> hourly.respected (per_hour c) h \<and> daily.respected (per_day c) h
     \<and> (\<forall>run. run_daily.respected (per_run c) run h)"

lemma tracks_later: "tracks disk h t \<Longrightarrow> t \<le> now \<Longrightarrow> tracks disk h now"
  by (fastforce simp: tracks_def)

lemma all_respected_snoc:
  assumes "all_respected c h" and "\<forall>s \<in> set h. r_at s \<le> now"
    and "int (length (filter (\<lambda>s. r_run s = run) (recent 86400 now h))) < per_run c"
    and "int (length (recent 3600 now (recent 86400 now h))) < per_hour c"
    and "int (length (recent 86400 now h)) < per_day c"
  shows "all_respected c (h @ [\<lparr>r_run = run, r_at = now, r_key = k\<rparr>])"
proof -
  have "recent 3600 now (recent 86400 now h) = recent 3600 now h"
    unfolding recent_def filter_filter by (rule filter_cong) auto
  with assms show ?thesis
    unfolding all_respected_def
    by (auto intro!: hourly.respected_snoc daily.respected_snoc run_daily.respected_snoc
        simp: recent_def)
qed

lemma ledger_step:
  assumes "tracks disk h now" and "all_respected c h"
    and "check_and_reserve disk now c run key = (r, disk')" and "disk' \<noteq> disk"
  shows "\<exists>xs e. disk' = Sends (xs @ [e]) \<and> tracks disk' (h @ [e]) now
    \<and> all_respected c (h @ [e])"
proof (cases rule: reserve_cases [of disk now c run key])
  case (Reserved xs)
  from assms(1) Reserved(1) have same: "recent 86400 later xs = recent 86400 later h"
    if "now \<le> later" for later using that by (auto simp: tracks_def)
  let ?e = "\<lparr>r_run = run, r_at = now, r_key = (if key = Some [] then None else key)\<rparr>"
  from Reserved(5) assms(3) have disk': "disk' = Sends (recent 86400 now xs @ [?e])" by simp
  have "tracks disk' (h @ [?e]) now"
    using assms(1) same recent_recent [of now _ 86400 xs]
    by (auto simp: tracks_def disk' ledger_read_def recent_def)
  moreover have "all_respected c (h @ [?e])"
    using assms(1,2) Reserved(2,3,4) same [of now]
    by (intro all_respected_snoc) (auto simp: tracks_def)
  ultimately show ?thesis using disk' by blast
qed (use assms(3,4) in auto)

theorem ledger_run_respects_ceilings:
  assumes "tracks disk h t" and "all_respected c h"
    and "sorted (t # map fst reqs)"
  shows "all_respected c (snd (ledger_run c disk h reqs))"
  using assms
proof (induction reqs arbitrary: disk h t)
  case (Cons req reqs)
  obtain now run key where req: "req = (now, run, key)" by (cases req)
  obtain r disk' where call: "check_and_reserve disk now c run key = (r, disk')" by fastforce
  from Cons.prems(1,3) req have tr: "tracks disk h now" by (auto intro: tracks_later)
  from Cons.prems(3) req have s: "sorted (now # map fst reqs)" by simp
  show ?case
  proof (cases "disk' = disk")
    case True
    with Cons.IH [OF tr Cons.prems(2) s] call req show ?thesis by simp
  next
    case False
    from ledger_step [OF tr Cons.prems(2) call False] obtain xs e where
      e: "disk' = Sends (xs @ [e])" "tracks disk' (h @ [e]) now" "all_respected c (h @ [e])"
      by blast
    from Cons.IH [OF e(2,3) s] call req False e(1) show ?thesis by simp
  qed
qed simp

text \<open>A retry of the same logical mail, within a day, reserves nothing again.\<close>

theorem retry_reserves_once:
  assumes "check_and_reserve disk now c run (Some k) = (Inr (), disk')" and "k \<noteq> []"
    and "now \<le> later" and "later < now + 86400" and "\<forall>xs. ledger_read disk = Some xs \<longrightarrow>
      (\<forall>s \<in> set xs. r_key s = Some k \<longrightarrow> later - r_at s < 86400)"
  shows "check_and_reserve disk' later c' run (Some k) = (Inr (), disk')"
proof -
  have hit: "check_and_reserve disk' later c' run (Some k) = (Inr (), disk')"
    if "ledger_read disk' = Some ys" "s \<in> set ys" "r_run s = run" "r_key s = Some k"
      "later - r_at s < 86400" for ys s
    using that assms(2) by (auto simp: check_and_reserve_def Let_def list_ex_iff recent_def)
  show ?thesis
  proof (cases rule: reserve_cases [of disk now c run "Some k"])
    case (Retry xs s)
    with assms(1,5) show ?thesis by (intro hit) (auto simp: recent_def)
  next
    case (Reserved xs)
    with assms show ?thesis by (intro hit) (auto simp: ledger_read_def)
  qed (use assms(1) in auto)
qed

section \<open>Credentials\<close>

text \<open>
  The process environment and the key chain are parameters; a key chain lookup that fails or
  times out is \<open>None\<close>.
\<close>

definition key_env_name :: "string \<Rightarrow> string option" where
  "key_env_name service =
     map_of [(''rally-resend'', ''RESEND_API_KEY''), (''rally-poll-token'', ''RALLY_POLL_TOKEN'')]
       service"

definition get_key ::
    "(string \<Rightarrow> string option) \<Rightarrow> (string \<Rightarrow> string option) \<Rightarrow> string \<Rightarrow> string res" where
  "get_key env keychain service =
     (let name = key_env_name service;
          override = (case name of None \<Rightarrow> None | Some n \<Rightarrow> env n)
      in
      if override \<notin> {None, Some []} then Inr (the override)
      else (case keychain service of
              Some out \<Rightarrow>
                if strip out \<noteq> [] then Inr (strip out)
                else Inl (SendBlocked (''no credential: ''
                       @ (case name of None \<Rightarrow> [] | Some n \<Rightarrow> ''set '' @ n @ '' or '')
                       @ ''store it in the keychain as '' @ repr_str service))
            | None \<Rightarrow> Inl (SendBlocked (''no credential: ''
                       @ (case name of None \<Rightarrow> [] | Some n \<Rightarrow> ''set '' @ n @ '' or '')
                       @ ''store it in the keychain as '' @ repr_str service))))"

text \<open>No environment variable can stand in for another service's credential.\<close>

theorem get_key_own_variable:
  assumes "\<forall>n. key_env_name service = Some n \<longrightarrow> env n = env' n"
  shows "get_key env keychain service = get_key env' keychain service"
  using assms by (auto simp: get_key_def Let_def split: option.splits)

end
