(* ===== verification/Run_State.thy ===== *)
theory Run_State
  imports Envelope_Correct Fleet Send_Ledger
begin

text \<open>
  The state of a run and the small operations of \<^verbatim>\<open>src/runner.py\<close> on it: the configuration,
  the order of the workers, notes and saves, and Second Wind, the bounded handoff of a
  failed turn to the next model family.

  The code mutates one dictionary and writes it to disk at chosen points. A \<open>rig\<close> holds
  both copies, the shared send ledger and a trace of what left the process, so that an
  exception leaves exactly what was saved before it.
\<close>

section \<open>Configuration\<close>

record limits =
  l_turns_max :: int
  l_no_progress_halt :: int
  l_rejections_max :: int
  l_sends_per_run :: int
  l_turn_timeout_sec :: int
  l_reprompts_max :: int

record config =
  c_agents :: fleet
  c_limits :: limits
  c_max_recoveries :: "json option"
  c_second_wind :: json
  c_mail_enabled :: bool
  c_cc_human :: string
  c_root :: string


section \<open>State\<close>

record recovery =
  rv_id :: string
  rv_at :: string
  rv_turn :: int
  rv_kind :: string
  rv_from :: string
  rv_to :: string
  rv_items :: "string list"
  rv_detail :: string
  rv_status :: string
  rv_outcome :: string

record continuity =
  ct_mode :: string
  ct_second_wind :: bool
  ct_max :: int
  ct_used :: int
  ct_active :: "recovery option"
  ct_history :: "recovery list"

record halt_info =
  h_reason :: string
  h_detail :: string

record delivery =
  d_status :: string
  d_generation :: int
  d_key :: string
  d_request_key :: "string option"
  d_provider_id :: "string option"

text \<open>
  What the turn record shows of a changed item: identifier, state, owner, verifier, evidence.
\<close>

type_synonym change = "json \<times> json \<times> json \<times> json \<times> json"

record turn_record =
  t_turn :: int
  t_actor :: string
  t_family :: string
  t_model :: string
  t_narrative :: json
  t_commit :: "string option"
  t_changes :: "change list"

text \<open>The record of the Google ADK coordinator, and the receipt of a generated artifact.\<close>

record cloud_record =
  cl_status :: string
  cl_required :: bool
  cl_error :: string
  cl_request_key :: json
  cl_duplicate :: bool
  cl_handoff :: json
  cl_text :: json

record media_receipt =
  md_kind :: string
  md_status :: string
  md_model :: string
  md_filename :: string
  md_mime :: string
  md_bytes :: nat
  md_sha256 :: string
  md_fingerprint :: string
  md_error :: string

text \<open>
  \<open>None\<close> or the empty string stand for an absent or \<open>null\<close> field wherever the code tests
  the field for truth.
\<close>

record run_state =
  run_id :: string
  task :: string
  workdir :: string
  turn :: int
  actor :: string
  agent_order :: "string list"
  checklist :: "item list"
  halt :: "halt_info option"
  violations :: "string list"
  human_note :: string
  digest_streak :: int
  last_digest :: string
  created :: string
  log :: "string list"
  turns :: "turn_record list"
  thread_message_id :: string
  thread_references :: "string list"
  reprompts :: int
  commission_message_id :: string
  commission_request_key :: string
  commissioned_by :: string
  workspace_id :: string
  source_run_id :: string
  cont :: continuity
  containment :: "(int \<times> string \<times> string list) list"
  report :: string
  report_halt :: string
  report_generation :: int
  report_delivery :: "delivery option"
  connector_authority :: "string option"
  cloud :: "cloud_record option"
  media :: "media_receipt list"

text \<open>
  What leaves the process: a worker is run, the provider accepts the mail of a turn, a report
  is handed to the provider under an idempotency key, an artifact is written.
\<close>

datatype effect =
    Dispatched string
  | TurnMailed string
  | ReportMailed string string
  | ArtifactWritten string
  | ConsoleSynced

record rig =
  cur :: run_state
  disk :: run_state
  ledger :: ledger_file
  trace :: "effect list"


section \<open>Actions on a rig\<close>

type_synonym 'a act = "rig \<Rightarrow> 'a res \<times> rig"

definition ret :: "'a \<Rightarrow> 'a act" where "ret x r = (Inr x, r)"

definition raise :: "exn \<Rightarrow> 'a act" where "raise e r = (Inl e, r)"

definition lift :: "'a res \<Rightarrow> 'a act" where "lift m r = (m, r)"

definition bindA :: "'a act \<Rightarrow> ('a \<Rightarrow> 'b act) \<Rightarrow> 'b act" where
  "bindA m f r = (case m r of (Inl e, r') \<Rightarrow> (Inl e, r') | (Inr x, r') \<Rightarrow> f x r')"

definition upd :: "(run_state \<Rightarrow> run_state) \<Rightarrow> unit act" where
  "upd f r = (Inr (), r\<lparr>cur := f (cur r)\<rparr>)"

definition with_state :: "(run_state \<Rightarrow> 'a act) \<Rightarrow> 'a act" where
  "with_state f r = f (cur r) r"

definition emit :: "effect \<Rightarrow> unit act" where
  "emit e r = (Inr (), r\<lparr>trace := trace r @ [e]\<rparr>)"

definition save :: "unit act" where "save r = (Inr (), r\<lparr>disk := cur r\<rparr>)"

definition sync_console :: "unit act" where "sync_console = emit ConsoleSynced"

text \<open>\<open>run.note\<close>: one line of the log, stamped with the time.\<close>

definition note_line :: "string \<Rightarrow> string \<Rightarrow> run_state \<Rightarrow> run_state" where
  "note_line now msg s = s\<lparr>log := log s @ [now @ '' '' @ msg]\<rparr>"

definition note_run :: "string \<Rightarrow> string \<Rightarrow> unit act" where
  "note_run now msg = upd (note_line now msg)"

text \<open>
  A predicate on the state that an action keeps, whether it returns or raises. The rules
  follow the shape of an action, so that one \<open>intro\<close> step descends into it.
\<close>

definition keeps :: "(rig \<Rightarrow> bool) \<Rightarrow> 'a act \<Rightarrow> bool" where
  "keeps P m \<longleftrightarrow> (\<forall>r. P r \<longrightarrow> P (snd (m r)))"

named_theorems keeps_intros

lemma keepsD: "keeps P m \<Longrightarrow> P r \<Longrightarrow> P (snd (m r))"
  by (simp add: keeps_def)

lemma keeps_ret [keeps_intros]: "keeps P (ret x)"
  by (simp add: keeps_def ret_def)

lemma keeps_raise [keeps_intros]: "keeps P (raise e)"
  by (simp add: keeps_def raise_def)

lemma keeps_lift [keeps_intros]: "keeps P (lift m)"
  by (simp add: keeps_def lift_def)

lemma keeps_bindA [keeps_intros]:
  "keeps P m \<Longrightarrow> (\<And>x. keeps P (f x)) \<Longrightarrow> keeps P (bindA m f)"
  by (fastforce simp: keeps_def bindA_def split: prod.splits sum.splits)

lemma keeps_with_state: "(\<And>s. keeps P (f s)) \<Longrightarrow> keeps P (with_state f)"
  by (simp add: keeps_def with_state_def)

lemma keeps_if [keeps_intros]: "(b \<Longrightarrow> keeps P m) \<Longrightarrow> (\<not> b \<Longrightarrow> keeps P n) \<Longrightarrow> keeps P (if b then m else n)"
  by simp

text \<open>Running a sequence of actions, for symbolic execution.\<close>

lemmas act_defs = ret_def raise_def lift_def bindA_def upd_def with_state_def emit_def save_def
  sync_console_def note_run_def

lemma bindA_assoc: "bindA (bindA m f) g = bindA m (\<lambda>x. bindA (f x) g)"
  by (rule ext) (simp add: bindA_def split: prod.split sum.split)


section \<open>The order of the workers\<close>

definition configured_agent_order :: "config \<Rightarrow> string list" where
  "configured_agent_order cfg =
     (let names = map fst (c_agents cfg) in if names \<noteq> [] then names else [''claude'', ''agy''])"

definition run_agent_order :: "run_state \<Rightarrow> config \<Rightarrow> string list" where
  "run_agent_order s cfg =
     (let saved = filter (\<lambda>n. n \<in> fst ` set (c_agents cfg)) (agent_order s)
      in if saved \<noteq> [] then saved else configured_agent_order cfg)"

fun index_of :: "'a \<Rightarrow> 'a list \<Rightarrow> nat" where
  "index_of x [] = 0"
| "index_of x (y # ys) = (if y = x then 0 else Suc (index_of x ys))"

definition next_actor :: "run_state \<Rightarrow> config \<Rightarrow> string \<Rightarrow> string" where
  "next_actor s cfg a =
     (let order = run_agent_order s cfg in
      if a \<notin> set order then order ! 0 else order ! ((index_of a order + 1) mod length order))"

definition counterpart_names :: "run_state \<Rightarrow> config \<Rightarrow> string \<Rightarrow> string list" where
  "counterpart_names s cfg a = filter (\<lambda>n. n \<noteq> a) (run_agent_order s cfg)"

lemma run_agent_order_not_Nil [simp]: "run_agent_order s cfg \<noteq> []"
  by (simp add: run_agent_order_def configured_agent_order_def Let_def)

lemma index_of_less: "x \<in> set xs \<Longrightarrow> index_of x xs < length xs"
  by (induction xs) auto

lemma nth_index_of: "x \<in> set xs \<Longrightarrow> xs ! index_of x xs = x"
  by (induction xs) auto

lemma next_actor_mem: "next_actor s cfg a \<in> set (run_agent_order s cfg)"
  by (simp add: next_actor_def Let_def)

lemma next_actor_other:
  assumes "distinct (run_agent_order s cfg)" and "2 \<le> length (run_agent_order s cfg)"
  shows "next_actor s cfg a \<noteq> a"
proof (cases "a \<in> set (run_agent_order s cfg)")
  case False
  then show ?thesis using next_actor_mem [of s cfg a] by metis
next
  case True
  let ?order = "run_agent_order s cfg" and ?i = "index_of a (run_agent_order s cfg)"
  from True have i: "?i < length ?order" by (rule index_of_less)
  have "(?i + 1) mod length ?order \<noteq> ?i"
  proof (cases "?i + 1 = length ?order")
    case False
    with i show ?thesis by simp
  qed (use assms(2) in auto)
  moreover have "(?i + 1) mod length ?order < length ?order" using i by simp
  ultimately have "?order ! ((?i + 1) mod length ?order) \<noteq> ?order ! ?i"
    using assms(1) i by (simp add: nth_eq_iff_index_eq)
  with True show ?thesis by (simp add: next_actor_def Let_def nth_index_of)
qed


section \<open>Second Wind\<close>

definition continuity_policy :: "config \<Rightarrow> continuity" where
  "continuity_policy cfg =
     (let maximum = (case c_max_recoveries cfg of
                       None \<Rightarrow> 2
                     | Some v \<Rightarrow> (case py_int v of Inr i \<Rightarrow> i | Inl e \<Rightarrow> 0));
          maximum = max 0 (min maximum 8);
          enabled = (truthy (c_second_wind cfg) \<and> maximum > 0)
      in \<lparr>ct_mode = (if enabled then ''second_wind'' else ''halt''), ct_second_wind = enabled,
          ct_max = maximum, ct_used = 0, ct_active = None, ct_history = []\<rparr>)"

text \<open>The last record of the history with the identifier gets the new status.\<close>

fun set_first :: "string \<Rightarrow> (recovery \<Rightarrow> recovery) \<Rightarrow> recovery list \<Rightarrow> recovery list" where
  "set_first i f [] = []"
| "set_first i f (x # xs) = (if rv_id x = i then f x # xs else x # set_first i f xs)"

definition set_recovery_status :: "string \<Rightarrow> string \<Rightarrow> string \<Rightarrow> continuity \<Rightarrow> continuity" where
  "set_recovery_status i status outcome c =
     c\<lparr>ct_history := rev (set_first i
         (\<lambda>x. x\<lparr>rv_status := status, rv_outcome := take 800 outcome\<rparr>) (rev (ct_history c)))\<rparr>"

definition start_second_wind ::
    "config \<Rightarrow> string \<Rightarrow> string \<Rightarrow> string \<Rightarrow> string \<Rightarrow> json list \<Rightarrow> bool act" where
  "start_second_wind cfg now kind from_actor detail items =
     with_state (\<lambda>s.
       let c = cont s; used = ct_used c; maximum = ct_max c in
       if \<not> ct_second_wind c \<or> used \<ge> maximum then ret False
       else
         bindA (lift (mapE as_str items)) (\<lambda>names.
           let c1 = (case ct_active c of
                       None \<Rightarrow> c
                     | Some p \<Rightarrow>
                         if rv_id p \<noteq> [] then set_recovery_status (rv_id p) ''failed''
                           ''The recovery model also failed before an accepted continuation.'' c
                         else c);
               to_actor = next_actor s cfg from_actor;
               rec = \<lparr>rv_id = ''sw-'' @ show_int (used + 1), rv_at = now, rv_turn = turn s,
                      rv_kind = kind, rv_from = from_actor, rv_to = to_actor,
                      rv_items = sort (remdups names), rv_detail = take 1200 detail,
                      rv_status = ''active'', rv_outcome = []\<rparr>;
               c2 = c1\<lparr>ct_used := used + 1, ct_active := Some rec,
                       ct_history := ct_history c1 @ [rec]\<rparr>
           in bindA (upd (\<lambda>s. s\<lparr>cont := c2, actor := to_actor, halt := None, reprompts := 0\<rparr>)) (\<lambda>_.
              bindA (note_run now (''SECOND WIND '' @ show_int (used + 1) @ ''/'' @ show_int maximum
                       @ '': '' @ from_actor @ '' handed recovery to '' @ to_actor
                       @ (if rv_items rec \<noteq> [] then '' for '' @ join '', '' (rv_items rec) else []))) (\<lambda>_.
              bindA save (\<lambda>_. ret True)))))"

text \<open>The state of the last checklist entry with an identifier, as a dictionary holds it.\<close>

definition state_by_id :: "item list \<Rightarrow> string \<Rightarrow> json" where
  "state_by_id items iid =
     (case find (\<lambda>it. it_id it = JStr iid) (rev items) of
        None \<Rightarrow> JNull | Some it \<Rightarrow> it_state it)"

definition finish_second_wind :: "string \<Rightarrow> string \<Rightarrow> run_state \<Rightarrow> run_state" where
  "finish_second_wind now a s =
     (case ct_active (cont s) of
        None \<Rightarrow> s
      | Some rec \<Rightarrow>
          if rv_to rec \<noteq> a then s
          else
            let unresolved = filter (\<lambda>iid. state_by_id (checklist s) iid \<in> {st_blocked, st_disputed})
                               (rv_items rec);
                status = (if unresolved \<noteq> [] then ''unresolved'' else ''recovered'');
                outcome = (if unresolved \<noteq> []
                           then ''The backup confirmed that '' @ join '', '' unresolved
                                @ '' still requires escalation.''
                           else a @ '' accepted the recovery handoff without bypassing verification.'')
            in note_line now (''SECOND WIND '' @ upper status @ '': '' @ outcome)
                 (s\<lparr>cont := (set_recovery_status (rv_id rec) status outcome (cont s))
                              \<lparr>ct_active := None\<rparr>\<rparr>))"

definition unrecovered_block_ids :: "run_state \<Rightarrow> json list" where
  "unrecovered_block_ids s =
     (let attempted = concat (map rv_items
            (filter (\<lambda>rec. rv_kind rec = ''blocked'') (ct_history (cont s))))
      in map it_id (filter (\<lambda>it. it_state it = st_blocked
            \<and> \<not> in_recovery (it_id it) attempted) (checklist s)))"

text \<open>The items a failed turn of \<open>a\<close> leaves in its custody.\<close>

definition held_by :: "string \<Rightarrow> run_state \<Rightarrow> json list" where
  "held_by a s =
     map it_id (filter (\<lambda>it. it_state it = st_claimed \<and> it_owner it = JStr a) (checklist s))"

text \<open>
  The recovery budget: at most eight recoveries, each recorded once, numbered in order.
\<close>

definition continuity_ok :: "continuity \<Rightarrow> bool" where
  "continuity_ok c \<longleftrightarrow> 0 \<le> ct_used c \<and> ct_used c \<le> ct_max c \<and> ct_max c \<le> 8
     \<and> map rv_id (ct_history c) = map (\<lambda>k. ''sw-'' @ show_int k) [1..ct_used c]"

lemma continuity_policy_ok: "continuity_ok (continuity_policy cfg)"
  by (simp add: continuity_ok_def continuity_policy_def Let_def)

lemma map_rv_id_set_first:
  "(\<And>x. rv_id (f x) = rv_id x) \<Longrightarrow> map rv_id (set_first i f xs) = map rv_id xs"
  by (induction xs) auto

lemma set_recovery_status_fields [simp]:
  "ct_used (set_recovery_status i st oc c) = ct_used c"
  "ct_max (set_recovery_status i st oc c) = ct_max c"
  "ct_second_wind (set_recovery_status i st oc c) = ct_second_wind c"
  "ct_active (set_recovery_status i st oc c) = ct_active c"
  "map rv_id (ct_history (set_recovery_status i st oc c)) = map rv_id (ct_history c)"
  by (simp_all add: set_recovery_status_def rev_map [symmetric] map_rv_id_set_first)

lemma continuity_ok_status [simp]:
  "continuity_ok (set_recovery_status i st oc c) = continuity_ok c"
  by (simp add: continuity_ok_def)

end
