(* ===== verification/Runner.thy ===== *)
theory Runner
  imports Run_State
begin

text \<open>
  One turn of \<^verbatim>\<open>src/runner.py\<close> and the loop over turns: the stop switch, the dispatch of the
  worker, the containment check, the reprompt and recovery paths, the reconciliation of the
  reply, the mail to the commissioner and the guards that end a run.
\<close>

section \<open>What a turn meets outside the runner\<close>

text \<open>
  The clock, the reply of the worker's process (or its \<open>AgentError\<close>), the fingerprints of
  the source tree before and after, the JSON decoder, the commit that git made, the mail
  credential and the answer of the mail provider. The reply stands for \<open>agents.run_agent\<close>
  on the prompt of the turn.
\<close>

record turn_env =
  e_now :: string
  e_clock :: int
  e_reply :: "string res"
  e_before :: string
  e_after :: string
  e_loads :: "string \<Rightarrow> json option"
  e_commit :: "string option"
  e_mail_key :: "string res"
  e_sent :: "string res"

definition is_line_break :: "char \<Rightarrow> bool" where
  "is_line_break c \<longleftrightarrow> c \<in> {CHR 10, CHR 11, CHR 12, CHR 13, CHR 28, CHR 29, CHR 30, CHR 0x85}"

fun splitlines_acc :: "string \<Rightarrow> string \<Rightarrow> string list" where
  "splitlines_acc w [] = (if w = [] then [] else [w])"
| "splitlines_acc w [c] = (if is_line_break c then [w] else [w @ [c]])"
| "splitlines_acc w (c # d # cs) =
     (if c = CHR 13 \<and> d = CHR 10 then w # splitlines_acc [] cs
      else if is_line_break c then w # splitlines_acc [] (d # cs)
      else splitlines_acc (w @ [c]) (d # cs))"

definition splitlines :: "string \<Rightarrow> string list" where "splitlines s = splitlines_acc [] s"


section \<open>Mail to the commissioner\<close>

definition MAIL_DOMAIN :: string where "MAIL_DOMAIN = ''updates.agent9.dev''"

definition reserve_send :: "config \<Rightarrow> int \<Rightarrow> string option \<Rightarrow> unit act" where
  "reserve_send cfg clock key = with_state (\<lambda>s. \<lambda>r.
     (let (res, f) = check_and_reserve (ledger r) clock
            (default_ceilings (l_sends_per_run (c_limits cfg))) (run_id s) key
      in (res, r\<lparr>ledger := f\<rparr>)))"

definition with_prior :: "run_state \<Rightarrow> string list" where
  "with_prior s =
     (if thread_message_id s \<noteq> [] \<and> thread_message_id s \<notin> set (thread_references s)
      then thread_references s @ [thread_message_id s] else thread_references s)"

definition commissioner :: "run_state \<Rightarrow> config \<Rightarrow> string" where
  "commissioner s cfg = (if commissioned_by s \<noteq> [] then commissioned_by s else c_cc_human cfg)"

definition py_strip :: "json \<Rightarrow> string res" where
  "py_strip v = (case v of JStr s \<Rightarrow> Inr (strip s) | _ \<Rightarrow> Inl AttributeError)"

definition mail_turn :: "config \<Rightarrow> turn_env \<Rightarrow> string \<Rightarrow> json \<Rightarrow> unit act" where
  "mail_turn cfg env a narrative =
     with_state (\<lambda>s.
       if \<not> c_mail_enabled cfg \<or> commissioner s cfg = [] then ret ()
       else
         bindA (reserve_send cfg (e_clock env) None) (\<lambda>_.
         bindA (lift (e_mail_key env)) (\<lambda>key.
         bindA (lift (py_strip narrative)) (\<lambda>text.
         bindA (lift (e_sent env)) (\<lambda>provider_id.
           let message_id = ''<'' @ run_id s @ ''-'' @ show_int (turn s) @ ''-'' @ a @ ''@''
                              @ MAIL_DOMAIN @ ''>''
           in bindA (emit (TurnMailed message_id)) (\<lambda>_.
              bindA (upd (\<lambda>s. s\<lparr>thread_message_id := message_id,
                               thread_references := with_prior s @ [message_id]\<rparr>)) (\<lambda>_.
              note_run (e_now env) (''mailed turn '' @ show_int (turn s)
                @ '' update to commissioner'')))))))
     )"

text \<open>\<open>try: ... except SendBlocked\<close>.\<close>

definition catch_blocked :: "'a act \<Rightarrow> (string \<Rightarrow> 'a act) \<Rightarrow> 'a act" where
  "catch_blocked m h r =
     (case m r of (Inl (SendBlocked msg), r') \<Rightarrow> h msg r' | other \<Rightarrow> other)"


section \<open>The stages of a turn\<close>

definition stop_requested :: "string \<Rightarrow> bool" where
  "stop_requested text = starts_with (upper (strip text)) ''STOP''"

definition set_halt :: "string \<Rightarrow> string \<Rightarrow> unit act" where
  "set_halt reason detail = upd (\<lambda>s. s\<lparr>halt := Some \<lparr>h_reason = reason, h_detail = detail\<rparr>\<rparr>)"

definition save_and_sync :: "unit act" where
  "save_and_sync = bindA save (\<lambda>_. sync_console)"

text \<open>A worker that failed: hand over, or halt the run.\<close>

definition agent_failure :: "config \<Rightarrow> turn_env \<Rightarrow> string \<Rightarrow> string \<Rightarrow> string option act" where
  "agent_failure cfg env a detail =
     with_state (\<lambda>s.
       bindA (start_second_wind cfg (e_now env) ''agent_error'' a detail (held_by a s)) (\<lambda>started.
         if started then bindA sync_console (\<lambda>_. ret None)
         else
           bindA (set_halt ''agent_error'' detail) (\<lambda>_.
           bindA (note_run (e_now env) (''AGENT FAILED: '' @ detail)) (\<lambda>_.
           bindA save_and_sync (\<lambda>_. ret (Some ''agent_error''))))))"

text \<open>Files of the source tree that changed during the turn are recorded, not reverted.\<close>

definition containment_check :: "config \<Rightarrow> turn_env \<Rightarrow> string \<Rightarrow> unit act" where
  "containment_check cfg env a =
     with_state (\<lambda>s.
       if workdir s \<noteq> c_root cfg \<and> e_after env \<noteq> e_before env then
         (let before = splitlines (e_before env);
              changed = sort (remdups (filter (\<lambda>l. l \<notin> set before) (splitlines (e_after env))));
              paths = (if changed \<noteq> [] then map (drop 3) changed else [''(unknown)'']);
              msg = ''containment: repo tree changed during '' @ a @ [CHR 39] @ ''s turn: ''
                    @ join '', '' (take 6 paths)
                    @ ''. If that was not you editing, the agent wrote outside '' @ workdir s @ ''.''
          in bindA (note_run (e_now env) msg) (\<lambda>_.
             upd (\<lambda>s. s\<lparr>containment := containment s @ [(turn s, a, paths)],
                       violations := violations s @ [msg]\<rparr>)))
       else ret ())"

definition no_envelope :: "config \<Rightarrow> turn_env \<Rightarrow> string \<Rightarrow> string option act" where
  "no_envelope cfg env a =
     bindA (upd (\<lambda>s. s\<lparr>reprompts := reprompts s + 1,
        violations := [''your last reply contained no parseable json envelope; ''
                       @ ''reply with prose then ONE fenced json block'']\<rparr>)) (\<lambda>_.
     bindA save (\<lambda>_.
     with_state (\<lambda>s.
       let max_reprompts = l_reprompts_max (c_limits cfg) in
       if reprompts s > max_reprompts
       then agent_failure cfg env a
              (a @ '' returned no parseable envelope after '' @ show_int max_reprompts
               @ '' reprompt(s)'')
       else bindA (note_run (e_now env) (''no envelope from '' @ a @ '', reprompting (''
              @ show_int (reprompts s) @ ''/'' @ show_int max_reprompts @ '')'')) (\<lambda>_.
            ret None))))"

text \<open>Iterating over the value of \<open>checklist\<close>, whatever JSON it is.\<close>

fun iterate :: "json \<Rightarrow> json list res" where
  "iterate (JArr xs) = Inr xs"
| "iterate (JStr s) = Inr (map (\<lambda>c. JStr [c]) s)"
| "iterate (JObj kvs) = Inr (map (\<lambda>(k, v). JStr k) kvs)"
| "iterate _ = Inl TypeError"

definition visible :: "item \<Rightarrow> change" where
  "visible it = (it_id it, it_state it, it_owner it, it_verified_by it, it_evidence it)"

definition same_visible :: "item \<Rightarrow> item \<Rightarrow> bool" where
  "same_visible p it \<longleftrightarrow> py_eq (it_id p) (it_id it) \<and> py_eq (it_state p) (it_state it)
     \<and> py_eq (it_owner p) (it_owner it) \<and> py_eq (it_verified_by p) (it_verified_by it)
     \<and> py_eq (it_evidence p) (it_evidence it)"

definition visible_changes :: "item list \<Rightarrow> item list \<Rightarrow> change list" where
  "visible_changes before now =
     map visible (filter (\<lambda>it.
       case find (\<lambda>p. py_eq (it_id p) (it_id it)) (rev before) of
         None \<Rightarrow> True
       | Some p \<Rightarrow> \<not> same_visible p it) now)"

definition recovery_items :: "run_state \<Rightarrow> string \<Rightarrow> string list" where
  "recovery_items s a =
     (case ct_active (cont s) of
        None \<Rightarrow> []
      | Some rec \<Rightarrow> if rv_to rec = a then rv_items rec else [])"

definition carried :: "string list \<Rightarrow> string list" where
  "carried vs = filter (\<lambda>v. starts_with v ''containment:'') vs"

text \<open>The reply was an envelope: reconcile it and record the turn.\<close>

definition accept_reply :: "config \<Rightarrow> turn_env \<Rightarrow> string \<Rightarrow> envelope \<Rightarrow> json act" where
  "accept_reply cfg env a envl =
     bindA (upd (\<lambda>s. s\<lparr>reprompts := 0\<rparr>)) (\<lambda>_.
     bindA (lift (validate_shape envl)) (\<lambda>problems.
     bindA (lift (iterate (jget ''checklist'' envl))) (\<lambda>proposed.
     with_state (\<lambda>s.
     bindA (lift (reconcile (checklist s) proposed a (l_rejections_max (c_limits cfg))
              (turn s \<le> 1) (recovery_items s a))) (\<lambda>(accepted, vs).
     bindA (upd (\<lambda>s. s\<lparr>checklist := accepted,
                      violations := carried (violations s) @ problems @ vs\<rparr>)) (\<lambda>_.
     bindA (if vs \<noteq> [] then note_run (e_now env)
              (show_nat (length vs) @ '' illegal change(s) reverted'') else ret ()) (\<lambda>_.
     bindA (upd (\<lambda>s. s\<lparr>human_note := []\<rparr>)) (\<lambda>_.
     bindA (lift (py_take 4000 (if ''narrative'' \<in> fst ` set envl then jget ''narrative'' envl
                                else JStr []))) (\<lambda>narrative.
     bindA (upd (\<lambda>t. t\<lparr>turns := turns t @
              [\<lparr>t_turn = turn t, t_actor = a,
                t_family = (case map_of (c_agents cfg) a of None \<Rightarrow> [] | Some g \<Rightarrow> a_family g),
                t_model = (case map_of (c_agents cfg) a of None \<Rightarrow> []
                           | Some g \<Rightarrow> (case a_model g of None \<Rightarrow> [] | Some m \<Rightarrow> m)),
                t_narrative = narrative, t_commit = e_commit env,
                t_changes = visible_changes (checklist s) accepted\<rparr>]\<rparr>)) (\<lambda>_.
     ret narrative))))))))))"

text \<open>The guards: progress, the next worker, the end of a recovery.\<close>

definition advance :: "config \<Rightarrow> string \<Rightarrow> string \<Rightarrow> run_state \<Rightarrow> run_state" where
  "advance cfg now a s =
     (let d = digest (checklist s);
          s1 = s\<lparr>digest_streak := (if d = last_digest s then digest_streak s + 1 else 0),
                 last_digest := d, turn := turn s + 1, actor := next_actor s cfg a\<rparr>
      in finish_second_wind now a s1)"

definition turn_verdict :: "config \<Rightarrow> turn_env \<Rightarrow> string \<Rightarrow> string option act" where
  "turn_verdict cfg env a =
     with_state (\<lambda>s.
       let stuck = blocking (checklist s);
           finish = (if turn s \<ge> l_turns_max (c_limits cfg) then ret (Some ''turn_budget'')
                     else if digest_streak s \<ge> l_no_progress_halt (c_limits cfg)
                     then ret (Some ''no_progress'')
                     else ret None);
           report_stuck =
             bindA (lift (bindE (join_json '', '' (map it_id stuck)) (\<lambda>ids.
               Inr (py_str (it_state (hd stuck)) @ '': '' @ ids)))) (\<lambda>reason. ret (Some reason))
       in
       if is_complete (checklist s) then ret (Some ''complete'')
       else if stuck \<noteq> [] then
         (if unrecovered_block_ids s \<noteq> []
          then bindA (start_second_wind cfg (e_now env) ''blocked'' a
                        ''The accepted turn reported a blocked item.'' (unrecovered_block_ids s))
                 (\<lambda>started. if started then bindA sync_console (\<lambda>_. ret None) else report_stuck)
          else report_stuck)
       else finish)"

text \<open>\<open>cfg["agents"][actor]["model"]\<close>.\<close>

definition worker_model :: "config \<Rightarrow> string \<Rightarrow> string res" where
  "worker_model cfg a =
     (case map_of (c_agents cfg) a of None \<Rightarrow> Inl KeyError | Some g \<Rightarrow> get_model g)"

text \<open>
  After the reply was accepted: the mail, which a spent ceiling turns into a halt, then the
  guards, the save and the verdict.
\<close>

definition mail_or_halt :: "config \<Rightarrow> turn_env \<Rightarrow> string \<Rightarrow> json \<Rightarrow> string option act" where
  "mail_or_halt cfg env a narrative =
     catch_blocked
       (bindA (mail_turn cfg env a narrative) (\<lambda>_. ret None))
       (\<lambda>msg. bindA (note_run (e_now env) (''SEND BLOCKED: '' @ msg)) (\<lambda>_.
               bindA (set_halt ''turn_budget'' msg) (\<lambda>_.
               bindA save_and_sync (\<lambda>_. ret (Some (''send ceiling: '' @ msg))))))"

definition settle_turn :: "config \<Rightarrow> turn_env \<Rightarrow> string \<Rightarrow> json \<Rightarrow> string option act" where
  "settle_turn cfg env a narrative =
     bindA (mail_or_halt cfg env a narrative) (\<lambda>blocked.
       case blocked of
         Some reason \<Rightarrow> ret (Some reason)
       | None \<Rightarrow>
           bindA (upd (advance cfg (e_now env) a)) (\<lambda>_.
           bindA save_and_sync (\<lambda>_. turn_verdict cfg env a)))"

text \<open>What the worker answered.\<close>

definition handle_reply :: "config \<Rightarrow> turn_env \<Rightarrow> string \<Rightarrow> string option act" where
  "handle_reply cfg env a =
     (case e_reply env of
        Inl (AgentError exc) \<Rightarrow> agent_failure cfg env a (a @ '' turn failed: '' @ exc)
      | Inl e \<Rightarrow> raise e
      | Inr raw \<Rightarrow>
          bindA (containment_check cfg env a) (\<lambda>_.
            case extract_envelope (e_loads env) raw of
              None \<Rightarrow> no_envelope cfg env a
            | Some envl \<Rightarrow>
                bindA (accept_reply cfg env a envl) (settle_turn cfg env a)))"

definition take_turn :: "config \<Rightarrow> turn_env \<Rightarrow> string option act" where
  "take_turn cfg env =
     with_state (\<lambda>s.
       let a = actor s in
       if stop_requested (human_note s)
       then bindA (set_halt ''stopped_by_human'' (strip (human_note s))) (\<lambda>_.
            bindA save_and_sync (\<lambda>_. ret (Some ''stopped_by_human'')))
       else
         bindA (lift (worker_model cfg a)) (\<lambda>model.
         bindA (note_run (e_now env) (''turn '' @ show_int (turn s) @ '': '' @ a @ '' thinking (''
                  @ model @ '')'')) (\<lambda>_.
         bindA (emit (Dispatched a)) (\<lambda>_. handle_reply cfg env a))))"


section \<open>The loop\<close>

text \<open>
  \<open>loop\<close> takes turns until one gives a reason to halt or the turn limit is reached. The
  turns meet the environments \<open>envs i\<close>, \<open>envs (i + 1)\<close>, ... The measure that makes the loop
  stop is the number of turns left plus the number of recoveries left, each worth more than
  all the reprompts of one turn.
\<close>

definition finish_loop :: "string \<Rightarrow> string act" where
  "finish_loop h =
     bindA (upd (\<lambda>s. s\<lparr>halt := (case halt s of
        None \<Rightarrow> Some \<lparr>h_reason = h, h_detail = []\<rparr> | Some x \<Rightarrow> Some x)\<rparr>)) (\<lambda>_.
     bindA save_and_sync (\<lambda>_. ret h))"

definition exhaust_loop :: "string act" where
  "exhaust_loop =
     bindA (set_halt ''turn_budget'' ''run turn limit exhausted'') (\<lambda>_.
     bindA save_and_sync (\<lambda>_. ret ''turn_budget''))"

definition potential :: "config \<Rightarrow> int \<Rightarrow> run_state \<Rightarrow> nat" where
  "potential cfg limit s =
     (nat (limit - turn s) + nat (ct_max (cont s) - ct_used (cont s)))
       * (nat (l_reprompts_max (c_limits cfg)) + 2)
     + nat (l_reprompts_max (c_limits cfg) + 1 - reprompts s)"

end
