(* ===== verification/Runner_Turn.thy ===== *)
theory Runner_Turn
  imports Runner
begin

text \<open>
  What one turn does to the state of a run: the case rules of the stages of
  \<^verbatim>\<open>src/runner.py\<close> \<open>take_turn\<close> and of the turn as a whole.
\<close>

lemma bindA_returns: "bindA m f r = (Inr y, r') \<longleftrightarrow> (\<exists>x r1. m r = (Inr x, r1) \<and> f x r1 = (Inr y, r'))"
  by (auto simp: bindA_def split: prod.splits sum.splits)

lemma bindA_raises: "bindA m f r = (Inl e, r') \<longleftrightarrow> m r = (Inl e, r') \<or> (\<exists>x r1. m r = (Inr x, r1) \<and> f x r1 = (Inl e, r'))"
  by (auto simp: bindA_def split: prod.splits sum.splits)

definition core :: "run_state \<Rightarrow> int \<times> continuity \<times> int \<times> item list \<times> string \<times> string list" where
  "core s = (turn s, cont s, reprompts s, checklist s, actor s, agent_order s)"

text \<open>Second Wind either declines, raises on an identifier that is no string, or starts.\<close>

lemma start_second_wind_cases [case_names Declined Raised Started]:
  obtains "start_second_wind cfg now kind a detail items r = (Inr False, r)"
  | "start_second_wind cfg now kind a detail items r = (Inl TypeError, r)"
  | s where "start_second_wind cfg now kind a detail items r = (Inr True, r\<lparr>cur := s, disk := s\<rparr>)"
      "ct_used (cont (cur r)) < ct_max (cont (cur r))" "ct_second_wind (cont (cur r))"
      "ct_used (cont s) = ct_used (cont (cur r)) + 1" "ct_max (cont s) = ct_max (cont (cur r))"
      "map rv_id (ct_history (cont s)) = map rv_id (ct_history (cont (cur r)))
         @ [''sw-'' @ show_int (ct_used (cont (cur r)) + 1)]"
      "turn s = turn (cur r)" "checklist s = checklist (cur r)" "agent_order s = agent_order (cur r)"
      "reprompts s = 0" "halt s = None" "actor s = next_actor (cur r) cfg a"
      "human_note s = human_note (cur r)"
proof (cases "ct_second_wind (cont (cur r)) \<and> ct_used (cont (cur r)) < ct_max (cont (cur r))")
  case False
  then show ?thesis
    using that(1) by (auto simp: start_second_wind_def with_state_def ret_def Let_def)
next
  case True
  show ?thesis
  proof (cases "mapE as_str items")
    case (Inl e)
    then have "e = TypeError"
      by (induction items) (auto simp: bindE_raises as_str_def split: json.splits)
    with Inl True show ?thesis
      using that(2) by (auto simp: start_second_wind_def act_defs Let_def)
  next
    case (Inr names)
    from True show ?thesis
      by (intro that(3) [where s = "cur (snd (start_second_wind cfg now kind a detail items r))"])
        (auto simp: start_second_wind_def act_defs Let_def note_line_def Inr split: option.splits)
  qed
qed

lemma containment_frame:
  "\<exists>r'. containment_check cfg env a r = (Inr (), r') \<and> core (cur r') = core (cur r)
     \<and> human_note (cur r') = human_note (cur r) \<and> disk r' = disk r \<and> trace r' = trace r
     \<and> ledger r' = ledger r \<and> halt (cur r') = halt (cur r)"
  by (auto simp: containment_check_def act_defs note_line_def Let_def core_def)

lemma mail_turn_frame:
  assumes "mail_turn cfg env a narrative r = (res, r')"
  shows "core (cur r') = core (cur r) \<and> disk r' = disk r \<and> halt (cur r') = halt (cur r)
    \<and> last_digest (cur r') = last_digest (cur r) \<and> digest_streak (cur r') = digest_streak (cur r)
    \<and> (\<forall>b. Dispatched b \<in> set (trace r') \<longleftrightarrow> Dispatched b \<in> set (trace r))"
  using assms unfolding mail_turn_def reserve_send_def
  by (auto simp: act_defs note_line_def Let_def core_def split: prod.splits sum.splits if_splits)

lemma keeps_upd: "(\<And>q. P q \<Longrightarrow> P (q\<lparr>cur := f (cur q)\<rparr>)) \<Longrightarrow> keeps P (upd f)"
  by (simp add: keeps_def upd_def)

lemma keeps_case_prod: "(\<And>x y. keeps P (f x y)) \<Longrightarrow> keeps P (case_prod f p)"
  by (cases p) simp

lemma accept_reply_returns:
  assumes "accept_reply cfg env a envl r = (Inr n, r')"
  shows "\<exists>proposed vs. reconcile (checklist (cur r)) proposed a (l_rejections_max (c_limits cfg))
              (turn (cur r) \<le> 1) (recovery_items (cur r) a) = Inr (checklist (cur r'), vs)
   \<and> turn (cur r') = turn (cur r) \<and> cont (cur r') = cont (cur r) \<and> reprompts (cur r') = 0
   \<and> actor (cur r') = actor (cur r) \<and> agent_order (cur r') = agent_order (cur r)
   \<and> disk r' = disk r \<and> trace r' = trace r \<and> ledger r' = ledger r \<and> human_note (cur r') = []"
proof (cases "validate_shape envl")
  case (Inl e)
  with assms show ?thesis by (simp add: accept_reply_def act_defs)
next
  case problems: (Inr problems)
  show ?thesis
  proof (cases "iterate (jget ''checklist'' envl)")
    case (Inl e)
    with assms problems show ?thesis by (simp add: accept_reply_def act_defs)
  next
    case proposed: (Inr proposed)
    let ?rec = "reconcile (checklist (cur r)) proposed a (l_rejections_max (c_limits cfg))
              (turn (cur r) \<le> 1) (recovery_items (cur r) a)"
    have [simp]: "recovery_items (reprompts_update f s) a = recovery_items s a" for f s
      by (simp add: recovery_items_def)
    show ?thesis
    proof (cases ?rec)
      case (Inl e)
      with assms problems proposed show ?thesis by (simp add: accept_reply_def act_defs)
    next
      case (Inr out)
      obtain accepted vs where out: "?rec = Inr (accepted, vs)" by (cases out) (simp add: Inr)
      show ?thesis
        using assms
        by (cases "py_take 4000 (if ''narrative'' \<in> fst ` set envl then jget ''narrative'' envl
              else JStr [])"; cases vs;
            auto simp: accept_reply_def act_defs note_line_def problems proposed out
             simp del: py_take.simps split del: if_split; use out in blast)
    qed
  qed
qed

lemma accept_reply_raises:
  assumes "accept_reply cfg env a envl r = (Inl e, r')"
  shows "disk r' = disk r \<and> trace r' = trace r"
proof -
  have "keeps (\<lambda>q. disk q = disk r \<and> trace q = trace r) (accept_reply cfg env a envl)"
    unfolding accept_reply_def note_run_def
    by (intro keeps_intros keeps_with_state keeps_upd keeps_case_prod) simp_all
  from keepsD [OF this, of r] assms show ?thesis by simp
qed

lemma agent_failure_cases [case_names Raised Handoff Halted]:
  obtains "agent_failure cfg env a detail r = (Inl TypeError, r)"
  | s where "agent_failure cfg env a detail r
        = (Inr None, r\<lparr>cur := s, disk := s, trace := trace r @ [ConsoleSynced]\<rparr>)"
      "ct_used (cont (cur r)) < ct_max (cont (cur r))"
      "ct_used (cont s) = ct_used (cont (cur r)) + 1" "ct_max (cont s) = ct_max (cont (cur r))"
      "map rv_id (ct_history (cont s)) = map rv_id (ct_history (cont (cur r)))
         @ [''sw-'' @ show_int (ct_used (cont (cur r)) + 1)]"
      "turn s = turn (cur r)" "checklist s = checklist (cur r)" "reprompts s = 0"
  | s where "agent_failure cfg env a detail r
        = (Inr (Some ''agent_error''), r\<lparr>cur := s, disk := s, trace := trace r @ [ConsoleSynced]\<rparr>)"
      "core s = core (cur r)" "halt s = Some \<lparr>h_reason = ''agent_error'', h_detail = detail\<rparr>"
proof (cases rule: start_second_wind_cases [of cfg "e_now env" "''agent_error''" a detail
      "held_by a (cur r)" r])
  case Declined
  then show ?thesis
    by (intro that(3) [where s = "cur (snd (agent_failure cfg env a detail r))"])
      (auto simp: agent_failure_def set_halt_def save_and_sync_def act_defs
        note_line_def core_def)
next
  case Raised
  then show ?thesis
    by (intro that(1)) (simp add: agent_failure_def act_defs)
next
  case (Started s)
  then show ?thesis
    by (intro that(2) [of s]) (auto simp: agent_failure_def act_defs)
qed

lemma advance_fields:
  "turn (advance cfg now a s) = turn s + 1"
  "checklist (advance cfg now a s) = checklist s"
  "ct_used (cont (advance cfg now a s)) = ct_used (cont s)"
  "ct_max (cont (advance cfg now a s)) = ct_max (cont s)"
  "map rv_id (ct_history (cont (advance cfg now a s))) = map rv_id (ct_history (cont s))"
  "reprompts (advance cfg now a s) = reprompts s"
  "halt (advance cfg now a s) = halt s"
  "agent_order (advance cfg now a s) = agent_order s"
  "actor (advance cfg now a s) = next_actor s cfg a"
  by (auto simp: advance_def finish_second_wind_def note_line_def Let_def split: option.splits)

text \<open>The reason for a halt that a report shows as a completion.\<close>

definition completes :: "string option \<Rightarrow> bool" where
  "completes res \<longleftrightarrow> (case res of None \<Rightarrow> False | Some h \<Rightarrow> starts_with h ''complete'')"

lemma completes_simps [simp]:
  "\<not> completes None" "completes (Some h) \<longleftrightarrow> starts_with h ''complete''"
  by (simp_all add: completes_def)

lemma turn_verdict_cases [case_names Raised Handoff Ended]:
  obtains e where "turn_verdict cfg env a r = (Inl e, r)"
  | s where "turn_verdict cfg env a r
        = (Inr None, r\<lparr>cur := s, disk := s, trace := trace r @ [ConsoleSynced]\<rparr>)"
      "\<not> is_complete (checklist (cur r))"
      "ct_used (cont (cur r)) < ct_max (cont (cur r))"
      "ct_used (cont s) = ct_used (cont (cur r)) + 1" "ct_max (cont s) = ct_max (cont (cur r))"
      "map rv_id (ct_history (cont s)) = map rv_id (ct_history (cont (cur r)))
         @ [''sw-'' @ show_int (ct_used (cont (cur r)) + 1)]"
      "turn s = turn (cur r)" "checklist s = checklist (cur r)" "reprompts s = 0"
  | res where "turn_verdict cfg env a r = (Inr res, r)"
      "completes res \<longleftrightarrow> is_complete (checklist (cur r))"
      "res = None \<Longrightarrow> turn (cur r) < l_turns_max (c_limits cfg)"
proof -
  note outs = that
  let ?c = "is_complete (checklist (cur r))" and ?stuck = "blocking (checklist (cur r))"
  let ?sw = "start_second_wind cfg (e_now env) ''blocked'' a
         ''The accepted turn reported a blocked item.'' (unrecovered_block_ids (cur r)) r"
  have report: ?thesis
    if s: "\<not> ?c" "?stuck \<noteq> []" "unrecovered_block_ids (cur r) = [] \<or> ?sw = (Inr False, r)"
  proof -
    have "hd ?stuck \<in> set ?stuck" using s(2) by simp
    then have st: "it_state (hd ?stuck) = JStr ''blocked'' \<or> it_state (hd ?stuck) = JStr ''disputed''"
      by (auto simp: blocking_def)
    show ?thesis
    proof (cases "join_json '', '' (map it_id ?stuck)")
      case (Inl e)
      with s show ?thesis by (intro outs(1)) (auto simp: turn_verdict_def act_defs Let_def)
    next
      case (Inr t)
      with s st show ?thesis
        by (intro outs(3) [of "Some (py_str (it_state (hd ?stuck)) @ '': '' @ t)"])
          (auto simp: turn_verdict_def act_defs Let_def)
    qed
  qed
  consider "?c" | "\<not> ?c" "?stuck = []"
    | "\<not> ?c" "?stuck \<noteq> []" "unrecovered_block_ids (cur r) = []"
    | "\<not> ?c" "?stuck \<noteq> []" "unrecovered_block_ids (cur r) \<noteq> []"
    by blast
  then show ?thesis
  proof cases
    case 1
    then show ?thesis
      by (intro outs(3) [of "Some ''complete''"]) (simp_all add: turn_verdict_def act_defs)
  next
    case 2
    then show ?thesis
      by (intro outs(3) [where res = "projr (fst (turn_verdict cfg env a r))"])
        (auto simp: turn_verdict_def act_defs Let_def split: if_splits)
  next
    case 3
    then show ?thesis by (intro report) auto
  next
    case 4
    then show ?thesis
    proof (cases rule: start_second_wind_cases [of cfg "e_now env" "''blocked''" a
          "''The accepted turn reported a blocked item.''" "unrecovered_block_ids (cur r)" r])
      case Declined
      with 4 show ?thesis by (intro report) auto
    next
      case Raised
      with 4 show ?thesis by (intro outs(1)) (auto simp: turn_verdict_def act_defs Let_def)
    next
      case (Started s)
      with 4 show ?thesis
        by (intro outs(2) [of s]) (auto simp: turn_verdict_def act_defs Let_def)
    qed
  qed
qed

text \<open>
  What a turn may do to the state that decides how a run goes on: nothing, accept a reconciled
  checklist, use one recovery, or both.
\<close>

definition recovered :: "continuity \<Rightarrow> continuity \<Rightarrow> bool" where
  "recovered c c' \<longleftrightarrow> ct_used c < ct_max c \<and> ct_max c' = ct_max c \<and> ct_used c' = ct_used c + 1
     \<and> map rv_id (ct_history c') = map rv_id (ct_history c) @ [''sw-'' @ show_int (ct_used c + 1)]"

definition same_budget :: "continuity \<Rightarrow> continuity \<Rightarrow> bool" where
  "same_budget c c' \<longleftrightarrow> ct_max c' = ct_max c \<and> ct_used c' = ct_used c
     \<and> map rv_id (ct_history c') = map rv_id (ct_history c)"

definition accepted :: "config \<Rightarrow> run_state \<Rightarrow> run_state \<Rightarrow> bool" where
  "accepted cfg s s' \<longleftrightarrow> (\<exists>proposed vs. reconcile (checklist s) proposed (actor s)
      (l_rejections_max (c_limits cfg)) (turn s \<le> 1) (recovery_items s (actor s))
      = Inr (checklist s', vs))"

definition moves :: "config \<Rightarrow> run_state \<Rightarrow> run_state \<Rightarrow> bool" where
  "moves cfg s s' \<longleftrightarrow> (checklist s' = checklist s \<or> accepted cfg s s')
     \<and> (same_budget (cont s) (cont s') \<or> recovered (cont s) (cont s'))"

lemma no_envelope_cases [case_names Raised Handoff Halted Reprompted]:
  obtains s where "no_envelope cfg env a r = (Inl TypeError, r\<lparr>cur := s, disk := s\<rparr>)"
      "checklist s = checklist (cur r)" "cont s = cont (cur r)"
  | s where "no_envelope cfg env a r
        = (Inr None, r\<lparr>cur := s, disk := s, trace := trace r @ [ConsoleSynced]\<rparr>)"
      "recovered (cont (cur r)) (cont s)"
      "turn s = turn (cur r)" "checklist s = checklist (cur r)" "reprompts s = 0"
  | s d where "no_envelope cfg env a r
        = (Inr (Some ''agent_error''), r\<lparr>cur := s, disk := s, trace := trace r @ [ConsoleSynced]\<rparr>)"
      "checklist s = checklist (cur r)" "cont s = cont (cur r)"
      "halt s = Some \<lparr>h_reason = ''agent_error'', h_detail = d\<rparr>"
      "l_reprompts_max (c_limits cfg) \<le> reprompts (cur r)"
  | s l where "no_envelope cfg env a r = (Inr None, r\<lparr>cur := s, disk := s\<lparr>log := l\<rparr>\<rparr>)"
      "turn s = turn (cur r)" "checklist s = checklist (cur r)" "cont s = cont (cur r)"
      "reprompts s = reprompts (cur r) + 1" "reprompts s \<le> l_reprompts_max (c_limits cfg)"
proof -
  let ?s = "(cur r)\<lparr>reprompts := reprompts (cur r) + 1,
        violations := [''your last reply contained no parseable json envelope; ''
                       @ ''reply with prose then ONE fenced json block'']\<rparr>"
  let ?r = "r\<lparr>cur := ?s, disk := ?s\<rparr>"
  let ?d = "a @ '' returned no parseable envelope after ''
              @ show_int (l_reprompts_max (c_limits cfg)) @ '' reprompt(s)''"
  note outs = that
  show ?thesis
  proof (cases "reprompts (cur r) + 1 > l_reprompts_max (c_limits cfg)")
    case False
    then show ?thesis
      by (intro outs(4) [where s = "cur (snd (no_envelope cfg env a r))" and l = "log (cur r)"])
        (auto simp: no_envelope_def act_defs Let_def note_line_def)
  next
    case True
    then have eq: "no_envelope cfg env a r = agent_failure cfg env a ?d ?r"
      by (simp add: no_envelope_def act_defs Let_def)
    show ?thesis
    proof (cases rule: agent_failure_cases [of cfg env a ?d ?r])
      case Raised
      with eq show ?thesis by (intro outs(1) [of ?s]) simp_all
    next
      case (Handoff s)
      with eq show ?thesis by (intro outs(2) [of s]) (simp_all add: recovered_def)
    next
      case (Halted s)
      with eq True show ?thesis by (intro outs(3) [of s ?d]) (simp_all add: core_def)
    qed
  qed
qed

text \<open>A frame: the parts of the rig that an action leaves alone.\<close>

definition dispatched :: "rig \<Rightarrow> nat" where
  "dispatched r = length (filter (\<lambda>e. case e of Dispatched _ \<Rightarrow> True | _ \<Rightarrow> False) (trace r))"

lemma dispatched_update [simp]:
  "dispatched (r\<lparr>cur := s\<rparr>) = dispatched r" "dispatched (r\<lparr>disk := s\<rparr>) = dispatched r"
  "dispatched (r\<lparr>trace := trace r @ [ConsoleSynced]\<rparr>) = dispatched r"
  "dispatched (r\<lparr>trace := trace r @ [Dispatched a]\<rparr>) = Suc (dispatched r)"
  "dispatched (r\<lparr>trace := trace r @ [TurnMailed m]\<rparr>) = dispatched r"
  "dispatched (r\<lparr>ledger := f\<rparr>) = dispatched r"
  by (simp_all add: dispatched_def)

lemma mail_or_halt_cases [case_names Raised Blocked Sent]:
  obtains e r' where "mail_or_halt cfg env a narrative r = (Inl e, r')" "disk r' = disk r"
      "dispatched r' = dispatched r"
  | msg r' where "mail_or_halt cfg env a narrative r = (Inr (Some (''send ceiling: '' @ msg)), r')"
      "core (cur r') = core (cur r)" "disk r' = cur r'" "dispatched r' = dispatched r"
  | r' where "mail_or_halt cfg env a narrative r = (Inr None, r')"
      "core (cur r') = core (cur r)" "disk r' = disk r" "dispatched r' = dispatched r"
proof -
  note outs = that
  obtain res q where mail: "mail_turn cfg env a narrative r = (res, q)"
    by (cases "mail_turn cfg env a narrative r")
  from mail_turn_frame [OF mail] have frame: "core (cur q) = core (cur r)" "disk q = disk r"
    by auto
  have dispatched: "dispatched q = dispatched r"
    using mail unfolding mail_turn_def reserve_send_def
    by (auto simp: act_defs note_line_def Let_def dispatched_def
        split: prod.splits sum.splits if_splits)
  show ?thesis
  proof (cases res)
    case (Inr u)
    with mail frame dispatched show ?thesis
      by (intro outs(3) [of q]) (auto simp: mail_or_halt_def catch_blocked_def act_defs)
  next
    case (Inl e)
    show ?thesis
    proof (cases "\<exists>msg. e = SendBlocked msg")
      case True
      then obtain msg where e: "e = SendBlocked msg" by blast
      with Inl mail frame dispatched show ?thesis
        by (intro outs(2) [where msg = msg and r' = "snd (mail_or_halt cfg env a narrative r)"])
          (auto simp: mail_or_halt_def catch_blocked_def set_halt_def save_and_sync_def act_defs
            note_line_def core_def dispatched_def)
    next
      case False
      with Inl mail frame dispatched show ?thesis
        by (intro outs(1) [of e q])
          (auto simp: mail_or_halt_def catch_blocked_def act_defs split: exn.splits)
    qed
  qed
qed

lemma next_actor_cong: "agent_order s = agent_order s' \<Longrightarrow> next_actor s cfg a = next_actor s' cfg a"
  by (simp add: next_actor_def run_agent_order_def)

lemma settle_turn_cases [case_names Raised Crashed Blocked Handoff Ended]:
  obtains e r' where "settle_turn cfg env a narrative r = (Inl e, r')" "disk r' = disk r"
      "dispatched r' = dispatched r"
  | e r' where "settle_turn cfg env a narrative r = (Inl e, r')"
      "checklist (disk r') = checklist (cur r)" "same_budget (cont (cur r)) (cont (disk r'))"
      "dispatched r' = dispatched r"
  | msg r' where "settle_turn cfg env a narrative r = (Inr (Some (''send ceiling: '' @ msg)), r')"
      "core (cur r') = core (cur r)" "disk r' = cur r'" "dispatched r' = dispatched r"
  | r' where "settle_turn cfg env a narrative r = (Inr None, r')" "disk r' = cur r'"
      "turn (cur r') = turn (cur r) + 1" "checklist (cur r') = checklist (cur r)"
      "recovered (cont (cur r)) (cont (cur r'))" "reprompts (cur r') = 0"
      "dispatched r' = dispatched r"
  | res r' where "settle_turn cfg env a narrative r = (Inr res, r')" "disk r' = cur r'"
      "turn (cur r') = turn (cur r) + 1" "checklist (cur r') = checklist (cur r)"
      "same_budget (cont (cur r)) (cont (cur r'))" "reprompts (cur r') = reprompts (cur r)"
      "actor (cur r') = next_actor (cur r) cfg a" "dispatched r' = dispatched r"
      "completes res \<longleftrightarrow> is_complete (checklist (cur r'))"
      "res = None \<Longrightarrow> turn (cur r') < l_turns_max (c_limits cfg)"
proof (cases rule: mail_or_halt_cases [of cfg env a narrative r])
  case (Raised e r')
  then show ?thesis by (intro that(1) [of e r']) (auto simp: settle_turn_def act_defs)
next
  case (Blocked msg r')
  then show ?thesis by (intro that(3) [of msg r']) (auto simp: settle_turn_def act_defs)
next
  case (Sent r1)
  let ?s = "advance cfg (e_now env) a (cur r1)"
  let ?r = "r1\<lparr>cur := ?s, disk := ?s, trace := trace r1 @ [ConsoleSynced]\<rparr>"
  note outs = that
  from Sent(1) have eq: "settle_turn cfg env a narrative r = turn_verdict cfg env a ?r"
    by (simp add: settle_turn_def save_and_sync_def act_defs)
  from Sent(2) have s: "turn ?s = turn (cur r) + 1" "checklist ?s = checklist (cur r)"
      "same_budget (cont (cur r)) (cont ?s)" "reprompts ?s = reprompts (cur r)"
      "actor ?s = next_actor (cur r) cfg a"
    by (auto simp: core_def advance_fields same_budget_def intro: next_actor_cong)
  from Sent(4) have d: "dispatched ?r = dispatched r" by (simp add: dispatched_def)
  show ?thesis
  proof (cases rule: turn_verdict_cases [of cfg env a ?r])
    case (Raised e)
    with eq s d show ?thesis by (intro outs(2) [of e ?r]) simp_all
  next
    case (Handoff s')
    with eq s d show ?thesis
      by (intro outs(4) [of "?r\<lparr>cur := s', disk := s', trace := trace ?r @ [ConsoleSynced]\<rparr>"])
        (simp_all add: recovered_def same_budget_def dispatched_def)
  next
    case (Ended res)
    with eq s d show ?thesis by (intro outs(5) [of res ?r]) simp_all
  qed
qed

text \<open>What is on disk after a turn returns is the state in memory, but for its last log line.\<close>

lemma take_turn_cases [case_names Stopped Raised Crashed Failed Blocked Reprompted Handoff Ended]:
  obtains r' where "take_turn cfg env r = (Inr (Some ''stopped_by_human''), r')"
      "stop_requested (human_note (cur r))" "core (cur r') = core (cur r)" "disk r' = cur r'"
      "trace r' = trace r @ [ConsoleSynced]" "ledger r' = ledger r"
      "halt (cur r') = Some \<lparr>h_reason = ''stopped_by_human'', h_detail = strip (human_note (cur r))\<rparr>"
  | e r' where "take_turn cfg env r = (Inl e, r')" "disk r' = disk r"
      "dispatched r' \<le> dispatched r + 1"
  | e r' where "take_turn cfg env r = (Inl e, r')"
      "checklist (disk r') = checklist (cur r) \<or> accepted cfg (cur r) (disk r')"
      "same_budget (cont (cur r)) (cont (disk r'))" "dispatched r' = dispatched r + 1"
  | r' where "take_turn cfg env r = (Inr (Some ''agent_error''), r')" "disk r' = cur r'"
      "checklist (cur r') = checklist (cur r)" "cont (cur r') = cont (cur r)"
      "dispatched r' = dispatched r + 1"
  | msg r' where "take_turn cfg env r = (Inr (Some (''send ceiling: '' @ msg)), r')"
      "disk r' = cur r'" "accepted cfg (cur r) (cur r')" "cont (cur r') = cont (cur r)"
      "dispatched r' = dispatched r + 1"
  | l r' where "take_turn cfg env r = (Inr None, r')" "disk r' = (cur r')\<lparr>log := l\<rparr>"
      "turn (cur r') = turn (cur r)" "checklist (cur r') = checklist (cur r)"
      "cont (cur r') = cont (cur r)" "reprompts (cur r') = reprompts (cur r) + 1"
      "reprompts (cur r') \<le> l_reprompts_max (c_limits cfg)" "dispatched r' = dispatched r + 1"
  | r' where "take_turn cfg env r = (Inr None, r')" "disk r' = cur r'"
      "turn (cur r') \<in> {turn (cur r), turn (cur r) + 1}"
      "checklist (cur r') = checklist (cur r) \<or> accepted cfg (cur r) (cur r')"
      "recovered (cont (cur r)) (cont (cur r'))" "reprompts (cur r') = 0"
      "dispatched r' = dispatched r + 1"
  | res r' where "take_turn cfg env r = (Inr res, r')" "disk r' = cur r'"
      "turn (cur r') = turn (cur r) + 1" "accepted cfg (cur r) (cur r')"
      "same_budget (cont (cur r)) (cont (cur r'))" "reprompts (cur r') = 0"
      "actor (cur r') = next_actor (cur r) cfg (actor (cur r))" "dispatched r' = dispatched r + 1"
      "completes res \<longleftrightarrow> is_complete (checklist (cur r'))"
      "res = None \<Longrightarrow> turn (cur r') < l_turns_max (c_limits cfg)"
proof (cases "stop_requested (human_note (cur r))")
  case True
  then show ?thesis
    by (intro that(1) [of "snd (take_turn cfg env r)"])
      (auto simp: take_turn_def act_defs set_halt_def save_and_sync_def core_def)
next
  case run: False
  note outs = that
  let ?a = "actor (cur r)"
  show ?thesis
  proof (cases "worker_model cfg ?a")
    case (Inl e)
    with run show ?thesis by (intro outs(2) [of e r]) (auto simp: take_turn_def act_defs Let_def)
  next
    case (Inr model)
    let ?r = "r\<lparr>cur := note_line (e_now env) (''turn '' @ show_int (turn (cur r)) @ '': '' @ ?a
                  @ '' thinking ('' @ model @ '')'') (cur r), trace := trace r @ [Dispatched ?a]\<rparr>"
    have eq: "take_turn cfg env r = handle_reply cfg env ?a ?r"
      using run Inr by (simp add: take_turn_def act_defs Let_def)
    have c: "core (cur ?r) = core (cur r)" by (simp add: core_def note_line_def)
    have d: "dispatched ?r = dispatched r + 1" by (simp add: dispatched_def)
    show ?thesis
    proof (cases "e_reply env")
      case (Inl e)
      show ?thesis
      proof (cases "\<exists>m. e = AgentError m")
        case False
        with Inl eq d show ?thesis
          by (intro outs(2) [of e ?r]) (auto simp: handle_reply_def act_defs split: exn.splits)
      next
        case True
        then obtain m where "e = AgentError m" by blast
        with Inl have eq2: "take_turn cfg env r
            = agent_failure cfg env ?a (?a @ '' turn failed: '' @ m) ?r"
          by (simp add: eq handle_reply_def)
        show ?thesis
        proof (cases rule: agent_failure_cases [of cfg env ?a "?a @ '' turn failed: '' @ m" ?r])
          case Raised
          with eq2 d show ?thesis by (intro outs(2) [of TypeError ?r]) simp_all
        next
          case (Handoff s)
          with eq2 d c show ?thesis
            by (intro outs(7) [of "?r\<lparr>cur := s, disk := s, trace := trace ?r @ [ConsoleSynced]\<rparr>"])
              (simp_all add: recovered_def core_def dispatched_def)
        next
          case (Halted s)
          with eq2 d c show ?thesis
            by (intro outs(4) [of "?r\<lparr>cur := s, disk := s, trace := trace ?r @ [ConsoleSynced]\<rparr>"])
              (simp_all add: core_def dispatched_def)
        qed
      qed
    next
      case (Inr raw)
      obtain r1 where r1: "containment_check cfg env ?a ?r = (Inr (), r1)"
          "core (cur r1) = core (cur r)" "disk r1 = disk r" "trace r1 = trace ?r"
        using containment_frame [of cfg env ?a ?r] c by auto
      from r1(4) d have d1: "dispatched r1 = dispatched r + 1" by (simp add: dispatched_def)
      show ?thesis
      proof (cases "extract_envelope (e_loads env) raw")
        case None
        with Inr r1 have eq2: "take_turn cfg env r = no_envelope cfg env ?a r1"
          by (simp add: eq handle_reply_def bindA_def)
        show ?thesis
        proof (cases rule: no_envelope_cases [of cfg env ?a r1])
          case (Raised s)
          with eq2 d1 r1 show ?thesis
            by (intro outs(3) [of TypeError "r1\<lparr>cur := s, disk := s\<rparr>"])
              (simp_all add: core_def same_budget_def)
        next
          case (Handoff s)
          with eq2 d1 r1 show ?thesis
            by (intro outs(7) [of "r1\<lparr>cur := s, disk := s, trace := trace r1 @ [ConsoleSynced]\<rparr>"])
              (simp_all add: recovered_def core_def dispatched_def)
        next
          case (Halted s m)
          with eq2 d1 r1 show ?thesis
            by (intro outs(4) [of "r1\<lparr>cur := s, disk := s, trace := trace r1 @ [ConsoleSynced]\<rparr>"])
              (simp_all add: core_def dispatched_def)
        next
          case (Reprompted s l)
          with eq2 d1 r1 show ?thesis
            by (intro outs(6) [of "r1\<lparr>cur := s, disk := s\<lparr>log := l\<rparr>\<rparr>" l]) (simp_all add: core_def)
        qed
      next
        case (Some envl)
        with Inr r1 have eq2: "take_turn cfg env r
            = bindA (accept_reply cfg env ?a envl) (settle_turn cfg env ?a) r1"
          by (simp add: eq handle_reply_def bindA_def)
        show ?thesis
        proof (cases "accept_reply cfg env ?a envl r1")
          case (Pair out r2)
          show ?thesis
          proof (cases out)
            case (Inl e)
            with Pair eq2 d1 r1 accept_reply_raises [of cfg env ?a envl r1 e r2] show ?thesis
              by (intro outs(2) [of e r2]) (simp_all add: bindA_def dispatched_def)
          next
            case (Inr narrative)
            with Pair eq2 have eq3: "take_turn cfg env r = settle_turn cfg env ?a narrative r2"
              by (simp add: bindA_def)
            from accept_reply_returns [of cfg env ?a envl r1 narrative r2] Pair Inr r1
            have r2: "accepted cfg (cur r) (cur r2)" "turn (cur r2) = turn (cur r)"
                "cont (cur r2) = cont (cur r)" "reprompts (cur r2) = 0"
                "actor (cur r2) = ?a" "agent_order (cur r2) = agent_order (cur r)"
                "disk r2 = disk r" "dispatched r2 = dispatched r + 1"
              using d by (auto simp: accepted_def core_def dispatched_def recovery_items_def)
            have acc: "accepted cfg (cur r) s" if "checklist s = checklist (cur r2)" for s
              using r2(1) that by (simp add: accepted_def)
            show ?thesis
            proof (cases rule: settle_turn_cases [of cfg env ?a narrative r2])
              case (Raised e r')
              with eq3 r2 show ?thesis by (intro outs(2) [of e r']) simp_all
            next
              case (Crashed e r')
              with eq3 r2 show ?thesis by (intro outs(3) [of e r']) (simp_all add: acc)
            next
              case (Blocked msg r')
              with eq3 r2 show ?thesis
                by (intro outs(5) [of msg r']) (simp_all add: core_def acc)
            next
              case (Handoff r')
              with eq3 r2 show ?thesis by (intro outs(7) [of r']) (simp_all add: acc)
            next
              case (Ended res r')
              moreover have "next_actor (cur r2) cfg ?a = next_actor (cur r) cfg ?a"
                using r2(6) by (rule next_actor_cong)
              ultimately show ?thesis
                using eq3 r2 by (intro outs(8) [of res r']) (simp_all add: acc)
            qed
          qed
        qed
      qed
    qed
  qed
qed
end
