(* ===== verification/Runner_Loop.thy ===== *)
theory Runner_Loop
  imports Runner_Turn
begin

text \<open>
  The loop of \<^verbatim>\<open>src/runner.py\<close> (\<open>loop\<close>): it ends, within a number of worker dispatches that
  the configuration bounds, and what it saves keeps the rules of the checklist and of the
  recovery budget, also when a turn raises.
\<close>

section \<open>The measure\<close>

lemma potential_decreases:
  assumes "take_turn cfg env r = (Inr None, r')" and "turn (cur r) < limit"
  shows "potential cfg limit (cur r') < potential cfg limit (cur r)"
proof -
  let ?R = "nat (l_reprompts_max (c_limits cfg))"
  let ?left = "\<lambda>s. nat (limit - turn s) + nat (ct_max (cont s) - ct_used (cont s))"
  have spend: "potential cfg limit (cur r') < potential cfg limit (cur r)"
    if "reprompts (cur r') = 0" "?left (cur r') < ?left (cur r)"
  proof -
    from that(2) obtain k where k: "?left (cur r) = ?left (cur r') + Suc k"
      using less_iff_Suc_add by auto
    have "potential cfg limit (cur r') \<le> ?left (cur r') * (?R + 2) + (?R + 1)"
      by (simp add: potential_def that(1))
    also have "\<dots> < ?left (cur r) * (?R + 2)"
      unfolding k by (simp add: algebra_simps)
    also have "\<dots> \<le> potential cfg limit (cur r)" by (simp add: potential_def)
    finally show ?thesis .
  qed
  from assms(1) show ?thesis
  proof (cases rule: take_turn_cases [of cfg env r])
    case (Reprompted l q)
    with assms(1) show ?thesis by (auto simp: potential_def)
  next
    case (Handoff q)
    with assms show ?thesis by (intro spend) (auto simp: recovered_def)
  next
    case (Ended res q)
    with assms show ?thesis by (intro spend) (auto simp: same_budget_def)
  qed (use assms(1) in simp_all)
qed

function turns_from :: "config \<Rightarrow> (nat \<Rightarrow> turn_env) \<Rightarrow> int \<Rightarrow> nat \<Rightarrow> rig \<Rightarrow> string res \<times> rig" where
  "turns_from cfg envs limit i r =
     (if turn (cur r) < limit
      then (case take_turn cfg (envs i) r of
              (Inl e, r') \<Rightarrow> (Inl e, r')
            | (Inr (Some h), r') \<Rightarrow> finish_loop h r'
            | (Inr None, r') \<Rightarrow> turns_from cfg envs limit (Suc i) r')
      else exhaust_loop r)"
  by pat_completeness auto

termination
  by (relation "measure (\<lambda>(cfg, envs, limit, i, r). potential cfg limit (cur r))")
    (simp_all add: potential_decreases)

declare turns_from.simps [simp del]

text \<open>\<open>limit = max_turns or turns_max\<close>.\<close>

definition loop :: "config \<Rightarrow> (nat \<Rightarrow> turn_env) \<Rightarrow> int \<Rightarrow> string act" where
  "loop cfg envs max_turns r =
     turns_from cfg envs (if max_turns \<noteq> 0 then max_turns else l_turns_max (c_limits cfg)) 0 r"


section \<open>Invariants of the saved state\<close>

lemma finish_loop_simps:
  "finish_loop h r = (Inr h, snd (finish_loop h r))"
  "core (cur (snd (finish_loop h r))) = core (cur r)"
  "disk (snd (finish_loop h r)) = cur (snd (finish_loop h r))"
  "halt (cur (snd (finish_loop h r))) \<noteq> None"
  "dispatched (snd (finish_loop h r)) = dispatched r"
  by (auto simp: finish_loop_def save_and_sync_def act_defs core_def dispatched_def split: option.split)

lemma exhaust_loop_simps:
  "exhaust_loop r = (Inr ''turn_budget'', snd (exhaust_loop r))"
  "core (cur (snd (exhaust_loop r))) = core (cur r)"
  "disk (snd (exhaust_loop r)) = cur (snd (exhaust_loop r))"
  "halt (cur (snd (exhaust_loop r))) \<noteq> None"
  "dispatched (snd (exhaust_loop r)) = dispatched r"
  by (auto simp: exhaust_loop_def set_halt_def save_and_sync_def act_defs core_def dispatched_def)

lemma finish_loop_saved:
  "finish_loop h r = (res, r') \<Longrightarrow> disk r' = cur r' \<and> halt (cur r') \<noteq> None"
  using finish_loop_simps [of h r] by simp

lemma exhaust_loop_saved:
  "exhaust_loop r = (res, r') \<Longrightarrow> res = Inr ''turn_budget'' \<and> disk r' = cur r' \<and> halt (cur r') \<noteq> None"
  using exhaust_loop_simps [of r] by simp

lemma finish_loop_checklist:
  "finish_loop h r = (res, r') \<Longrightarrow> res = Inr h \<and> checklist (cur r') = checklist (cur r)"
  using finish_loop_simps [of h r] by (simp add: core_def)

lemma potential_pos: "turn (cur r) < limit \<Longrightarrow> 0 < potential cfg limit (cur r)"
  by (simp add: potential_def)

text \<open>The rules a saved run obeys.\<close>

definition run_ok :: "run_state \<Rightarrow> bool" where
  "run_ok s \<longleftrightarrow> checklist_ok (checklist s) \<and> continuity_ok (cont s)"

definition rig_ok :: "rig \<Rightarrow> bool" where
  "rig_ok r \<longleftrightarrow> run_ok (cur r) \<and> run_ok (disk r)"

lemma run_ok_core: "core s = core s' \<Longrightarrow> run_ok s = run_ok s'"
  by (simp add: run_ok_def core_def)

lemma continuity_ok_recovered:
  assumes "recovered c c'" and "continuity_ok c"
  shows "continuity_ok c'"
proof -
  from assms have u: "0 \<le> ct_used c" "ct_used c' = ct_used c + 1"
    by (auto simp: recovered_def continuity_ok_def)
  then have "[1..ct_used c'] = [1..ct_used c] @ [ct_used c + 1]"
    by (simp add: upto_rec2)
  with assms u show ?thesis by (auto simp: recovered_def continuity_ok_def)
qed

lemma continuity_ok_same: "same_budget c c' \<Longrightarrow> continuity_ok c \<Longrightarrow> continuity_ok c'"
  by (auto simp: same_budget_def continuity_ok_def)

lemma accepted_ok:
  "accepted cfg s s' \<Longrightarrow> checklist_ok (checklist s) \<Longrightarrow> actor s \<noteq> [] \<Longrightarrow> checklist_ok (checklist s')"
  by (auto simp: accepted_def intro: reconcile_checklist_ok)

lemma take_turn_ok:
  assumes "rig_ok r" and "[] \<notin> fst ` set (c_agents cfg)" and "take_turn cfg env r = (res, r')"
  shows "run_ok (disk r')" and "\<And>x. res = Inr x \<Longrightarrow> rig_ok r'"
proof -
  have *: "run_ok (disk r') \<and> ((\<exists>x. res = Inr x) \<longrightarrow> rig_ok r')"
  proof -
    from assms(1) have ok: "checklist_ok (checklist (cur r))" "continuity_ok (cont (cur r))"
        "run_ok (disk r)"
      by (auto simp: rig_ok_def run_ok_def)
    consider "stop_requested (human_note (cur r))"
      | e where "\<not> stop_requested (human_note (cur r))" "worker_model cfg (actor (cur r)) = Inl e"
      | m where "worker_model cfg (actor (cur r)) = Inr m"
      by (cases "worker_model cfg (actor (cur r))") auto
    then show ?thesis
    proof cases
      case 1
      with assms ok show ?thesis
        by (auto simp: take_turn_def set_halt_def save_and_sync_def act_defs rig_ok_def run_ok_def)
    next
      case 2
      with assms show ?thesis by (auto simp: take_turn_def act_defs Let_def rig_ok_def)
    next
      case 3
      then have a: "actor (cur r) \<noteq> []"
        using assms(2) by (force simp: worker_model_def dest: map_of_SomeD split: option.splits)
      note acc = accepted_ok [OF _ ok(1) a]
      note budget = continuity_ok_recovered [OF _ ok(2)] continuity_ok_same [OF _ ok(2)]
      show ?thesis
      proof (cases rule: take_turn_cases [of cfg env r])
        case (Stopped q)
        with assms ok show ?thesis by (auto simp: rig_ok_def run_ok_def core_def)
      qed (use assms(3) ok acc budget in \<open>auto simp: rig_ok_def run_ok_def\<close>)
    qed
  qed
  from * show "run_ok (disk r')" "\<And>x. res = Inr x \<Longrightarrow> rig_ok r'" by auto
qed

lemma rig_ok_frame: "rig_ok r \<Longrightarrow> core (cur q) = core (cur r) \<Longrightarrow> disk q = cur q \<Longrightarrow> rig_ok q"
  using run_ok_core [of "cur q" "cur r"] by (simp add: rig_ok_def)

text \<open>Induction over the turns that are taken.\<close>

lemma turns_from_induct [case_names Raise Halt Exhausted Continue]:
  assumes raise: "\<And>i r e r'. turn (cur r) < limit \<Longrightarrow> take_turn cfg (envs i) r = (Inl e, r')
      \<Longrightarrow> Q i r (Inl e, r')"
    and halt: "\<And>i r h r'. turn (cur r) < limit \<Longrightarrow> take_turn cfg (envs i) r = (Inr (Some h), r')
      \<Longrightarrow> Q i r (finish_loop h r')"
    and exhausted: "\<And>i r. \<not> turn (cur r) < limit \<Longrightarrow> Q i r (exhaust_loop r)"
    and continue: "\<And>i r r'. turn (cur r) < limit \<Longrightarrow> take_turn cfg (envs i) r = (Inr None, r')
      \<Longrightarrow> Q (Suc i) r' (turns_from cfg envs limit (Suc i) r')
      \<Longrightarrow> Q i r (turns_from cfg envs limit (Suc i) r')"
  shows "Q i r (turns_from cfg envs limit i r)"
proof (induction "potential cfg limit (cur r)" arbitrary: i r rule: less_induct)
  case less
  show ?case
  proof (cases "turn (cur r) < limit")
    case False
    then show ?thesis using exhausted [of r i] by (simp add: turns_from.simps [of cfg envs limit i r])
  next
    case True
    obtain res r' where t: "take_turn cfg (envs i) r = (res, r')"
      by (cases "take_turn cfg (envs i) r")
    show ?thesis
    proof (cases res)
      case (Inl e)
      with True t raise [of r i e r'] show ?thesis
        by (simp add: turns_from.simps [of cfg envs limit i r])
    next
      case (Inr oh)
      show ?thesis
      proof (cases oh)
        case (Some h)
        with Inr True t halt [of r i h r'] show ?thesis
          by (simp add: turns_from.simps [of cfg envs limit i r])
      next
        case None
        with Inr t have t: "take_turn cfg (envs i) r = (Inr None, r')" by simp
        from less [OF potential_decreases [OF t True], of "Suc i"] True t
        show ?thesis
          by (simp add: turns_from.simps [of cfg envs limit i r] continue [OF True t])
      qed
    qed
  qed
qed

text \<open>However the loop ends, the saved run is a legal one.\<close>

lemma turns_from_ok:
  assumes "[] \<notin> fst ` set (c_agents cfg)" and "rig_ok r"
  shows "run_ok (disk (snd (turns_from cfg envs limit i r)))"
proof -
  have "rig_ok r \<longrightarrow> run_ok (disk (snd (turns_from cfg envs limit i r)))"
  proof (rule turns_from_induct [of limit cfg envs "\<lambda>i r out. rig_ok r \<longrightarrow> run_ok (disk (snd out))"])
    fix i r e r'
    assume "take_turn cfg (envs i) r = (Inl e, r')"
    with take_turn_ok(1) [OF _ assms(1)] show "rig_ok r \<longrightarrow> run_ok (disk (snd (Inl e, r')))" by simp
  next
    fix i r h r'
    assume "take_turn cfg (envs i) r = (Inr (Some h), r')"
    then have "rig_ok r \<Longrightarrow> rig_ok r'" using take_turn_ok(2) [OF _ assms(1)] by blast
    with rig_ok_frame [OF _ finish_loop_simps(2,3), of r' h]
    show "rig_ok r \<longrightarrow> run_ok (disk (snd (finish_loop h r')))" by (simp add: rig_ok_def)
  next
    fix r
    from rig_ok_frame [OF _ exhaust_loop_simps(2,3), of r]
    show "rig_ok r \<longrightarrow> run_ok (disk (snd (exhaust_loop r)))" by (simp add: rig_ok_def)
  next
    fix i r r'
    assume "take_turn cfg (envs i) r = (Inr None, r')"
      and "rig_ok r' \<longrightarrow> run_ok (disk (snd (turns_from cfg envs limit (Suc i) r')))"
    with take_turn_ok(2) [OF _ assms(1)]
    show "rig_ok r \<longrightarrow> run_ok (disk (snd (turns_from cfg envs limit (Suc i) r')))" by blast
  qed
  with assms(2) show ?thesis by simp
qed

text \<open>A loop that returns has saved the state it returns with, and that state says why it ended.\<close>

lemma turns_from_saved:
  assumes "turns_from cfg envs limit i r = (Inr h, r')"
  shows "disk r' = cur r' \<and> halt (disk r') \<noteq> None"
proof -
  have "\<forall>h r'. turns_from cfg envs limit i r = (Inr h, r') \<longrightarrow> disk r' = cur r' \<and> halt (disk r') \<noteq> None"
    by (rule turns_from_induct [of limit cfg envs
        "\<lambda>i r out. \<forall>h r'. out = (Inr h, r') \<longrightarrow> disk r' = cur r' \<and> halt (disk r') \<noteq> None"])
      (use finish_loop_saved exhaust_loop_saved in fastforce)+
  with assms show ?thesis by blast
qed

text \<open>The loop reports completion only of a checklist that is complete.\<close>

lemma take_turn_complete:
  "take_turn cfg env r = (Inr (Some h), r') \<Longrightarrow> starts_with h ''complete'' \<Longrightarrow> is_complete (checklist (cur r'))"
  by (cases rule: take_turn_cases [of cfg env r]) auto

lemma turns_from_complete:
  assumes "turns_from cfg envs limit i r = (Inr h, r')" and "starts_with h ''complete''"
  shows "is_complete (checklist (cur r'))"
proof -
  have "\<forall>h r'. turns_from cfg envs limit i r = (Inr h, r') \<longrightarrow> starts_with h ''complete''
      \<longrightarrow> is_complete (checklist (cur r'))"
  proof (rule turns_from_induct [of limit cfg envs
        "\<lambda>i r out. \<forall>h r'. out = (Inr h, r') \<longrightarrow> starts_with h ''complete'' \<longrightarrow> is_complete (checklist (cur r'))"])
    fix i r h q
    assume t: "take_turn cfg (envs i) r = (Inr (Some h), q)"
    show "\<forall>h' r'. finish_loop h q = (Inr h', r') \<longrightarrow> starts_with h' ''complete'' \<longrightarrow> is_complete (checklist (cur r'))"
      using finish_loop_checklist [of h q] take_turn_complete [OF t] by force
  next
    fix r
    show "\<forall>h r'. exhaust_loop r = (Inr h, r') \<longrightarrow> starts_with h ''complete'' \<longrightarrow> is_complete (checklist (cur r'))"
      using exhaust_loop_saved [of r] by (fastforce simp: starts_with_def)
  qed simp_all
  with assms show ?thesis by blast
qed

text \<open>The number of workers dispatched.\<close>

lemma take_turn_dispatches: "dispatched (snd (take_turn cfg env r)) \<le> dispatched r + 1"
proof (cases rule: take_turn_cases [of cfg env r])
  case (Stopped r')
  then show ?thesis by (simp add: dispatched_def)
qed simp_all

lemma turns_from_dispatches:
  "dispatched (snd (turns_from cfg envs limit i r)) \<le> dispatched r + potential cfg limit (cur r)"
proof (rule turns_from_induct [of limit cfg envs
      "\<lambda>i r out. dispatched (snd out) \<le> dispatched r + potential cfg limit (cur r)"])
  fix i r e r'
  assume "turn (cur r) < limit" and "take_turn cfg (envs i) r = (Inl e, r')"
  with take_turn_dispatches [of cfg "envs i" r] potential_pos [of r limit cfg]
  show "dispatched (snd (Inl e, r')) \<le> dispatched r + potential cfg limit (cur r)" by simp
next
  fix i r h r'
  assume "turn (cur r) < limit" and "take_turn cfg (envs i) r = (Inr (Some h), r')"
  with take_turn_dispatches [of cfg "envs i" r] potential_pos [of r limit cfg]
  show "dispatched (snd (finish_loop h r')) \<le> dispatched r + potential cfg limit (cur r)"
    by (simp add: finish_loop_simps(5))
next
  fix r
  show "dispatched (snd (exhaust_loop r)) \<le> dispatched r + potential cfg limit (cur r)"
    by (simp add: exhaust_loop_simps(5))
next
  fix i r r'
  assume "turn (cur r) < limit" and t: "take_turn cfg (envs i) r = (Inr None, r')"
    and "dispatched (snd (turns_from cfg envs limit (Suc i) r'))
           \<le> dispatched r' + potential cfg limit (cur r')"
  moreover from t have "dispatched r' \<le> dispatched r + 1"
    using take_turn_dispatches [of cfg "envs i" r] by simp
  ultimately show "dispatched (snd (turns_from cfg envs limit (Suc i) r'))
      \<le> dispatched r + potential cfg limit (cur r)"
    using potential_decreases [OF t, of limit] by simp
qed

text \<open>The turn counter never passes the limit, and the switch \<open>STOP\<close> dispatches nothing.\<close>

lemma take_turn_counter:
  "take_turn cfg env r = (Inr x, r') \<Longrightarrow> turn (cur r') \<le> turn (cur r) + 1 \<or> x \<noteq> None"
  by (cases rule: take_turn_cases [of cfg env r]) auto

lemma loop_stopped:
  assumes "stop_requested (human_note (cur r))" and "turn (cur r) < limit"
  shows "\<exists>r'. turns_from cfg envs limit i r = (Inr ''stopped_by_human'', r')
    \<and> dispatched r' = dispatched r \<and> ledger r' = ledger r \<and> checklist (disk r') = checklist (cur r)
    \<and> halt (disk r') = Some \<lparr>h_reason = ''stopped_by_human'', h_detail = strip (human_note (cur r))\<rparr>"
  using assms
  by (subst turns_from.simps)
    (auto simp: take_turn_def set_halt_def finish_loop_def save_and_sync_def act_defs dispatched_def)

text \<open>
  A run that starts with its whole recovery budget: at most eight recoveries, and between two
  of them at most \<open>limit\<close> turns with their reprompts.
\<close>

lemma potential_fresh:
  assumes "continuity_ok (cont s)" and "0 \<le> turn s" and "0 \<le> reprompts s"
    and "0 \<le> limit" and "0 \<le> l_reprompts_max (c_limits cfg)"
  shows "int (potential cfg limit s)
    \<le> (limit + 8) * (l_reprompts_max (c_limits cfg) + 2) + l_reprompts_max (c_limits cfg) + 1"
proof -
  let ?R = "l_reprompts_max (c_limits cfg)"
  have "int (potential cfg limit s)
      = (int (nat (limit - turn s)) + int (nat (ct_max (cont s) - ct_used (cont s)))) * (?R + 2)
        + int (nat (?R + 1 - reprompts s))"
    using assms(5) unfolding potential_def of_nat_add of_nat_mult by simp
  also have "\<dots> \<le> (limit + 8) * (?R + 2) + (?R + 1)"
    using assms by (intro add_mono mult_right_mono) (auto simp: continuity_ok_def)
  finally show ?thesis by simp
qed
end
