(* ===== verification/Base64.thy ===== *)
theory Base64
  imports Rally_Prelude
begin

text \<open>
  The part of Python's \<open>base64\<close> the code relies on: \<open>b64encode\<close>, and \<open>b64decode\<close> with
  \<open>validate=True\<close>, which rejects characters outside the alphabet and wrong padding.
  A byte is a \<open>char\<close>.
\<close>

definition b64_char :: "nat \<Rightarrow> char" where
  "b64_char n = (if n < 26 then char_of (65 + n) else if n < 52 then char_of (71 + n)
     else if n < 62 then char_of (n - 4) else if n = 62 then CHR ''+'' else CHR ''/'')"

definition b64_val :: "char \<Rightarrow> nat option" where
  "b64_val c =
     (let n = (of_char c :: nat) in
      if 65 \<le> n \<and> n \<le> 90 then Some (n - 65)
      else if 97 \<le> n \<and> n \<le> 122 then Some (n - 71)
      else if 48 \<le> n \<and> n \<le> 57 then Some (n + 4)
      else if c = CHR ''+'' then Some 62 else if c = CHR ''/'' then Some 63 else None)"

abbreviation byte :: "char \<Rightarrow> nat" where "byte c \<equiv> of_char c"

fun b64_encode :: "string \<Rightarrow> string" where
  "b64_encode [] = []"
| "b64_encode [a] = [b64_char (byte a div 4), b64_char (byte a mod 4 * 16), CHR ''='', CHR ''='']"
| "b64_encode [a, b] =
     [b64_char (byte a div 4), b64_char (byte a mod 4 * 16 + byte b div 16),
      b64_char (byte b mod 16 * 4), CHR ''='']"
| "b64_encode (a # b # c # s) =
     b64_char (byte a div 4) # b64_char (byte a mod 4 * 16 + byte b div 16)
     # b64_char (byte b mod 16 * 4 + byte c div 64) # b64_char (byte c mod 64) # b64_encode s"

definition b64_quad :: "nat \<Rightarrow> nat \<Rightarrow> nat \<Rightarrow> nat \<Rightarrow> string" where
  "b64_quad p q r s =
     [char_of (p * 4 + q div 16), char_of (q mod 16 * 16 + r div 4), char_of (r mod 4 * 64 + s)]"

fun b64_decode :: "string \<Rightarrow> string option" where
  "b64_decode [] = Some []"
| "b64_decode (a # b # c # d # rest) =
     (case (b64_val a, b64_val b) of
        (Some p, Some q) \<Rightarrow>
          (if rest = [] \<and> c = CHR ''='' \<and> d = CHR ''='' then Some (take 1 (b64_quad p q 0 0))
           else
             (case (b64_val c, b64_val d) of
                (Some r, Some s) \<Rightarrow> map_option ((@) (b64_quad p q r s)) (b64_decode rest)
              | (Some r, None) \<Rightarrow>
                  (if rest = [] \<and> d = CHR ''='' then Some (take 2 (b64_quad p q r 0)) else None)
              | _ \<Rightarrow> None))
      | _ \<Rightarrow> None)"
| "b64_decode _ = None"

lemma of_char_of: "n < 256 \<Longrightarrow> (of_char (char_of n) :: nat) = n"
  by simp

lemma b64_val_char [simp]: "n < 64 \<Longrightarrow> b64_val (b64_char n) = Some n"
  by (auto simp: b64_val_def b64_char_def Let_def)

lemma b64_val_pad [simp]: "b64_val (CHR ''='') = None"
  by (simp add: b64_val_def)

lemma byte_less [simp]: "byte c < 256"
  by (rule nat_of_char_less_256)

lemma b64_char_not_pad [simp]: "n < 64 \<Longrightarrow> b64_char n \<noteq> CHR ''=''"
  by (metis b64_val_char b64_val_pad option.distinct(1))

lemma six_bits [simp]:
  "byte a div 4 < 64" "byte a mod 4 * 16 + byte b div 16 < 64" "byte a mod 4 * 16 < 64"
  "byte b mod 16 * 4 + byte c div 64 < 64" "byte b mod 16 * 4 < 64" "byte c mod 64 < 64"
  using byte_less [of a] byte_less [of b] byte_less [of c] by (auto simp del: byte_less)

lemma b64_quad_bytes:
  "b64_quad (byte a div 4) (byte a mod 4 * 16 + byte b div 16)
     (byte b mod 16 * 4 + byte c div 64) (byte c mod 64) = [a, b, c]"
proof -
  have "byte b div 16 < 16" "byte c div 64 < 4"
    using byte_less [of b] byte_less [of c] by (auto simp del: byte_less)
  then have "(byte a mod 4 * 16 + byte b div 16) div 16 = byte a mod 4"
    and "(byte a mod 4 * 16 + byte b div 16) mod 16 = byte b div 16"
    and "(byte b mod 16 * 4 + byte c div 64) div 4 = byte b mod 16"
    and "(byte b mod 16 * 4 + byte c div 64) mod 4 = byte c div 64"
    by auto
  then show ?thesis by (simp add: b64_quad_def mult.commute)
qed

lemma b64_round_trip: "b64_decode (b64_encode s) = Some s"
proof (induction s rule: b64_encode.induct)
  case (2 a)
  then show ?case
    using b64_quad_bytes [of a "CHR 0x00" "CHR 0x00"] by (simp add: b64_quad_def)
next
  case (3 a b)
  then show ?case
    using b64_quad_bytes [of a b "CHR 0x00"] by (simp add: b64_quad_def)
next
  case (4 a b c s)
  then show ?case by (simp add: b64_quad_bytes)
qed simp

lemma b64_decode_length: "b64_decode s = Some t \<Longrightarrow> 4 * length t \<le> 3 * length s"
  by (induction s arbitrary: t rule: b64_decode.induct)
    (fastforce simp: b64_quad_def split: option.splits if_splits)+
end
