(* ===== verification/Media.thy ===== *)
theory Media
  imports Report Runner_Loop Base64
begin

text \<open>
  \<^verbatim>\<open>src/media.py\<close> and \<open>prepare_media\<close> of \<^verbatim>\<open>src/runner.py\<close>: recognising a request for an
  image or a song, the bounded call of the media provider, and the receipt in the run. The
  HTTP exchange, the credential, the hash function and the file system are parameters.
\<close>

section \<open>Recognising a request\<close>

text \<open>\<open>\w\<close> of a regular expression, and the search for \<open>\b(?:t1|t2|...)\b\<close> without regard to case.\<close>

definition word_char :: "char \<Rightarrow> bool" where
  "word_char c \<longleftrightarrow>
     (let n = (of_char c :: nat) in
      (48 \<le> n \<and> n \<le> 57) \<or> (65 \<le> n \<and> n \<le> 90) \<or> (97 \<le> n \<and> n \<le> 122) \<or> n = 95
      \<or> n \<in> {0xAA, 0xB2, 0xB3, 0xB5, 0xB9, 0xBA, 0xBC, 0xBD, 0xBE}
      \<or> (0xC0 \<le> n \<and> n \<noteq> 0xD7 \<and> n \<noteq> 0xF7))"

definition term_here :: "string list \<Rightarrow> string \<Rightarrow> bool" where
  "term_here ts s \<longleftrightarrow>
     list_ex (\<lambda>t. starts_with (lower s) t
       \<and> (case drop (length t) s of [] \<Rightarrow> True | c # cs \<Rightarrow> \<not> word_char c)) ts"

fun term_search :: "string list \<Rightarrow> bool \<Rightarrow> string \<Rightarrow> nat option" where
  "term_search ts inside [] = None"
| "term_search ts inside (c # cs) =
     (if \<not> inside \<and> term_here ts (c # cs) then Some 0
      else map_option Suc (term_search ts (word_char c) cs))"

definition search :: "string list \<Rightarrow> string \<Rightarrow> nat option" where
  "search ts s = term_search ts False s"

definition IMAGE_TERMS :: "string list" where
  "IMAGE_TERMS = [''image'', ''picture'', ''photo'', ''photograph'', ''illustration'', ''artwork'',
     ''poster'', ''graphic'']"

definition SONG_TERMS :: "string list" where
  "SONG_TERMS = [''song'', ''music'', ''track'', ''jingle'', ''anthem'', ''soundtrack'']"

definition CREATE_TERMS :: "string list" where
  "CREATE_TERMS = [''create'', ''generate'', ''make'', ''produce'', ''compose'', ''draw'', ''design'',
     ''render'', ''write'', ''want'', ''need'', ''asking for'']"

definition NON_GENERATIVE_TERMS :: "string list" where
  "NON_GENERATIVE_TERMS = [''analyze'', ''analyse'', ''review'', ''inspect'', ''classify'',
     ''describe'', ''extract'', ''audit'', ''compare'', ''summarize'', ''summarise'']"

definition REVISION_TERMS :: "string list" where
  "REVISION_TERMS = [''change'', ''revise'', ''revision'', ''edit'', ''adjust'', ''redo'',
     ''regenerate'', ''remix'', ''replace'', ''make'', ''more'', ''less'', ''lighter'', ''darker'',
     ''funnier'', ''shorter'', ''longer'', ''chorus'', ''verse'', ''tempo'', ''color'']"

definition SOULFUL_HIP_HOP_TERMS :: "string list" where
  "SOULFUL_HIP_HOP_TERMS = [''hip hop'', ''hip-hop'', ''hiphop'', ''soulful'', ''human-feeling'',
     ''conscious rap'', ''conscious-rap'', ''consciousrap'']"

definition right_quote :: string where "right_quote = [CHR 0xE2, CHR 0x80, CHR 0x99]"

definition SOULFUL_HIP_HOP_PROMPT :: string where
  "SOULFUL_HIP_HOP_PROMPT =
     ''Create one fully original 60 to 75 second smooth, soulful hip-hop song at about 86 BPM. ''
     @ ''Use a warm, grounded male baritone lead with conversational storytelling, natural breaths, ''
     @ ''slight behind-the-beat phrasing, and small human timing imperfections. The performance ''
     @ ''should feel intimate and lived-in, not glossy, robotic, theatrical, or synthetic. Production: ''
     @ ''gently swung dusty drums, warm Rhodes chords, rounded melodic bass, a little muted guitar, ''
     @ ''subtle vinyl texture, sparse soul accents, and a relaxed late-1990s conscious-hip-hop ''
     @ ''/ West-Coast-inspired pocket. Keep the arrangement uncluttered and the hook restrained ''
     @ ''and singable. No imitation of any person, no named artist reference, no vocal clone, ''
     @ ''no vocoder, no crowd chant, and no dense list of technology terms. Make the following ''
     @ ''words feel natural; minor phrasing changes, repetitions, and ad-libs are welcome for ''
     @ ''musicality. Friendly first-name shout-outs are purely creative acknowledgements, not ''
     @ ''factual claims about anyone'' @ right_quote @ ''s role.'' @ nl @ nl
     @ ''[Spoken intro, quiet]'' @ nl @ ''Everybody can buy the tools now.'' @ nl
     @ ''That was never the hard part.'' @ nl @ nl @ ''[Verse]'' @ nl
     @ ''Everybody bought the future, still the day gets lost,'' @ nl
     @ ''Good people carry context, paying every hidden cost.'' @ nl
     @ ''When a job falls down, somebody starts it up again,'' @ nl
     @ ''When an answer sounds too certain, who will check it at the end?'' @ nl
     @ ''Rally takes one real request and follows all the way,'' @ nl
     @ ''Keeps the promise with the progress, keeps the proof beside the claim.'' @ nl
     @ ''No new empire, no rip-and-replace,'' @ nl
     @ ''Just the work you already trust moving with some grace.'' @ nl @ nl
     @ ''[Hook, soulful and understated]'' @ nl @ ''Let the work rally, let the pieces move as one,''
     @ nl @ ''From a word to a promise, from a promise into done.'' @ nl
     @ ''Keep the proof with the progress, keep a name on every call,'' @ nl
     @ ''We do not need another model'' @ em_dash @ ''we need the work to hold.'' @ nl @ nl
     @ ''[Verse / outro]'' @ nl @ ''For Annie, Christina, Shawni'' @ em_dash
     @ ''much love in the room tonight,'' @ nl
     @ ''For every human holding threads and trying to make it right.'' @ nl
     @ ''One request becomes a result you can answer for,'' @ nl
     @ ''Less managing the machines, more meaning in the work.'' @ nl @ ''Let the work rally...''
     @ nl @ ''Yeah, let the work hold.''"

definition image_prompt :: "string \<Rightarrow> string" where
  "image_prompt request =
     ''Create one polished, original image that directly fulfills this business request. Favor ''
     @ ''a clean, memorable composition and natural detail. Do not add text, logos, watermarks, ''
     @ ''or extra subjects unless the request explicitly asks for them. Request: '' @ request"

definition agentic_context :: string where
  "agentic_context =
     '' Make it a 60 to 75 second upbeat electro-funk startup anthem: witty, business-safe, ''
     @ ''crisp mixed vocals, and a memorable chorus. Use these original lyrics (minor phrasing ''
     @ ''changes for musicality are fine): '' @ [CHR 39] @ ''Ready, set, agent'' @ em_dash
     @ ''let the busywork go / Annie brought the blueprint, Christina brought the glow / Shawni ''
     @ ''keeps Devpost moving when the deadline'' @ [CHR 39]
     @ ''s getting close / Gemini can plan it, ADK can pass the note / Rally, Rally'' @ em_dash
     @ ''one hard goal / Three AI families, one control / No model signs its own report / Second ''
     @ ''Wind gets the work back on course / A2A handshake, Cloud Run in flight / Firestore remembers, ''
     @ ''KMS locks tight / All Things Agentic'' @ em_dash
     @ ''we ship it right / Rally turns the chaos into proof tonight.'' @ [CHR 39]
     @ '' The first-name shout-outs to Annie, Christina, and Shawni are friendly user-requested ''
     @ ''creative acknowledgements, not factual claims about their roles.''"

definition song_prompt :: "string \<Rightarrow> string" where
  "song_prompt request =
     (if search [''all things agentic''] request \<noteq> None \<and> search SOULFUL_HIP_HOP_TERMS request \<noteq> None
      then SOULFUL_HIP_HOP_PROMPT
      else
        let context = (if search [''all things agentic''] request \<noteq> None then agentic_context else [])
        in ''Generate a fully original song with vocals and lyrics that directly fulfills the request. ''
     @ ''Do not imitate or name any recording artist. Use a polished modern pop production, intelligible ''
     @ ''English vocals, and an uplifting finish.'' @ context @ '' Request: '' @ request)"

definition comes_first :: "nat option \<Rightarrow> nat option \<Rightarrow> bool" where
  "comes_first i j = (case (i, j) of (None, _) \<Rightarrow> False | (Some a, None) \<Rightarrow> True | (Some a, Some b) \<Rightarrow> a < b)"

definition detect_request :: "string \<Rightarrow> string \<Rightarrow> (string \<times> string) option" where
  "detect_request wanted previous_kind =
     (let normalized = join '' '' (split_ws wanted) in
      if normalized = [] then None
      else
        let subject = strip (hd (splitlines wanted));
            implicit_creation = (subject \<noteq> [] \<and> search NON_GENERATIVE_TERMS subject = None);
            song_match = search SONG_TERMS normalized;
            image_match = search IMAGE_TERMS normalized
        in
        if (song_match \<noteq> None \<or> image_match \<noteq> None)
           \<and> (search CREATE_TERMS normalized \<noteq> None \<or> implicit_creation)
        then (if comes_first image_match song_match then Some (''image'', image_prompt normalized)
              else Some (''song'', song_prompt normalized))
        else if previous_kind \<in> {''image'', ''song''} \<and> search REVISION_TERMS normalized \<noteq> None
        then Some (previous_kind,
                if previous_kind = ''song'' then song_prompt normalized else image_prompt normalized)
        else None)"


section \<open>The provider call\<close>

datatype http_result =
    Http_Ok json
  | Http_Invalid
  | Http_Status nat "json option"
  | Http_Unreachable string

record media_env =
  m_settings :: "(string \<times> json) list"
  m_environ :: "string \<Rightarrow> string"
  m_token :: "string option"
  m_http :: "string \<Rightarrow> json \<Rightarrow> http_result"
  m_sha :: "string \<Rightarrow> string"
  m_is_dir :: "string \<Rightarrow> bool"
  m_realpath :: "string \<Rightarrow> string"

abbreviation mgError :: "string \<Rightarrow> exn + 'a" where
  "mgError msg \<equiv> Inl (MediaGenerationError msg)"

definition squeeze :: "string \<Rightarrow> string" where "squeeze s = join '' '' (split_ws s)"

text \<open>\<open>(v or {}).get(k)\<close>.\<close>

definition or_get :: "json \<Rightarrow> string \<Rightarrow> json res" where
  "or_get v k = (if \<not> truthy v then Inr JNull
     else case v of JObj kvs \<Rightarrow> Inr (jget k kvs) | _ \<Rightarrow> Inl AttributeError)"

definition provider_message :: "json option \<Rightarrow> string" where
  "provider_message body =
     (case body of None \<Rightarrow> []
      | Some (JObj kvs) \<Rightarrow>
          (case or_get (jget ''error'' kvs) ''message'' of
             Inl e \<Rightarrow> [] | Inr m \<Rightarrow> py_str (py_or m (JStr [])))
      | Some v \<Rightarrow> [])"

definition request_json :: "media_env \<Rightarrow> string \<Rightarrow> json \<Rightarrow> (string \<times> json) list res" where
  "request_json env url body =
     (case m_token env of
        None \<Rightarrow> mgError ''Google Cloud credentials are unavailable; authenticate gcloud and retry this run.''
      | Some token \<Rightarrow>
          (case m_http env url body of
             Http_Ok (JObj kvs) \<Rightarrow> Inr kvs
           | Http_Ok v \<Rightarrow> mgError ''Google media generation returned an invalid response.''
           | Http_Invalid \<Rightarrow> mgError ''Google media generation returned an invalid response.''
           | Http_Status code reply \<Rightarrow>
               (let message = take 240 (squeeze (provider_message reply)) in
                mgError (''Google media generation returned HTTP '' @ show_nat code
                         @ (if message \<noteq> [] then '': '' @ message else []) @ ''.''))
           | Http_Unreachable reason \<Rightarrow>
               mgError (''Google media generation could not be reached: ''
                        @ take 180 (squeeze reason))))"

definition MAX_MEDIA_BYTES :: nat where "MAX_MEDIA_BYTES = 6 * 1024 * 1024"

lemma exceeds_media_code [code_unfold]: "MAX_MEDIA_BYTES < length xs \<longleftrightarrow> 6291456 < int (length xs)"
  by (simp add: MAX_MEDIA_BYTES_def)

definition decode_bounded :: "json \<Rightarrow> string res" where
  "decode_bounded encoded =
     (case encoded of
        JStr s \<Rightarrow>
          (if s = [] then mgError ''Google media generation returned no deliverable bytes.''
           else case b64_decode s of
             None \<Rightarrow> mgError ''Google media generation returned malformed deliverable bytes.''
           | Some content \<Rightarrow>
               (if content = [] \<or> length content > MAX_MEDIA_BYTES
                then mgError (''The generated deliverable exceeded Rally'' @ [CHR 39]
                              @ ''s 6 MB outbound safety boundary.'')
                else Inr content))
      | _ \<Rightarrow> mgError ''Google media generation returned no deliverable bytes.'')"

definition atomic_write :: "media_env \<Rightarrow> string \<Rightarrow> string \<Rightarrow> string res" where
  "atomic_write env workspace filename =
     (let workspace_real = m_realpath env workspace;
          destination = workspace_real @ ''/'' @ filename in
      if \<not> m_is_dir env workspace_real then mgError ''The isolated run workspace is unavailable.''
      else if \<not> starts_with (m_realpath env destination) (workspace_real @ ''/'')
      then mgError ''The media destination escaped the run workspace.''
      else Inr destination)"

definition IMAGE_TYPES :: "(string \<times> string) list" where
  "IMAGE_TYPES = [(''image/png'', ''.png''), (''image/jpeg'', ''.jpg''), (''image/webp'', ''.webp'')]"

text \<open>The first part that carries inline data is the image.\<close>

fun image_part :: "json list \<Rightarrow> (string \<times> string) res" where
  "image_part [] = mgError ''Google completed the request but returned no image.''"
| "image_part (part # parts) =
     bindE (or_get part ''inlineData'') (\<lambda>a.
     bindE (if truthy a then Inr a else or_get part ''inline_data'') (\<lambda>inline.
     bindE (or_get inline ''data'') (\<lambda>d.
       if truthy d then
         bindE (or_get inline ''mimeType'') (\<lambda>m1.
         bindE (or_get inline ''mime_type'') (\<lambda>m2.
           let mime = py_str (py_or m1 (py_or m2 (JStr ''image/png''))) in
           if mime \<notin> fst ` set IMAGE_TYPES
           then mgError (''Google returned an unsupported image type: '' @ mime @ ''.'')
           else bindE (decode_bounded d) (\<lambda>content. Inr (content, mime))))
       else image_part parts)))"

fun song_output :: "string \<Rightarrow> json list \<Rightarrow> (string \<times> string) res" where
  "song_output status [] =
     (if status \<noteq> [] \<and> status \<noteq> ''completed''
      then mgError (''Google Lyria returned status '' @ status @ '' without a song.'')
      else mgError ''Google Lyria completed the request but returned no song.'')"
| "song_output status (output # outputs) =
     bindE (or_get output ''type'') (\<lambda>t.
     bindE (or_get output ''data'') (\<lambda>d.
       if t = JStr ''audio'' \<and> truthy d then
         bindE (or_get output ''mime_type'') (\<lambda>m1.
         bindE (or_get output ''mimeType'') (\<lambda>m2.
           let mime = py_str (py_or m1 (py_or m2 (JStr ''audio/mpeg''))) in
           if mime \<notin> {''audio/mpeg'', ''audio/mp3''}
           then mgError (''Google returned an unsupported audio type: '' @ mime @ ''.'')
           else bindE (decode_bounded d) (\<lambda>content. Inr (content, ''audio/mpeg''))))
       else song_output status outputs))"

definition first_of :: "json \<Rightarrow> json res" where
  "first_of v = (case v of
      JArr (x # xs) \<Rightarrow> Inr x
    | JStr (c # cs) \<Rightarrow> Inr (JStr [c])
    | JObj kvs \<Rightarrow> Inl KeyError
    | _ \<Rightarrow> Inl TypeError)"

definition image_bytes :: "media_env \<Rightarrow> string \<Rightarrow> string \<Rightarrow> string \<Rightarrow> (string \<times> string) res" where
  "image_bytes env project model prompt =
     bindE (request_json env
       (''https://aiplatform.googleapis.com/v1/projects/'' @ project
        @ ''/locations/global/publishers/google/models/'' @ model @ '':generateContent'')
       (JObj [(''contents'', JObj [(''role'', JStr ''USER''),
                                   (''parts'', JObj [(''text'', JStr prompt)])]),
              (''generationConfig'', JObj [(''responseModalities'', JArr [JStr ''TEXT'', JStr ''IMAGE'']),
                                           (''candidateCount'', JInt 1)])])) (\<lambda>response.
     bindE (if truthy (jget ''candidates'' response)
            then bindE (first_of (jget ''candidates'' response)) (\<lambda>c.
                 bindE (or_get c ''content'') (\<lambda>content. or_get content ''parts''))
            else Inr JNull) (\<lambda>parts.
     bindE (if truthy parts then iterate parts else Inr []) image_part))"

definition song_bytes :: "media_env \<Rightarrow> string \<Rightarrow> string \<Rightarrow> string \<Rightarrow> (string \<times> string) res" where
  "song_bytes env project model prompt =
     bindE (request_json env
       (''https://aiplatform.googleapis.com/v1beta1/projects/'' @ project
        @ ''/locations/global/interactions'')
       (JObj [(''model'', JStr model),
              (''input'', JArr [JObj [(''type'', JStr ''text''), (''text'', JStr prompt)]])]))
     (\<lambda>response.
        let status = lower (py_str (py_or (jget ''status'' response) (JStr [])));
            outputs = jget ''outputs'' response
        in bindE (if truthy outputs then iterate outputs else Inr []) (song_output status))"


definition project_id :: "string \<Rightarrow> bool" where
  "project_id s \<longleftrightarrow>
     (let lower_alpha = (\<lambda>c. 97 \<le> (of_char c :: nat) \<and> (of_char c :: nat) \<le> 122) in
      6 \<le> length s \<and> length s \<le> 63 \<and> lower_alpha (hd s)
      \<and> list_all (\<lambda>c. lower_alpha c \<or> is_digit c \<or> c = CHR ''-'') s \<and> last s \<noteq> CHR ''-'')"

definition model_id :: "string \<Rightarrow> bool" where
  "model_id s \<longleftrightarrow> 3 \<le> length s \<and> length s \<le> 96
     \<and> list_all (\<lambda>c. let n = (of_char c :: nat) in
          (48 \<le> n \<and> n \<le> 57) \<or> (65 \<le> n \<and> n \<le> 90) \<or> (97 \<le> n \<and> n \<le> 122)
          \<or> c \<in> {CHR ''.'', CHR ''_'', CHR ''-''}) s"

definition setting :: "media_env \<Rightarrow> string \<Rightarrow> string \<Rightarrow> string" where
  "setting env k fallback = py_str (py_or (jget k (m_settings env)) (JStr fallback))"

definition media_project :: "media_env \<Rightarrow> string" where
  "media_project env = py_str (py_or (jget ''project'' (m_settings env))
     (py_or (JStr (m_environ env ''RALLY_MEDIA_PROJECT''))
     (py_or (JStr (m_environ env ''GOOGLE_CLOUD_PROJECT'')) (JStr ''rally-agent9-2026''))))"

text \<open>The model, the content, its type and the file name of the deliverable.\<close>

definition media_content ::
    "media_env \<Rightarrow> string \<Rightarrow> string \<Rightarrow> string \<Rightarrow> (string \<times> string \<times> string \<times> string) res" where
  "media_content env project kind prompt =
     (if kind = ''image'' then
        let model = setting env ''image_model'' ''gemini-3.1-flash-image'' in
        bindE (py_int (py_or (jget ''image_timeout_sec'' (m_settings env)) (JInt 180))) (\<lambda>timeout.
        if \<not> model_id model then mgError ''The configured Google image model ID is invalid.''
        else bindE (image_bytes env project model prompt) (\<lambda>(content, mime).
          Inr (model, content, mime, ''deliverable-image'' @ the (map_of IMAGE_TYPES mime))))
      else if kind = ''song'' then
        let model = setting env ''music_model'' ''lyria-3-pro-preview'' in
        bindE (py_int (py_or (jget ''music_timeout_sec'' (m_settings env)) (JInt 300))) (\<lambda>timeout.
        if \<not> model_id model then mgError ''The configured Google music model ID is invalid.''
        else bindE (song_bytes env project model prompt) (\<lambda>(content, mime).
          Inr (model, content, mime, ''deliverable-song.mp3'')))
      else mgError ''The requested media type is not supported.'')"

definition generate ::
    "media_env \<Rightarrow> string \<times> string \<Rightarrow> string \<Rightarrow> (media_receipt \<times> string) res" where
  "generate env request workspace =
     (if jget ''enabled'' (m_settings env) = JBool False
      then mgError ''Google media generation is disabled for this workspace.''
      else if \<not> project_id (media_project env)
      then mgError ''The configured Google Cloud project ID is invalid.''
      else
        let kind = fst request; prompt = strip (snd request) in
        bindE (media_content env (media_project env) kind prompt)
          (\<lambda>(model, content, mime, filename).
        bindE (atomic_write env workspace filename) (\<lambda>destination.
          Inr (\<lparr>md_kind = kind, md_status = ''ready'', md_model = model, md_filename = filename,
                md_mime = mime, md_bytes = length content, md_sha256 = m_sha env content,
                md_fingerprint = m_sha env prompt, md_error = []\<rparr>, destination))))"


section \<open>The receipt in the run\<close>

definition failed_receipt :: "string \<Rightarrow> string \<Rightarrow> string \<Rightarrow> media_receipt" where
  "failed_receipt kind fingerprint msg =
     \<lparr>md_kind = kind, md_status = ''failed'', md_model = [], md_filename = [], md_mime = [],
      md_bytes = 0, md_sha256 = [], md_fingerprint = fingerprint,
      md_error = take 300 (squeeze msg)\<rparr>"

definition ready_receipt :: "string \<Rightarrow> media_receipt list \<Rightarrow> media_receipt option" where
  "ready_receipt fingerprint prior =
     find (\<lambda>m. md_fingerprint m = fingerprint \<and> md_status m = ''ready'') prior"

definition produce_media :: "media_env \<Rightarrow> string \<Rightarrow> string \<times> string \<Rightarrow> media_receipt act" where
  "produce_media env now request =
     with_state (\<lambda>s.
       case generate env request (workdir s) of
         Inr (receipt, destination) \<Rightarrow>
           bindA (emit (ArtifactWritten destination)) (\<lambda>_.
           bindA (note_run now (''Google '' @ fst request @ '' deliverable generated with ''
                    @ md_model receipt)) (\<lambda>_. ret receipt))
       | Inl (MediaGenerationError msg) \<Rightarrow>
           bindA (note_run now (''Google '' @ fst request @ '' generation failed safely: '' @ msg))
             (\<lambda>_. ret (failed_receipt (fst request) (m_sha env (snd request)) msg))
       | Inl e \<Rightarrow> raise e)"

text \<open>An empty \<open>text\<close> is an absent one: the request is the task of the run.\<close>

definition prepare_media ::
    "media_env \<Rightarrow> string \<Rightarrow> string \<Rightarrow> bool \<Rightarrow> media_receipt option act" where
  "prepare_media env now text revision =
     with_state (\<lambda>s.
       let previous = (if media s = [] then [] else md_kind (last (media s))) in
       case detect_request (if text \<noteq> [] then text else task s) previous of
         None \<Rightarrow> ret None
       | Some request \<Rightarrow>
           (case (if revision then None
                  else ready_receipt (m_sha env (snd request)) (media s)) of
              Some existing \<Rightarrow> ret (Some existing)
            | None \<Rightarrow>
                bindA (produce_media env now request) (\<lambda>receipt.
                bindA (upd (\<lambda>s. s\<lparr>media := media s @ [receipt]\<rparr>)) (\<lambda>_.
                bindA save (\<lambda>_. ret (Some receipt))))))"


section \<open>Bounds and containment\<close>

definition deliverable :: "string \<Rightarrow> bool" where
  "deliverable content \<longleftrightarrow> content \<noteq> [] \<and> length content \<le> MAX_MEDIA_BYTES"

lemma decode_bounded_bound:
  "decode_bounded d = Inr content \<Longrightarrow> deliverable content"
  by (auto simp: decode_bounded_def deliverable_def split: json.splits option.splits if_splits)

lemma image_part_bound:
  "image_part parts = Inr (content, mime) \<Longrightarrow>
     deliverable content \<and> mime \<in> fst ` set IMAGE_TYPES"
proof (induction parts)
  case (Cons part parts)
  from Cons.prems show ?case
    by (auto simp: returns Let_def split: if_splits dest: decode_bounded_bound Cons.IH)
qed simp

lemma song_output_bound:
  "song_output status outputs = Inr (content, mime) \<Longrightarrow>
     deliverable content \<and> mime = ''audio/mpeg''"
proof (induction outputs)
  case (Cons out outs)
  from Cons.prems show ?case
    by (auto simp: returns Let_def split: if_splits dest: decode_bounded_bound Cons.IH)
qed (simp split: if_splits)

lemma media_content_bound:
  assumes "media_content env project kind prompt = Inr (model, content, mime, filename)"
  shows "deliverable content" "model_id model"
    "kind = ''image'' \<and> filename \<in> {''deliverable-image.png'', ''deliverable-image.jpg'', ''deliverable-image.webp''}
     \<or> kind = ''song'' \<and> filename = ''deliverable-song.mp3''"
proof -
  have "deliverable content \<and> model_id model
    \<and> (kind = ''image'' \<and> filename \<in> {''deliverable-image.png'', ''deliverable-image.jpg'', ''deliverable-image.webp''}
     \<or> kind = ''song'' \<and> filename = ''deliverable-song.mp3'')"
    using assms
    by (auto simp: media_content_def Let_def returns image_bytes_def song_bytes_def IMAGE_TYPES_def
        split: if_splits dest!: image_part_bound song_output_bound)
  then show "deliverable content" "model_id model"
    "kind = ''image'' \<and> filename \<in> {''deliverable-image.png'', ''deliverable-image.jpg'', ''deliverable-image.webp''}
     \<or> kind = ''song'' \<and> filename = ''deliverable-song.mp3''" by blast+
qed

text \<open>A generated artifact is not empty, is bounded, and lands inside the workspace.\<close>

lemma generate_sound:
  assumes "generate env request workspace = Inr (receipt, destination)"
  shows "md_status receipt = ''ready''" "md_kind receipt = fst request"
    "md_fingerprint receipt = m_sha env (strip (snd request))"
    "0 < md_bytes receipt" "md_bytes receipt \<le> MAX_MEDIA_BYTES"
    "starts_with (m_realpath env destination) (m_realpath env workspace @ ''/'')"
    "destination = m_realpath env workspace @ ''/'' @ md_filename receipt"
proof -
  from assms obtain model content mime filename where
      c: "media_content env (media_project env) (fst request) (strip (snd request))
            = Inr (model, content, mime, filename)"
      and w: "atomic_write env workspace filename = Inr destination"
      and receipt: "receipt = \<lparr>md_kind = fst request, md_status = ''ready'', md_model = model,
                md_filename = filename, md_mime = mime, md_bytes = length content,
                md_sha256 = m_sha env content, md_fingerprint = m_sha env (strip (snd request)),
                md_error = []\<rparr>"
    by (auto simp: generate_def Let_def returns)
  from media_content_bound(1) [OF c] have "deliverable content" .
  with receipt w show "md_status receipt = ''ready''" "md_kind receipt = fst request"
    "md_fingerprint receipt = m_sha env (strip (snd request))"
    "0 < md_bytes receipt" "md_bytes receipt \<le> MAX_MEDIA_BYTES"
    "starts_with (m_realpath env destination) (m_realpath env workspace @ ''/'')"
    "destination = m_realpath env workspace @ ''/'' @ md_filename receipt"
    by (auto simp: deliverable_def atomic_write_def Let_def returns)
qed

text \<open>Only an image or a song is ever requested, and the text of the request ends the prompt.\<close>

lemma detect_request_kind:
  "detect_request wanted prev = Some (kind, prompt) \<Longrightarrow> kind \<in> {''image'', ''song''}"
  by (auto simp: detect_request_def Let_def split: if_splits)

text \<open>
  \<open>prepare_media\<close> keeps the checklist, the turn and the budgets; a failure of the provider is
  recorded in the run and does not stop it; a ready artifact for the same request is reused.
\<close>

lemma produce_media_frame:
  "produce_media env now request r = (res, r') \<Longrightarrow>
     core (cur r') = core (cur r) \<and> disk r' = disk r \<and> media (cur r') = media (cur r)
     \<and> halt (cur r') = halt (cur r) \<and> human_note (cur r') = human_note (cur r)
     \<and> report_delivery (cur r') = report_delivery (cur r) \<and> dispatched r' = dispatched r
     \<and> (\<forall>m. res \<noteq> Inl (MediaGenerationError m))"
  by (auto simp: produce_media_def act_defs note_line_def core_def dispatched_def
      split: sum.splits exn.splits)

lemma prepare_media_contained:
  assumes "prepare_media env now text revision r = (res, r')"
  shows "res \<noteq> Inl (MediaGenerationError m)"
  using assms produce_media_frame
  by (fastforce simp: prepare_media_def act_defs Let_def split: option.splits prod.splits sum.splits)

lemma prepare_media_reuses:
  assumes "prepare_media env now text False r = (Inr (Some receipt), r')"
    and "detect_request (if text \<noteq> [] then text else task (cur r))
           (if media (cur r) = [] then [] else md_kind (last (media (cur r)))) = Some request"
    and "m \<in> set (media (cur r))" and "md_fingerprint m = m_sha env (snd request)"
    and "md_status m = ''ready''"
  shows "r' = r \<and> receipt \<in> set (media (cur r)) \<and> md_status receipt = ''ready''"
proof -
  from assms(3-5) obtain e where "ready_receipt (m_sha env (snd request)) (media (cur r)) = Some e"
    unfolding ready_receipt_def by (cases "find (\<lambda>m. md_fingerprint m = m_sha env (snd request)
        \<and> md_status m = ''ready'') (media (cur r))") (auto simp: find_None_iff)
  note e = this
  then have "e \<in> set (media (cur r)) \<and> md_status e = ''ready''"
    by (auto simp: ready_receipt_def find_Some_iff)
  with assms(1,2) e show ?thesis
    by (simp add: prepare_media_def act_defs Let_def split: if_splits)
qed
end
