(* ===== verification/Coordinator.thy ===== *)
theory Coordinator
  imports Media
begin

text \<open>
  \<^verbatim>\<open>src/cloud_coordinator.py\<close>: the settings and credentials of the Google ADK coordinator, the
  request that hands a commission over, and the check of the handoff that comes back; and
  \<open>attach_cloud_coordination\<close> of \<^verbatim>\<open>src/runner.py\<close>. The environment, the keychain, the
  \<open>gcloud\<close> tool and the HTTP exchange are parameters; timeouts are not modelled.
\<close>

section \<open>Settings and credentials\<close>

datatype http_answer =
    Answer json
  | Http_Error nat string
  | Http_Failure string

text \<open>What a command printed, \<open>None\<close> when it could not be run.\<close>

record coord_env =
  k_cloud :: "(string \<times> json) list"
  k_environ :: "string \<Rightarrow> string"
  k_keychain :: "string \<Rightarrow> (nat \<times> string) option"
  k_gcloud :: "string list \<Rightarrow> (nat \<times> string) option"
  k_post :: "string \<Rightarrow> (string \<times> string) list \<Rightarrow> json \<Rightarrow> http_answer"

definition cloud_settings :: "coord_env \<Rightarrow> (string \<times> json) list" where
  "cloud_settings env =
     (let env_url = strip (k_environ env ''RALLY_CLOUD_COORDINATOR_URL'') in
      if env_url \<noteq> []
      then AList.update ''enabled'' (JBool True) (AList.update ''url'' (JStr env_url) (k_cloud env))
      else k_cloud env)"

definition get_default :: "string \<Rightarrow> json \<Rightarrow> (string \<times> json) list \<Rightarrow> json" where
  "get_default k d kvs = (case map_of kvs k of None \<Rightarrow> d | Some v \<Rightarrow> v)"

text \<open>\<open>(v or "").strip()\<close>.\<close>

definition or_strip :: "json \<Rightarrow> string res" where
  "or_strip v = (case py_or v (JStr []) of JStr s \<Rightarrow> Inr (strip s) | _ \<Rightarrow> Inl AttributeError)"

fun strip_slash :: "string \<Rightarrow> string" where
  "strip_slash s = rev (dropWhile (\<lambda>c. c = CHR ''/'') (rev s))"

abbreviation coError :: "string \<Rightarrow> exn + 'a" where
  "coError msg \<equiv> Inl (CoordinatorError msg)"

text \<open>The trimmed output of a command that succeeded.\<close>

definition command_token :: "(nat \<times> string)  \<Rightarrow> string" where
  "command_token out = (if fst out = 0 then strip (snd out) else [])"

definition service_token :: "coord_env \<Rightarrow> (string \<times> json) list \<Rightarrow> string res" where
  "service_token env cl =
     (let token = strip (k_environ env ''RALLY_CLOUD_SERVICE_TOKEN'') in
      if token \<noteq> [] then Inr token
      else
        let service = get_default ''token_keychain'' (JStr ''rally-cl-token'') cl in
        case k_keychain env (py_str service) of
          None \<Rightarrow> coError ''could not read the Cloud coordinator token''
        | Some out \<Rightarrow>
            (if command_token out = []
             then coError (''no Cloud coordinator token: set RALLY_CLOUD_SERVICE_TOKEN or store ''
                           @ ''it in the keychain as '' @ py_repr service)
             else Inr (command_token out)))"

definition identity_command :: "(string \<times> json) list \<Rightarrow> string list res" where
  "identity_command cl =
     bindE (or_strip (jget ''identity_service_account'' cl)) (\<lambda>account.
       let command = [''gcloud'', ''auth'', ''print-identity-token''] in
       if account = [] then Inr command
       else
         bindE (or_strip (py_or (jget ''identity_audience'' cl) (jget ''url'' cl))) (\<lambda>audience.
           if audience = [] then coError ''Cloud identity audience is unset''
           else Inr (command @ [''--impersonate-service-account'', account,
                                ''--audiences'', strip_slash audience, ''--include-email''])))"

definition identity_token :: "coord_env \<Rightarrow> (string \<times> json) list \<Rightarrow> string option res" where
  "identity_token env cl =
     (if \<not> truthy (get_default ''google_identity'' (JBool True) cl) then Inr None
      else
        let token = strip (k_environ env ''RALLY_CLOUD_IDENTITY_TOKEN'') in
        if token \<noteq> [] then Inr (Some token)
        else
          bindE (identity_command cl) (\<lambda>command.
            case k_gcloud env command of
              None \<Rightarrow> coError ''could not mint a Google Cloud identity token''
            | Some out \<Rightarrow>
                (if command_token out = []
                 then coError (''no Google Cloud identity token; confirm gcloud login and ''
                               @ ''invoker impersonation'')
                 else Inr (Some (command_token out)))))"

definition identity_headers :: "coord_env \<Rightarrow> (string \<times> json) list \<Rightarrow> (string \<times> string) list res" where
  "identity_headers env cl =
     bindE (identity_token env cl) (\<lambda>t.
       Inr (case t of None \<Rightarrow> [] | Some token \<Rightarrow> [(''Authorization'', ''Bearer '' @ token)]))"


section \<open>The handoff\<close>

definition handoff_ok :: "string \<Rightarrow> json \<Rightarrow> bool res" where
  "handoff_ok rid answer =
     (case answer of
        JObj kvs \<Rightarrow>
          bindE (or_get (jget ''handoff'' kvs) ''policy'') (\<lambda>policy.
            if \<not> truthy (jget ''accepted'' kvs) \<or> jget ''status'' kvs \<noteq> JStr ''ready_for_rally''
               \<or> jget ''run_id'' kvs \<noteq> JStr rid
            then Inr False
            else bindE (or_get policy ''requires_independent_verification'') (\<lambda>required.
                   Inr (truthy required)))
      | _ \<Rightarrow> Inl AttributeError)"

definition read_handoff :: "string \<Rightarrow> http_answer \<Rightarrow> (string \<times> json) list option res" where
  "read_handoff rid reply =
     (case reply of
        Http_Error code body \<Rightarrow>
          coError (''coordinator returned HTTP '' @ show_nat code @ '': '' @ take 300 body)
      | Http_Failure reason \<Rightarrow> coError (''coordinator request failed: '' @ reason)
      | Answer answer \<Rightarrow>
          bindE (handoff_ok rid answer) (\<lambda>ok.
            if ok then (case answer of JObj kvs \<Rightarrow> Inr (Some kvs) | _ \<Rightarrow> Inl AttributeError)
            else coError ''coordinator returned an invalid or incomplete handoff''))"

definition coordinate ::
    "coord_env \<Rightarrow> string \<Rightarrow> string \<Rightarrow> string \<Rightarrow> (string \<times> json) list option res" where
  "coordinate env text rid request_key =
     (let cl = cloud_settings env in
      if \<not> truthy (jget ''enabled'' cl) then Inr None
      else
        bindE (or_strip (jget ''url'' cl)) (\<lambda>url.
          let base = strip_slash url in
          if base = [] then coError ''Google Cloud coordination is enabled but its URL is unset''
          else
            bindE (service_token env cl) (\<lambda>token.
            bindE (identity_headers env cl) (\<lambda>identity.
              read_handoff rid (k_post env (base @ ''/v1/commissions'')
                ([(''Content-Type'', ''application/json''),
                  (''User-Agent'', ''rally/1.0 (+https://github.com/Agent9AI/rally)''),
                  (''X-Rally-Service-Token'', token), (''Idempotency-Key'', request_key)]
                 @ identity)
                (JObj [(''task'', JStr text), (''run_id'', JStr rid)]))))))"


section \<open>Attaching the record to a run\<close>

definition failed_record :: "bool \<Rightarrow> string \<Rightarrow> cloud_record" where
  "failed_record required msg =
     \<lparr>cl_status = ''failed'', cl_required = required, cl_error = msg, cl_request_key = JNull,
      cl_duplicate = False, cl_handoff = JNull, cl_text = JNull\<rparr>"

definition ready_record :: "(string \<times> json) list \<Rightarrow> cloud_record res" where
  "ready_record kvs =
     bindE (py_take 8000 (get_default ''coordinator_record'' (JStr []) kvs)) (\<lambda>text.
       Inr \<lparr>cl_status = py_str (jget ''status'' kvs), cl_required = False, cl_error = [],
            cl_request_key = jget ''request_key'' kvs,
            cl_duplicate = truthy (jget ''duplicate'' kvs), cl_handoff = jget ''handoff'' kvs,
            cl_text = text\<rparr>)"

definition attach_cloud_coordination :: "coord_env \<Rightarrow> string \<Rightarrow> string \<Rightarrow> bool act" where
  "attach_cloud_coordination env now request_key =
     with_state (\<lambda>s.
       if cloud s \<noteq> None then ret True
       else
         case coordinate env (task s) (run_id s) request_key of
           Inl (CoordinatorError msg) \<Rightarrow>
             (let required = truthy (get_default ''required'' (JBool True) (cloud_settings env)) in
              bindA (upd (\<lambda>s. s\<lparr>cloud := Some (failed_record required msg)\<rparr>)) (\<lambda>_.
              bindA (note_run now (''Google ADK coordinator failed: '' @ msg)) (\<lambda>_.
              if required then
                bindA (set_halt ''cloud_coordinator_error''
                  (''The commission did not start because its authenticated ''
                   @ ''Google ADK handoff failed.'')) (\<lambda>_.
                bindA save (\<lambda>_. ret False))
              else bindA save (\<lambda>_. ret True))))
         | Inl e \<Rightarrow> raise e
         | Inr None \<Rightarrow> ret True
         | Inr (Some kvs) \<Rightarrow>
             bindA (lift (ready_record kvs)) (\<lambda>rec.
             bindA (upd (\<lambda>s. s\<lparr>cloud := Some rec\<rparr>)) (\<lambda>_.
             bindA (note_run now ''Google ADK coordinator accepted the commission'') (\<lambda>_.
             bindA save (\<lambda>_. ret True)))))"

section \<open>Failing closed\<close>

lemma handoff_ok_True:
  "handoff_ok rid v = Inr True \<longleftrightarrow>
     (\<exists>kvs policy required. v = JObj kvs \<and> truthy (jget ''accepted'' kvs)
        \<and> jget ''status'' kvs = JStr ''ready_for_rally'' \<and> jget ''run_id'' kvs = JStr rid
        \<and> or_get (jget ''handoff'' kvs) ''policy'' = Inr policy
        \<and> or_get policy ''requires_independent_verification'' = Inr required \<and> truthy required)"
  by (cases v) (auto simp: handoff_ok_def returns)

text \<open>A record is accepted only for this run, and only with the policy that is demanded.\<close>

lemma read_handoff_sound:
  "read_handoff rid reply = Inr out \<Longrightarrow> \<exists>kvs. out = Some kvs \<and> handoff_ok rid (JObj kvs) = Inr True"
  by (cases reply) (auto simp: read_handoff_def returns split: if_splits json.splits)

lemma coordinate_sound:
  assumes "coordinate env text rid key = Inr (Some kvs)"
  shows "handoff_ok rid (JObj kvs) = Inr True"
  using assms read_handoff_sound
  by (fastforce simp: coordinate_def Let_def bindE_returns split: if_splits)

text \<open>The service token is never empty, so no request goes out without a credential.\<close>

lemma service_token_not_Nil: "service_token env cl = Inr token \<Longrightarrow> token \<noteq> []"
  by (auto simp: service_token_def Let_def split: option.splits if_splits)

lemma attach_frame:
  "attach_cloud_coordination env now key r = (res, r') \<Longrightarrow>
     core (cur r') = core (cur r) \<and> human_note (cur r') = human_note (cur r)
     \<and> trace r' = trace r \<and> ledger r' = ledger r \<and> (disk r' = cur r' \<or> r' = r)"
  by (auto simp: attach_cloud_coordination_def act_defs note_line_def set_halt_def core_def Let_def
      split: sum.splits exn.splits option.splits if_splits)

text \<open>A required handoff that fails refuses the run the first time it is asked for.\<close>

lemma attach_required_failure:
  assumes "cloud (cur r) = None"
    and "coordinate env (task (cur r)) (run_id (cur r)) key = coError msg"
    and "truthy (get_default ''required'' (JBool True) (cloud_settings env))"
  shows "\<exists>s. attach_cloud_coordination env now key r = (Inr False, r\<lparr>cur := s, disk := s\<rparr>)
    \<and> cloud s = Some (failed_record True msg)
    \<and> (\<exists>d. halt s = Some \<lparr>h_reason = ''cloud_coordinator_error'', h_detail = d\<rparr>)"
  using assms
  by (intro exI [of _ "cur (snd (attach_cloud_coordination env now key r))"])
    (simp add: attach_cloud_coordination_def act_defs note_line_def set_halt_def)

text \<open>
  But the failure itself is a record, and any record is taken for an attached one: asked a
  second time, the function lets the run start without a handoff.
\<close>

lemma attach_after_failure:
  assumes "cloud (cur r) = None"
    and "coordinate env (task (cur r)) (run_id (cur r)) key = coError msg"
    and "truthy (get_default ''required'' (JBool True) (cloud_settings env))"
  shows "fst (attach_cloud_coordination env' now' key'
           (snd (attach_cloud_coordination env now key r))) = Inr True"
proof -
  obtain s where "attach_cloud_coordination env now key r = (Inr False, r\<lparr>cur := s, disk := s\<rparr>)"
      "cloud s = Some (failed_record True msg)"
    using attach_required_failure [OF assms] by blast
  then show ?thesis by (simp add: attach_cloud_coordination_def act_defs)
qed
end
