(* ===== verification/Delivery.thy ===== *)
theory Delivery
  imports Media
begin

text \<open>
  The report of a run in \<^verbatim>\<open>src/runner.py\<close>: writing it, recording it under an idempotency key
  before it is sent, mailing it once, and the guidance of a human that reopens work.
\<close>

section \<open>Operations\<close>

record report_env =
  r_now :: string
  r_clock :: int
  r_reply :: "string res"
  r_mail_key :: "string res"
  r_sent :: "string res"

definition summary_of :: "run_state \<Rightarrow> string \<Rightarrow> string res" where
  "summary_of s h = mechanical_summary (checklist s) (task s) h"

text \<open>The worker holding the turn writes the report; the mechanical summary is the fallback.\<close>

definition report_fallback :: "report_env \<Rightarrow> string \<Rightarrow> string \<Rightarrow> string act" where
  "report_fallback env h exc =
     bindA (note_run (r_now env) (''report generation failed ('' @ exc
              @ ''), sending the mechanical summary'')) (\<lambda>_.
     with_state (\<lambda>s. lift (summary_of s h)))"

definition write_report :: "config \<Rightarrow> report_env \<Rightarrow> string \<Rightarrow> string act" where
  "write_report cfg env h =
     with_state (\<lambda>s.
       bindA (lift (build_report_prompt (checklist s) (task s) h)) (\<lambda>prompt.
       bindA (lift (case map_of (c_agents cfg) (actor s) of
                      None \<Rightarrow> Inl KeyError | Some g \<Rightarrow> Inr g)) (\<lambda>g.
       bindA (emit (Dispatched (actor s))) (\<lambda>_.
         case r_reply env of
           Inl (AgentError exc) \<Rightarrow> report_fallback env h exc
         | Inl e \<Rightarrow> raise e
         | Inr raw \<Rightarrow>
             (let text = strip raw in
              if length text < 80
              then report_fallback env h ''report too short to be real''
              else bindA (note_run (r_now env) (''report written by '' @ actor s)) (\<lambda>_.
                   ret text))))))"

definition report_key :: "run_state \<Rightarrow> int \<Rightarrow> string" where
  "report_key s generation = ''rally-final-report-'' @ run_id s @ ''-'' @ show_int generation"

definition pending_delivery :: "run_state \<Rightarrow> int \<Rightarrow> string option \<Rightarrow> delivery" where
  "pending_delivery s generation request_key =
     \<lparr>d_status = ''pending'', d_generation = generation, d_key = report_key s generation,
      d_request_key = request_key, d_provider_id = None\<rparr>"

definition record_report :: "string \<Rightarrow> string \<Rightarrow> string option \<Rightarrow> unit act" where
  "record_report text h request_key =
     bindA (upd (\<lambda>s.
       let generation = report_generation s + 1 in
       s\<lparr>report := text, report_halt := h, report_generation := generation,
         report_delivery := Some (pending_delivery s generation request_key)\<rparr>)) (\<lambda>_. save)"

text \<open>A run without a delivery record gets one, saved before anything is sent.\<close>

definition ensure_delivery :: "unit act" where
  "ensure_delivery =
     with_state (\<lambda>s.
       case report_delivery s of
         Some d \<Rightarrow> ret ()
       | None \<Rightarrow>
           (let generation = max 1 (if report_generation s \<noteq> 0 then report_generation s else 1) in
            bindA (upd (\<lambda>s. s\<lparr>report_generation := generation,
                     report_delivery := Some (pending_delivery s generation None)\<rparr>)) (\<lambda>_. save)))"

definition set_delivery :: "(delivery \<Rightarrow> delivery) \<Rightarrow> unit act" where
  "set_delivery f = upd (\<lambda>s. s\<lparr>report_delivery := map_option f (report_delivery s)\<rparr>)"

definition submit_report :: "config \<Rightarrow> report_env \<Rightarrow> string \<Rightarrow> delivery \<Rightarrow> unit act" where
  "submit_report cfg env h d =
     bindA (reserve_send cfg (r_clock env) (Some (d_key d))) (\<lambda>_.
     bindA (lift (r_mail_key env)) (\<lambda>key.
     bindA (emit (ReportMailed (d_key d) (fst (classify h)))) (\<lambda>_.
     bindA (lift (r_sent env)) (\<lambda>provider_id.
     bindA (set_delivery (\<lambda>d. d\<lparr>d_status := ''delivered'',
              d_provider_id := (if provider_id \<noteq> [] then Some provider_id else None)\<rparr>)) (\<lambda>_.
     bindA (upd (\<lambda>s.
              let message_id = ''<'' @ run_id s @ ''-report@'' @ MAIL_DOMAIN @ ''>'' in
              s\<lparr>thread_message_id := message_id,
                thread_references := with_prior s @ [message_id]\<rparr>)) (\<lambda>_.
     with_state (\<lambda>s.
     bindA (note_run (r_now env) (''report mailed to '' @ commissioner s cfg)) (\<lambda>_. save))))))))"

definition mail_report :: "config \<Rightarrow> report_env \<Rightarrow> string \<Rightarrow> unit act" where
  "mail_report cfg env h =
     bindA ensure_delivery (\<lambda>_.
     with_state (\<lambda>s.
       case report_delivery s of
         None \<Rightarrow> raise KeyError
       | Some d \<Rightarrow>
           if d_status d \<in> {''delivered'', ''not_required''} then ret ()
           else if \<not> c_mail_enabled cfg \<or> commissioner s cfg = []
           then bindA (set_delivery (\<lambda>d. d\<lparr>d_status := ''not_required''\<rparr>)) (\<lambda>_.
                bindA (note_run (r_now env) ''report delivery not required'') (\<lambda>_. save))
           else submit_report cfg env h d))"


section \<open>Human guidance\<close>

definition reopen :: "item \<Rightarrow> item" where
  "reopen it = (if it_state it \<in> {st_blocked, st_disputed}
     then it\<lparr>it_state := st_open, it_owner := JNull, it_verified_by := JNull\<rparr> else it)"

text \<open>The number \<open>n\<close> of an identifier \<open>cn\<close>.\<close>

definition id_number :: "json \<Rightarrow> nat option" where
  "id_number v =
     (case py_str (py_or v (JStr [])) of
        c # ds \<Rightarrow> (if c = CHR ''c'' \<and> ds \<noteq> [] \<and> list_all is_digit ds then Some (read_nat ds) else None)
      | [] \<Rightarrow> None)"

definition next_item_id :: "item list \<Rightarrow> string" where
  "next_item_id items = ''c'' @ show_nat (Max (insert 0 (set (List.map_filter id_number (map it_id items)))) + 1)"

definition follow_up :: "string \<Rightarrow> string \<Rightarrow> item" where
  "follow_up iid text =
     \<lparr>it_id = JStr iid,
      it_description = JStr (take 420 (''Apply authenticated human follow-up: ''
        @ join '' '' (split_ws text))),
      it_state = st_open, it_owner = JNull, it_verified_by = JNull, it_evidence = JNull,
      it_rejections = 0\<rparr>"

definition restart :: "run_state \<Rightarrow> run_state" where
  "restart s = s\<lparr>halt := None, reprompts := 0, digest_streak := 0\<rparr>"

definition apply_human_note :: "string \<Rightarrow> string \<Rightarrow> run_state \<Rightarrow> string list \<times> run_state" where
  "apply_human_note now text s =
     (let s0 = s\<lparr>human_note := text\<rparr> in
      if stop_requested text then ([], s0)
      else
        let stuck = blocking (checklist s0);
            reopened = map (\<lambda>it. py_str (py_or (it_id it) (JStr []))) stuck;
            s1 = s0\<lparr>checklist := map reopen (checklist s0)\<rparr>
        in
        if reopened \<noteq> [] then
          (reopened, note_line now (''HUMAN RESUME: reopened '' @ join '', '' reopened
             @ '' for normal ownership and independent verification'') (restart s1))
        else if is_complete (checklist s1) then
          (let iid = next_item_id (checklist s1) in
           ([iid], note_line now (''HUMAN REVISION: added '' @ iid
              @ '' without changing prior approvals'')
              (restart (s1\<lparr>checklist := checklist s1 @ [follow_up iid text]\<rparr>))))
        else ([], s1))"


section \<open>A report is mailed at most once\<close>

definition settled :: "run_state \<Rightarrow> bool" where
  "settled s \<longleftrightarrow> (case report_delivery s of None \<Rightarrow> False
     | Some d \<Rightarrow> d_status d \<in> {''delivered'', ''not_required''})"

lemma mail_report_settled: "settled (cur r) \<Longrightarrow> mail_report cfg env h r = (Inr (), r)"
  by (auto simp: settled_def mail_report_def ensure_delivery_def act_defs split: option.splits)

lemma reserve_send_frame:
  "\<exists>res f. reserve_send cfg clock key r = (res, r\<lparr>ledger := f\<rparr>)"
  by (auto simp: reserve_send_def with_state_def split: prod.split)

lemma submit_report_cases [case_names Failed Sent]:
  assumes "report_delivery (cur r) = Some d"
  obtains e tr f where "submit_report cfg env h d r = (Inl e, r\<lparr>ledger := f, trace := tr\<rparr>)"
      "tr = trace r \<or> tr = trace r @ [ReportMailed (d_key d) (fst (classify h))]"
  | s f where "submit_report cfg env h d r = (Inr (), r\<lparr>ledger := f, cur := s, disk := s,
        trace := trace r @ [ReportMailed (d_key d) (fst (classify h))]\<rparr>)"
      "settled s" "map_option d_key (report_delivery s) = Some (d_key d)"
      "core s = core (cur r)" "report s = report (cur r)" "halt s = halt (cur r)"
      "run_id s = run_id (cur r)"
proof -
  note outs = that
  obtain res f where res: "reserve_send cfg (r_clock env) (Some (d_key d)) r = (res, r\<lparr>ledger := f\<rparr>)"
    using reserve_send_frame by blast
  show ?thesis
  proof (cases "\<exists>u k p. res = Inr u \<and> r_mail_key env = Inr k \<and> r_sent env = Inr p")
    case True
    with res assms show ?thesis
      by (intro outs(2) [where f = f and s = "cur (snd (submit_report cfg env h d r))"])
        (auto simp: submit_report_def act_defs set_delivery_def note_line_def settled_def core_def Let_def)
  next
    case False
    then consider e where "res = Inl e" | u e where "res = Inr u" "r_mail_key env = Inl e"
      | u k e where "res = Inr u" "r_mail_key env = Inr k" "r_sent env = Inl e"
      by (cases res; cases "r_mail_key env"; cases "r_sent env") auto
    then show ?thesis
    proof cases
      case 1
      with res show ?thesis
        by (intro outs(1) [where e = e and f = f and tr = "trace r"]) (auto simp: submit_report_def act_defs)
    next
      case 2
      with res show ?thesis
        by (intro outs(1) [where e = e and f = f and tr = "trace r"]) (auto simp: submit_report_def act_defs)
    next
      case 3
      with res show ?thesis
        by (intro outs(1) [where e = e and f = f and tr = "trace r @ [ReportMailed (d_key d) (fst (classify h))]"])
          (auto simp: submit_report_def act_defs)
    qed
  qed
qed

text \<open>
  Mailing a report either settles it, or raises and leaves it pending on disk under the key
  it had. What it hands to the provider carries that key.
\<close>

definition delivery_key :: "run_state \<Rightarrow> string" where
  "delivery_key s = (case report_delivery s of
     Some d \<Rightarrow> d_key d
   | None \<Rightarrow> report_key s (max 1 (if report_generation s \<noteq> 0 then report_generation s else 1)))"

lemma delivery_key_Some: "report_delivery s = Some d \<Longrightarrow> delivery_key s = d_key d"
  by (simp add: delivery_key_def)

lemma ensure_delivery_cases:
  obtains s d where "ensure_delivery r = (Inr (), r\<lparr>cur := s, disk := if report_delivery (cur r) = None then s else disk r\<rparr>)"
    "report_delivery s = Some d" "d_key d = delivery_key (cur r)"
    "report_delivery (cur r) = None \<longrightarrow> d_status d = ''pending''"
    "core s = core (cur r)" "report s = report (cur r)" "halt s = halt (cur r)"
    "run_id s = run_id (cur r)" "report_delivery (cur r) \<noteq> None \<Longrightarrow> s = cur r"
proof (cases "report_delivery (cur r)")
  case (Some d)
  then show ?thesis
    by (intro that [of "cur r" d]) (auto simp: ensure_delivery_def act_defs delivery_key_def)
next
  case None
  then show ?thesis
    by (intro that [of "cur (snd (ensure_delivery r))" "the (report_delivery (cur (snd (ensure_delivery r))))"])
      (auto simp: ensure_delivery_def act_defs delivery_key_def pending_delivery_def report_key_def
        core_def Let_def)
qed

lemma mail_report_outcome:
  assumes "mail_report cfg env h r = (res, r')" and "disk r = cur r"
  shows "disk r' = cur r' \<and> core (cur r') = core (cur r) \<and> report (cur r') = report (cur r)
    \<and> halt (cur r') = halt (cur r) \<and> delivery_key (cur r') = delivery_key (cur r)
    \<and> (res = Inr () \<longrightarrow> settled (disk r'))
    \<and> (res \<noteq> Inr () \<longrightarrow> \<not> settled (disk r'))
    \<and> (trace r' = trace r
       \<or> \<not> settled (cur r) \<and> trace r' = trace r @ [ReportMailed (delivery_key (cur r)) (fst (classify h))])"
proof (cases rule: ensure_delivery_cases [of r])
  case s: (1 s d)
  let ?r = "r\<lparr>cur := s, disk := s\<rparr>"
  have "r\<lparr>cur := s, disk := if report_delivery (cur r) = None then s else disk r\<rparr> = ?r"
    using s(9) assms(2) by (cases "report_delivery (cur r)") auto
  with s(1) have e: "ensure_delivery r = (Inr (), ?r)" by metis
  show ?thesis
  proof (cases "d_status d \<in> {''delivered'', ''not_required''}")
    case True
    with s(4) have "report_delivery (cur r) \<noteq> None" by auto
    with s(9) have "s = cur r" by blast
    with True s(2) have "settled (cur r)" by (simp add: settled_def)
    with mail_report_settled [of r cfg env h] assms show ?thesis by simp
  next
    case pending: False
    then have unsettled: "\<not> settled (cur r)"
      using s(2,9) by (cases "report_delivery (cur r)") (auto simp: settled_def)
    from s(2,3) have key: "delivery_key s = delivery_key (cur r)" by (simp add: delivery_key_def)
    show ?thesis
    proof (cases "\<not> c_mail_enabled cfg \<or> commissioner s cfg = []")
      case True
      let ?t = "note_line (r_now env) ''report delivery not required''
          (s\<lparr>report_delivery := Some (d\<lparr>d_status := ''not_required''\<rparr>)\<rparr>)"
      from assms(1) e s(2) pending True have r': "res = Inr ()" "r' = r\<lparr>cur := ?t, disk := ?t\<rparr>"
        by (simp_all add: mail_report_def act_defs set_delivery_def)
      have "settled ?t" "delivery_key ?t = d_key d" "core ?t = core s" "report ?t = report s"
        "halt ?t = halt s"
        by (simp_all add: settled_def delivery_key_def note_line_def core_def)
      with r' s(3,5-7) show ?thesis by simp
    next
      case False
      with assms e s(2) pending have m: "submit_report cfg env h d ?r = (res, r')"
        by (auto simp: mail_report_def act_defs)
      from s(2) have "report_delivery (cur ?r) = Some d" by simp
      then show ?thesis
      proof (cases rule: submit_report_cases [of ?r d cfg env h])
        case (Failed x tr f)
        with m have "res = Inl x" "r' = ?r\<lparr>ledger := f, trace := tr\<rparr>" by simp_all
        moreover have "\<not> settled s" using pending s(2) by (simp add: settled_def)
        ultimately show ?thesis using Failed(2) s(3,5-7) key unsettled by auto
      next
        case (Sent t f)
        from Sent(3) have "delivery_key t = d_key d"
          by (cases "report_delivery t") (simp_all add: delivery_key_def)
        moreover from Sent(1) m have "res = Inr ()" "r' = ?r\<lparr>ledger := f, cur := t, disk := t,
            trace := trace r @ [ReportMailed (d_key d) (fst (classify h))]\<rparr>" by simp_all
        ultimately show ?thesis using Sent(2,4-7) s(3,5-8) unsettled by simp
      qed
    qed
  qed
qed

text \<open>Each report of a run has a key of its own.\<close>

lemma report_key_inj: "report_key s g = report_key s g' \<longleftrightarrow> g = g'"
  by (simp add: report_key_def)

lemma record_report_out:
  "record_report text h key r = (Inr (), snd (record_report text h key r))"
  "disk (snd (record_report text h key r)) = cur (snd (record_report text h key r))"
  "core (cur (snd (record_report text h key r))) = core (cur r)"
  "report (cur (snd (record_report text h key r))) = text"
  "\<not> settled (cur (snd (record_report text h key r)))"
  "delivery_key (cur (snd (record_report text h key r))) = report_key (cur r) (report_generation (cur r) + 1)"
  "halt (cur (snd (record_report text h key r))) = halt (cur r)"
  "trace (snd (record_report text h key r)) = trace r"
  by (simp_all add: record_report_def act_defs Let_def pending_delivery_def settled_def core_def
      delivery_key_def report_key_def)

lemma write_report_frame:
  assumes "write_report cfg env h r = (res, r')"
  shows "core (cur r') = core (cur r) \<and> disk r' = disk r \<and> halt (cur r') = halt (cur r)
    \<and> report_delivery (cur r') = report_delivery (cur r)"
  using assms
  by (auto simp: write_report_def report_fallback_def act_defs note_line_def core_def Let_def summary_of_def
      split: sum.splits option.splits exn.splits if_splits)

text \<open>The report is the text of the worker, or the mechanical summary; it is never too short to read.\<close>

lemma write_report_text:
  assumes "write_report cfg env h r = (Inr text, r')"
  shows "(\<exists>raw. r_reply env = Inr raw \<and> text = strip raw \<and> 80 \<le> length text)
    \<or> mechanical_summary (checklist (cur r)) (task (cur r)) h = Inr text"
  using assms
  by (auto simp: write_report_def report_fallback_def act_defs note_line_def Let_def summary_of_def
      split: sum.splits option.splits exn.splits if_splits)

text \<open>A checklist entry that cannot be sliced blocks the report, whoever writes it.\<close>

lemma write_report_unsliceable:
  assumes "it \<in> set (checklist (cur r))" and "\<not> sliceable (it_description it)"
  shows "\<exists>e. write_report cfg env h r = (Inl e, r)"
proof -
  have "\<not> (\<exists>l. prompt_line it = Inr l)" using assms(2) by (simp add: lines_defined)
  then have "\<not> (\<exists>ys. mapE prompt_line (checklist (cur r)) = Inr ys)"
    using assms(1) unfolding mapE_defined by blast
  then obtain e where "mapE prompt_line (checklist (cur r)) = Inl e"
    by (cases "mapE prompt_line (checklist (cur r))") auto
  then show ?thesis by (simp add: write_report_def build_report_prompt_def act_defs)
qed


section \<open>What a human note may change\<close>

lemma reopen_cases: "reopen it = it \<or> it_state (reopen it) = st_open \<and> it_state it \<in> {st_blocked, st_disputed}"
  by (simp add: reopen_def)

lemma reopen_id [simp]: "it_id (reopen it) = it_id it"
  by (simp add: reopen_def)

lemma reopen_ok: "item_ok it \<Longrightarrow> item_ok (reopen it)"
  using reopen_cases [of it] new_item_ok [of "reopen it"] by (auto simp: item_ok_def)

lemma blocking_Nil: "blocking items = [] \<Longrightarrow> map reopen items = items"
  by (rule map_idI) (auto simp: blocking_def filter_empty_conv reopen_def)

lemma next_item_id_fresh: "JStr (next_item_id items) \<notin> it_id ` set items"
proof
  let ?ns = "insert 0 (set (List.map_filter id_number (map it_id items)))"
  let ?n = "Max ?ns + 1"
  assume "JStr (next_item_id items) \<in> it_id ` set items"
  then have "JStr (''c'' @ show_nat ?n) \<in> set (map it_id items)" by (simp add: next_item_id_def)
  moreover have "id_number (JStr (''c'' @ show_nat ?n)) = Some ?n"
    using show_nat_digits [of ?n] by (simp add: id_number_def list_all_iff)
  ultimately have "?n \<in> set (List.map_filter id_number (map it_id items))"
    by (force simp: List.map_filter_def)
  then have "?n \<le> Max ?ns" by (intro Max_ge) auto
  then show False by simp
qed

lemma follow_up_ok: "item_ok (follow_up iid text)"
  by (rule new_item_ok) (simp_all add: follow_up_def)

lemma apply_human_note_cases [case_names Stop Reopened Follow_up Unchanged]:
  obtains "stop_requested text"
      "apply_human_note now text s = ([], s\<lparr>human_note := text\<rparr>)"
  | ids t where "\<not> stop_requested text" "blocking (checklist s) \<noteq> []"
      "apply_human_note now text s = (ids, t)" "ids \<noteq> []"
      "checklist t = map reopen (checklist s)" "halt t = None" "human_note t = text"
      "turn t = turn s" "cont t = cont s" "actor t = actor s" "agent_order t = agent_order s"
  | iid t where "\<not> stop_requested text" "blocking (checklist s) = []" "is_complete (checklist s)"
      "apply_human_note now text s = ([iid], t)" "iid = next_item_id (checklist s)"
      "checklist t = checklist s @ [follow_up iid text]" "halt t = None" "human_note t = text"
      "turn t = turn s" "cont t = cont s" "actor t = actor s" "agent_order t = agent_order s"
  | "\<not> stop_requested text" "blocking (checklist s) = []" "\<not> is_complete (checklist s)"
      "apply_human_note now text s = ([], s\<lparr>human_note := text\<rparr>)"
proof (cases "stop_requested text")
  case True
  then show ?thesis by (intro that(1)) (simp_all add: apply_human_note_def)
next
  case run: False
  note outs = that
  let ?out = "apply_human_note now text s"
  show ?thesis
  proof (cases "blocking (checklist s) = []")
    case False
    with run show ?thesis
      by (intro outs(2) [where ids = "fst ?out" and t = "snd ?out"])
        (simp_all add: apply_human_note_def Let_def note_line_def restart_def)
  next
    case True
    note same = blocking_Nil [OF True]
    show ?thesis
    proof (cases "is_complete (checklist s)")
      case c: True
      with run True show ?thesis
        by (intro outs(3) [where iid = "hd (fst ?out)" and t = "snd ?out"])
          (simp_all add: apply_human_note_def Let_def note_line_def restart_def same)
    next
      case False
      with run True show ?thesis
        by (intro outs(4)) (simp_all add: apply_human_note_def Let_def same)
    qed
  qed
qed

text \<open>
  A note never finishes an item and never touches a finished one: the finished items are the
  same before and after it.
\<close>

lemma finished_reopen: "finished (map reopen items) = finished items"
  by (induction items) (auto simp: finished_def reopen_def)

lemma apply_human_note_finished:
  "finished (checklist (snd (apply_human_note now text s))) = finished (checklist s)"
  by (cases rule: apply_human_note_cases [of "text" now s])
    (auto simp: finished_reopen, simp add: finished_def follow_up_def)

lemma apply_human_note_ok:
  assumes "run_ok s"
  shows "run_ok (snd (apply_human_note now text s))"
  using assms
  by (cases rule: apply_human_note_cases [of "text" now s])
    (auto simp: run_ok_def checklist_ok_def list_all_iff reopen_ok follow_up_ok)
end
