(* ===== verification/Commission.thy ===== *)
theory Commission
  imports Coordinator Delivery
begin

text \<open>
  The intake of \<^verbatim>\<open>src/runner.py\<close>: creating a run, recovering the run of a replayed
  request, handling a commission and a note from start to report, and the serve loop over a
  batch of ingress messages.
\<close>

section \<open>The site\<close>

text \<open>
  The runs directory (in listing order), the shared send ledger, what left the process, and
  the quarantine file.
\<close>

record site =
  runs :: "(string \<times> run_state) list"
  sends :: ledger_file
  history :: "effect list"
  quarantined :: "(string \<times> string) list"

text \<open>
  What a handler meets: the clock, a fresh identifier, the connector component, the
  coordinator, the media provider, the workers' turns and the mail provider.
\<close>

record site_env =
  se_now :: string
  se_cwd :: string
  se_new_id :: string
  se_isolated :: "string \<Rightarrow> unit res"
  se_prepare :: "string \<Rightarrow> string \<Rightarrow> string res"
  se_workspace :: "string \<Rightarrow> string"
  se_coord :: coord_env
  se_media :: media_env
  se_turns :: "nat \<Rightarrow> turn_env"
  se_report :: report_env

type_synonym 'a site_act = "site \<Rightarrow> 'a res \<times> site"

text \<open>An action on one run, loaded from the site and written back to it.\<close>

definition on_run :: "string \<Rightarrow> run_state \<Rightarrow> 'a act \<Rightarrow> 'a site_act" where
  "on_run rid s m w =
     (case m \<lparr>cur = s, disk = s, ledger = sends w, trace = history w\<rparr> of
        (res, r) \<Rightarrow> (res, w\<lparr>runs := AList.update rid (disk r) (runs w),
                              sends := ledger r, history := trace r\<rparr>))"


section \<open>Creating and finding runs\<close>

definition run_id_char :: "char \<Rightarrow> bool" where
  "run_id_char c \<longleftrightarrow> is_digit c \<or> (97 \<le> (of_char c :: nat) \<and> (of_char c :: nat) \<le> 122) \<or> c = CHR ''-''"

definition valid_run_id :: "string \<Rightarrow> bool" where
  "valid_run_id s \<longleftrightarrow> starts_with s ''r-'' \<and> 5 \<le> length s \<and> length s \<le> 79
     \<and> list_all run_id_char (drop 2 s)"

definition workspace_start :: "char \<Rightarrow> bool" where
  "workspace_start c \<longleftrightarrow> is_digit c \<or> (97 \<le> (of_char c :: nat) \<and> (of_char c :: nat) \<le> 122)
     \<or> (65 \<le> (of_char c :: nat) \<and> (of_char c :: nat) \<le> 90)"

record commission =
  co_task :: string
  co_sender :: string
  co_message_id :: string
  co_request_key :: string
  co_run_id :: string
  co_source_run_id :: string
  co_second_wind :: "bool option"
  co_workspace_id :: "string option"

definition chosen_policy :: "config \<Rightarrow> bool option \<Rightarrow> continuity" where
  "chosen_policy cfg choice =
     (let policy = continuity_policy cfg in
      case choice of
        None \<Rightarrow> policy
      | Some wanted \<Rightarrow>
          (let enabled = (wanted \<and> ct_max policy > 0)
           in policy\<lparr>ct_second_wind := enabled,
                     ct_mode := (if enabled then ''second_wind'' else ''halt'')\<rparr>))"

definition new_state :: "config \<Rightarrow> string \<Rightarrow> string \<Rightarrow> string \<Rightarrow> commission \<Rightarrow> run_state" where
  "new_state cfg now cwd rid c =
     (let order = configured_agent_order cfg in
      \<lparr>run_id = rid, task = co_task c, workdir = cwd, turn = 0, actor = hd order,
       agent_order = order, checklist = [], halt = None, violations = [], human_note = [],
       digest_streak = 0, last_digest = [], created = now, log = [], turns = [],
       thread_message_id = co_message_id c,
       thread_references = (if co_message_id c \<noteq> [] then [co_message_id c] else []),
       reprompts = 0, commission_message_id = co_message_id c,
       commission_request_key = (if co_request_key c \<noteq> [] then co_request_key c else rid),
       commissioned_by = co_sender c,
       workspace_id = (case co_workspace_id c of None \<Rightarrow> [] | Some x \<Rightarrow> x),
       source_run_id = co_source_run_id c, cont = chosen_policy cfg (co_second_wind c),
       containment = [], report = [], report_halt = [], report_generation = 0,
       report_delivery = None, connector_authority = None, cloud = None, media = []\<rparr>)"

definition validate_workspace_id :: "string option \<Rightarrow> string option res" where
  "validate_workspace_id v =
     (case v of
        None \<Rightarrow> Inr None
      | Some x \<Rightarrow>
          (let candidate = strip x in
           if candidate \<noteq> [] \<and> length candidate \<le> 96 \<and> workspace_start (hd candidate)
              \<and> list_all (\<lambda>c. workspace_start c \<or> c \<in> {CHR ''.'', CHR ''_'', CHR '':'', CHR ''-''}) candidate
           then Inr (Some candidate) else Inl (ConsoleError ''console workspace_id is not configured'')))"

text \<open>
  \<open>Run.create\<close>: the state is published under its directory only when that does not exist;
  the connector authority is written afterwards, so an exception there leaves a run without
  authority, which \<open>initialize_commission_run\<close> completes on the next delivery.
\<close>

definition publish_run :: "string \<Rightarrow> run_state \<Rightarrow> site \<Rightarrow> site" where
  "publish_run rid s w = w\<lparr>runs := runs w @ [(rid, s)]\<rparr>"

definition chosen_run_id :: "site_env \<Rightarrow> commission \<Rightarrow> string" where
  "chosen_run_id env c = (if co_run_id c \<noteq> [] then co_run_id c else se_new_id env)"

definition create_run :: "config \<Rightarrow> site_env \<Rightarrow> commission \<Rightarrow> string site_act" where
  "create_run cfg env c w =
     (let rid = chosen_run_id env c in
      if \<not> valid_run_id rid then (Inl ValueError, w)
      else
        case validate_workspace_id (co_workspace_id c) of
          Inl e \<Rightarrow> (Inl e, w)
        | Inr ws \<Rightarrow>
            (case se_isolated env (co_sender c) of
               Inl e \<Rightarrow> (Inl e, w)
             | Inr _ \<Rightarrow>
                 if rid \<in> fst ` set (runs w)
                 then (Inl (FileExistsError (''run directory already exists: '' @ rid)), w)
                 else
                   let s = new_state cfg (se_now env) (se_cwd env) rid (c\<lparr>co_workspace_id := ws\<rparr>);
                       w1 = publish_run rid s w
                   in
                   on_run rid s
                     (bindA (lift (se_prepare env rid (co_sender c))) (\<lambda>authority.
                      bindA (upd (\<lambda>s. s\<lparr>connector_authority := Some authority\<rparr>)) (\<lambda>_.
                      bindA save (\<lambda>_. ret rid)))) w1))"

definition same_commission :: "string \<Rightarrow> string \<Rightarrow> run_state \<Rightarrow> bool" where
  "same_commission request_key message_id s \<longleftrightarrow>
     request_key \<noteq> [] \<and> commission_request_key s = request_key
     \<or> message_id \<noteq> [] \<and> (commission_message_id s = message_id
          \<or> message_id \<in> set (thread_references s))"

text \<open>\<open>max(matches, key=created)\<close>: the first of the latest.\<close>

fun latest :: "(string \<times> run_state) list \<Rightarrow> (string \<times> run_state) option" where
  "latest [] = None"
| "latest (p # ps) =
     (case latest ps of
        None \<Rightarrow> Some p
      | Some q \<Rightarrow> if created (snd p) < created (snd q) then Some q else Some p)"

definition find_commission :: "string \<Rightarrow> string \<Rightarrow> site \<Rightarrow> (string \<times> run_state) option" where
  "find_commission request_key message_id w =
     (if request_key = [] \<and> message_id = [] then None
      else latest (filter (\<lambda>p. valid_run_id (fst p)
             \<and> same_commission request_key message_id (snd p)) (runs w)))"


section \<open>Handling a commission\<close>

definition report_reason :: "run_state \<Rightarrow> string" where
  "report_reason s =
     (if report_halt s \<noteq> [] then report_halt s
      else case halt s of
        Some x \<Rightarrow> if h_reason x \<noteq> [] then h_reason x else ''complete''
      | None \<Rightarrow> ''complete'')"

text \<open>The end of a run: the report is written, recorded, projected and mailed.\<close>

definition conclude :: "config \<Rightarrow> site_env \<Rightarrow> string \<Rightarrow> string \<Rightarrow> string option \<Rightarrow> unit act" where
  "conclude cfg env text h key =
     bindA (record_report text h key) (\<lambda>_.
     bindA sync_console (\<lambda>_. mail_report cfg (se_report env) h))"

definition run_to_report :: "config \<Rightarrow> site_env \<Rightarrow> string option \<Rightarrow> unit act" where
  "run_to_report cfg env key =
     bindA (loop cfg (se_turns env) 0) (\<lambda>h.
     bindA (write_report cfg (se_report env) h) (\<lambda>text. conclude cfg env text h key))"

definition initialize_commission_run :: "site_env \<Rightarrow> string \<Rightarrow> unit act" where
  "initialize_commission_run env subject =
     with_state (\<lambda>s.
       let directory = se_workspace env (run_id s); moved = (workdir s \<noteq> directory) in
       bindA (if moved then upd (\<lambda>s. s\<lparr>workdir := directory\<rparr>) else ret ()) (\<lambda>_.
       bindA (if connector_authority s \<noteq> None then ret ()
              else
                bindA (lift (se_isolated env subject)) (\<lambda>_.
                bindA (lift (se_prepare env (run_id s) subject)) (\<lambda>authority.
                upd (\<lambda>s. s\<lparr>connector_authority := Some authority\<rparr>)))) (\<lambda>_.
       if moved \<or> connector_authority s = None then save else ret ())))"

definition start_run :: "config \<Rightarrow> site_env \<Rightarrow> string \<Rightarrow> string \<Rightarrow> unit act" where
  "start_run cfg env sender message_id =
     bindA (initialize_commission_run env sender) (\<lambda>_.
     with_state (\<lambda>s.
       let key = (if commission_request_key s \<noteq> [] then commission_request_key s
                  else if message_id \<noteq> [] then message_id else run_id s) in
       bindA (attach_cloud_coordination (se_coord env) (se_now env) key) (\<lambda>ok.
       if \<not> ok then
         with_state (\<lambda>s.
         bindA (lift (summary_of s ''cloud_coordinator_error'')) (\<lambda>text.
           conclude cfg env text ''cloud_coordinator_error'' (Some key)))
       else
         bindA (prepare_media (se_media env) (se_now env) [] False) (\<lambda>_.
         bindA sync_console (\<lambda>_. run_to_report cfg env (Some key))))))"

text \<open>A delivery that finds its run: the report is re-sent, or the run goes on.\<close>

definition recover_run :: "config \<Rightarrow> site_env \<Rightarrow> commission \<Rightarrow> unit act" where
  "recover_run cfg env c =
     with_state (\<lambda>s.
       if report s \<noteq> [] then
         (if settled s
          then bindA (note_run (se_now env)
                 ''duplicate commission ignored after terminal report delivery'') (\<lambda>_. save)
          else
            bindA (note_run (se_now env) ''retrying pending final report delivery'') (\<lambda>_.
            bindA save (\<lambda>_. mail_report cfg (se_report env) (report_reason s))))
       else
         bindA (upd (\<lambda>s. s\<lparr>halt := None\<rparr>)) (\<lambda>_.
         bindA (note_run (se_now env) ''resuming incomplete commission after delivery retry'') (\<lambda>_.
         start_run cfg env (co_sender c) (co_message_id c))))"

definition durable_key :: "commission \<Rightarrow> string" where
  "durable_key c = (if co_request_key c \<noteq> [] then co_request_key c
     else if co_message_id c \<noteq> [] then co_message_id c else co_run_id c)"

definition bind_site :: "'a site_act \<Rightarrow> ('a \<Rightarrow> 'b site_act) \<Rightarrow> 'b site_act" where
  "bind_site m f w = (case m w of (Inl e, w') \<Rightarrow> (Inl e, w') | (Inr x, w') \<Rightarrow> f x w')"

definition stored_run :: "site \<Rightarrow> string \<Rightarrow> run_state option" where
  "stored_run w rid = map_of (runs w) rid"

text \<open>A request that finds its run goes on with it, in the workspace it was made for.\<close>

definition resume_commission ::
    "config \<Rightarrow> site_env \<Rightarrow> commission \<Rightarrow> string \<Rightarrow> run_state \<Rightarrow> string site_act" where
  "resume_commission cfg env c rid s w =
     (if co_workspace_id c \<noteq> None \<and> co_workspace_id c \<noteq> Some (workspace_id s)
      then (Inl (RuntimeError ''commission workspace does not match its durable run''), w)
      else on_run rid s (bindA (recover_run cfg env c) (\<lambda>_. ret (run_id s))) w)"

definition begin_commission :: "config \<Rightarrow> site_env \<Rightarrow> commission \<Rightarrow> string site_act" where
  "begin_commission cfg env c =
     bind_site (create_run cfg env (c\<lparr>co_request_key := durable_key c\<rparr>)) (\<lambda>rid w.
       case stored_run w rid of
         None \<Rightarrow> (Inl KeyError, w)
       | Some s \<Rightarrow>
           on_run rid s (bindA (start_run cfg env (co_sender c) (co_message_id c)) (\<lambda>_. ret rid)) w)"

definition handle_commission :: "config \<Rightarrow> site_env \<Rightarrow> commission \<Rightarrow> string site_act" where
  "handle_commission cfg env c w =
     (case validate_workspace_id (co_workspace_id c) of
        Inl e \<Rightarrow> (Inl e, w)
      | Inr ws \<Rightarrow>
          (let c1 = c\<lparr>co_workspace_id := ws\<rparr> in
           case find_commission (durable_key c) (co_message_id c) w of
             Some (rid, s) \<Rightarrow> resume_commission cfg env c1 rid s w
           | None \<Rightarrow> begin_commission cfg env c1 w))"


section \<open>Handling a note\<close>

record note_request =
  n_run_id :: string
  n_text :: string
  n_message_id :: string
  n_sender :: string
  n_request_key :: string

definition note_key :: "note_request \<Rightarrow> string" where
  "note_key n = (if n_request_key n \<noteq> [] then n_request_key n else n_message_id n)"

definition normal_address :: "string \<Rightarrow> string" where "normal_address a = lower (strip a)"

definition may_note :: "run_state \<Rightarrow> note_request \<Rightarrow> bool" where
  "may_note s n \<longleftrightarrow> normal_address (commissioned_by s) \<noteq> []
     \<and> normal_address (n_sender n) = normal_address (commissioned_by s)"

text \<open>The report that answers this very note exists already.\<close>

definition already_answered :: "run_state \<Rightarrow> note_request \<Rightarrow> bool" where
  "already_answered s n \<longleftrightarrow> note_key n \<noteq> [] \<and> report s \<noteq> []
     \<and> (case report_delivery s of None \<Rightarrow> False | Some d \<Rightarrow> d_request_key d = Some (note_key n))"

definition stage_note :: "string \<Rightarrow> note_request \<Rightarrow> unit act" where
  "stage_note now n =
     bindA (upd (\<lambda>s. snd (apply_human_note now (n_text n) s))) (\<lambda>_.
     bindA (if n_message_id n \<noteq> []
            then upd (\<lambda>s. s\<lparr>thread_message_id := n_message_id n,
                           thread_references := with_prior s @ [n_message_id n]\<rparr>)
            else ret ()) (\<lambda>_. save))"

definition answer_note :: "config \<Rightarrow> site_env \<Rightarrow> note_request \<Rightarrow> unit act" where
  "answer_note cfg env n =
     (let key = (if note_key n \<noteq> [] then Some (note_key n) else None) in
      bindA (stage_note (se_now env) n) (\<lambda>_.
      if stop_requested (n_text n) then
        bindA (set_halt ''stopped_by_human'' (n_text n)) (\<lambda>_.
        bindA save (\<lambda>_.
        with_state (\<lambda>s.
        bindA (lift (summary_of s ''stopped_by_human'')) (\<lambda>text.
          conclude cfg env text ''stopped_by_human'' key))))
      else
        bindA (prepare_media (se_media env) (se_now env) (n_text n) True) (\<lambda>_.
          run_to_report cfg env key)))"

definition note_body :: "config \<Rightarrow> site_env \<Rightarrow> note_request \<Rightarrow> unit act" where
  "note_body cfg env n =
     with_state (\<lambda>s.
       if \<not> may_note s n then raise (NoteRejected ''note sender is not the run commissioner'')
       else if already_answered s n then
         (if settled s then ret ()
          else bindA sync_console (\<lambda>_. mail_report cfg (se_report env) (report_reason s)))
       else answer_note cfg env n)"

definition handle_note :: "config \<Rightarrow> site_env \<Rightarrow> note_request \<Rightarrow> unit site_act" where
  "handle_note cfg env n w =
     (case stored_run w (n_run_id n) of
        None \<Rightarrow> (Inr (), w)
      | Some s \<Rightarrow> on_run (n_run_id n) s (note_body cfg env n) w)"


section \<open>One pass of the serve loop\<close>

datatype message_body =
    M_Commission commission
  | M_Note note_request
  | M_Other string

record message =
  m_id :: string
  m_retryable :: bool
  m_body :: message_body

definition keyed_note :: "message \<Rightarrow> note_request \<Rightarrow> note_request" where
  "keyed_note m n = n\<lparr>n_request_key := m_id m\<rparr>"

definition keyed_commission :: "message \<Rightarrow> commission \<Rightarrow> commission" where
  "keyed_commission m c =
     c\<lparr>co_request_key := (if co_request_key c \<noteq> [] then co_request_key c else m_id m)\<rparr>"

definition quarantine :: "message \<Rightarrow> string \<Rightarrow> site \<Rightarrow> site" where
  "quarantine m reason w = w\<lparr>quarantined := quarantined w @ [(m_id m, reason)]\<rparr>"

text \<open>Whether the message is to be acknowledged, and the site after it.\<close>

definition serve_message :: "config \<Rightarrow> site_env \<Rightarrow> message \<Rightarrow> site \<Rightarrow> bool \<times> site" where
  "serve_message cfg env m w =
     (if m_retryable m then (False, w)
      else
        case m_body m of
          M_Commission c \<Rightarrow>
            (case handle_commission cfg env (keyed_commission m c) w of
               (Inr rid, w') \<Rightarrow> (True, w')
             | (Inl (NoteRejected msg), w') \<Rightarrow> (True, quarantine m msg w')
             | (Inl e, w') \<Rightarrow> (False, w'))
        | M_Note n \<Rightarrow>
            (case handle_note cfg env (keyed_note m n) w of
               (Inr u, w') \<Rightarrow> (True, w')
             | (Inl (NoteRejected msg), w') \<Rightarrow> (True, quarantine m msg w')
             | (Inl e, w') \<Rightarrow> (False, w'))
        | M_Other why \<Rightarrow> (True, quarantine m (if why \<noteq> [] then why else ''ignored'') w))"

fun serve_pass ::
    "config \<Rightarrow> (nat \<Rightarrow> site_env) \<Rightarrow> nat \<Rightarrow> message list \<Rightarrow> site \<Rightarrow> string list \<times> site" where
  "serve_pass cfg envs i [] w = ([], w)"
| "serve_pass cfg envs i (m # ms) w =
     (let (ok, w1) = serve_message cfg (envs i) m w;
          (acks, w2) = serve_pass cfg envs (Suc i) ms w1
      in (if ok then m_id m # acks else acks, w2))"


section \<open>Operator commands\<close>

definition cmd_stop :: "string \<Rightarrow> string \<Rightarrow> int site_act" where
  "cmd_stop rid detail w =
     (case stored_run w rid of
        None \<Rightarrow> (Inr 1, w)
      | Some s \<Rightarrow>
          on_run rid s (bindA (set_halt ''stopped_by_human'' detail) (\<lambda>_.
                        bindA save (\<lambda>_. bindA sync_console (\<lambda>_. ret 0)))) w)"

definition retry_body :: "config \<Rightarrow> site_env \<Rightarrow> int act" where
  "retry_body cfg env =
     bindA (upd (\<lambda>s. s\<lparr>halt := None\<rparr>)) (\<lambda>_.
     bindA save (\<lambda>_.
     bindA (loop cfg (se_turns env) 0) (\<lambda>h.
     bindA (write_report cfg (se_report env) h) (\<lambda>text.
     bindA (record_report text h None) (\<lambda>_.
     bindA sync_console (\<lambda>_.
     bindA (catch_blocked (mail_report cfg (se_report env) h)
              (\<lambda>msg. note_run (se_now env) (''report not mailed: '' @ msg))) (\<lambda>_. ret 0)))))))"

definition cmd_retry :: "config \<Rightarrow> site_env \<Rightarrow> string \<Rightarrow> int site_act" where
  "cmd_retry cfg env rid w =
     (case stored_run w rid of
        None \<Rightarrow> (Inr 1, w)
      | Some s \<Rightarrow>
          (let reason = (case halt s of None \<Rightarrow> [] | Some x \<Rightarrow> h_reason x) in
           if reason = [] \<or> reason = ''complete'' then (Inr 1, w)
           else on_run rid s (retry_body cfg env) w))"
end
