(* ===== verification/Frames.thy ===== *)
theory Frames
  imports Commission
begin

text \<open>
  Invariants of a run that no turn touches, as an interface: a predicate on the rig that
  survives the few primitive steps of \<^verbatim>\<open>src/runner.py\<close> survives a turn, the loop and the
  preparation of a run. Two instances: the identity of a run never changes, and nothing but
  \<open>mail_report\<close> mails a report.
\<close>

section \<open>What identifies a run\<close>

definition ident :: "run_state \<Rightarrow> string \<times> string \<times> string \<times> string \<times> string \<times> string" where
  "ident s = (run_id s, commission_request_key s, commission_message_id s, commissioned_by s,
     workspace_id s, source_run_id s)"

fun is_report :: "effect \<Rightarrow> bool" where
  "is_report (ReportMailed k st) = True"
| "is_report _ = False"

lemma ident_advance: "ident (advance cfg now a s) = ident s"
  by (simp add: advance_def finish_second_wind_def note_line_def ident_def Let_def split: option.split)

lemma keeps_case_option [keeps_intros]:
  "keeps P m \<Longrightarrow> (\<And>x. keeps P (f x)) \<Longrightarrow> keeps P (case_option m f v)"
  by (cases v) simp_all

lemma keeps_case_sum [keeps_intros]:
  "(\<And>e. keeps P (f e)) \<Longrightarrow> (\<And>x. keeps P (g x)) \<Longrightarrow> keeps P (case_sum f g v)"
  by (cases v) simp_all

lemma keeps_case_exn [keeps_intros]:
  "keeps P a1 \<Longrightarrow> keeps P a2 \<Longrightarrow> keeps P a3 \<Longrightarrow> keeps P a4 \<Longrightarrow>
     (\<And>x. keeps P (a5 x)) \<Longrightarrow>
     (\<And>x. keeps P (a6 x)) \<Longrightarrow>
     (\<And>x. keeps P (a7 x)) \<Longrightarrow>
     (\<And>x. keeps P (a8 x)) \<Longrightarrow>
     (\<And>x. keeps P (a9 x)) \<Longrightarrow>
     (\<And>x. keeps P (a10 x)) \<Longrightarrow>
     (\<And>x. keeps P (a11 x)) \<Longrightarrow>
     (\<And>x. keeps P (a12 x)) \<Longrightarrow>
     (\<And>x. keeps P (a13 x)) \<Longrightarrow>
     (\<And>x. keeps P (a14 x)) \<Longrightarrow>
     keeps P (case_exn a1 a2 a3 a4 a5 a6 a7 a8 a9 a10 a11 a12 a13 a14 e)"
  by (cases e) simp_all


section \<open>The interface\<close>

named_theorems frame_intros

locale turn_frame =
  fixes I :: "rig \<Rightarrow> bool"
  assumes upd_kept: "I r \<Longrightarrow> ident (f (cur r)) = ident (cur r) \<Longrightarrow> I (r\<lparr>cur := f (cur r)\<rparr>)"
    and save_kept: "I r \<Longrightarrow> I (r\<lparr>disk := cur r\<rparr>)"
    and emit_kept: "I r \<Longrightarrow> \<not> is_report e \<Longrightarrow> I (r\<lparr>trace := trace r @ [e]\<rparr>)"
    and ledger_kept: "I r \<Longrightarrow> I (r\<lparr>ledger := l\<rparr>)"
begin

lemmas frame_rules [frame_intros] = keeps_intros keeps_with_state keeps_case_prod

lemma frame_upd: "(\<And>s. ident (f s) = ident s) \<Longrightarrow> keeps I (upd f)"
  by (simp add: keeps_def upd_def upd_kept)

lemma frame_save [frame_intros]: "keeps I save"
  by (simp add: keeps_def save_def save_kept)

lemma frame_emit [frame_intros]:
  "keeps I (emit (Dispatched a))" "keeps I (emit (TurnMailed m))" "keeps I (emit ConsoleSynced)"
  "keeps I (emit (ArtifactWritten d))"
  by (simp_all add: keeps_def emit_def emit_kept)

lemma frame_sync_console [frame_intros]: "keeps I sync_console"
  unfolding sync_console_def by (rule frame_emit)

lemma frame_note_run [frame_intros]: "keeps I (note_run now msg)"
  unfolding note_run_def by (rule frame_upd) (simp add: note_line_def ident_def)

lemma frame_set_halt [frame_intros]: "keeps I (set_halt reason detail)"
  unfolding set_halt_def by (rule frame_upd) (simp add: ident_def)

lemma frame_save_and_sync [frame_intros]: "keeps I save_and_sync"
  unfolding save_and_sync_def by (intro frame_intros)

lemma frame_reserve_send [frame_intros]: "keeps I (reserve_send cfg clock key)"
  by (auto simp: keeps_def reserve_send_def with_state_def ledger_kept split: prod.split)

lemma frame_start_second_wind [frame_intros]:
  "keeps I (start_second_wind cfg now kind a detail items)"
  unfolding start_second_wind_def Let_def
  by (intro frame_intros frame_upd) (simp add: ident_def)

lemma frame_mail_turn [frame_intros]: "keeps I (mail_turn cfg env a narrative)"
  unfolding mail_turn_def Let_def
  by (intro frame_intros frame_upd) (simp add: ident_def)

lemma frame_catch_blocked [frame_intros]:
  assumes m: "keeps I m" and h: "\<And>msg. keeps I (h msg)"
  shows "keeps I (catch_blocked m h)"
  unfolding keeps_def
proof (intro allI impI)
  fix r assume "I r"
  with m have "I (snd (m r))" by (rule keepsD)
  with h show "I (snd (catch_blocked m h r))"
    by (cases "m r"; cases "fst (m r)") (auto simp: catch_blocked_def keeps_def split: exn.split)
qed

lemma frame_agent_failure [frame_intros]: "keeps I (agent_failure cfg env a detail)"
  unfolding agent_failure_def by (intro frame_intros)

lemma frame_containment_check [frame_intros]: "keeps I (containment_check cfg env a)"
  unfolding containment_check_def Let_def
  by (intro frame_intros frame_upd) (simp add: ident_def)

lemma frame_no_envelope [frame_intros]: "keeps I (no_envelope cfg env a)"
  unfolding no_envelope_def Let_def
  by (intro frame_intros frame_upd) (simp add: ident_def)

lemma frame_accept_reply [frame_intros]: "keeps I (accept_reply cfg env a envl)"
  unfolding accept_reply_def
  by (intro frame_intros frame_upd) (simp_all add: ident_def)

lemma frame_turn_verdict [frame_intros]: "keeps I (turn_verdict cfg env a)"
  unfolding turn_verdict_def Let_def by (intro frame_intros)

lemma frame_settle_turn [frame_intros]: "keeps I (settle_turn cfg env a narrative)"
  unfolding settle_turn_def mail_or_halt_def
  by (intro frame_intros frame_upd ident_advance)

lemma frame_handle_reply [frame_intros]: "keeps I (handle_reply cfg env a)"
  unfolding handle_reply_def by (intro frame_intros)

lemma frame_take_turn [frame_intros]: "keeps I (take_turn cfg env)"
  unfolding take_turn_def Let_def by (intro frame_intros)

lemma frame_finish_loop [frame_intros]: "keeps I (finish_loop h)"
  unfolding finish_loop_def by (intro frame_intros frame_upd) (simp add: ident_def)

lemma frame_exhaust_loop [frame_intros]: "keeps I exhaust_loop"
  unfolding exhaust_loop_def by (intro frame_intros)

lemma frame_loop [frame_intros]: "keeps I (loop cfg envs m)"
  unfolding keeps_def
proof (intro allI impI)
  fix r assume start: "I r"
  let ?limit = "if m \<noteq> 0 then m else l_turns_max (c_limits cfg)"
  have step: "I (snd (take_turn cfg env r))" if "I r" for env r
    using frame_take_turn that by (rule keepsD)
  have "I r \<longrightarrow> I (snd (turns_from cfg envs ?limit 0 r))"
  proof (rule turns_from_induct [of ?limit cfg envs "\<lambda>i r out. I r \<longrightarrow> I (snd out)"])
    fix i r e r' assume "take_turn cfg (envs i) r = (Inl e, r')"
    with step [of r "envs i"] show "I r \<longrightarrow> I (snd (Inl e, r'))" by simp
  next
    fix i r h r' assume "take_turn cfg (envs i) r = (Inr (Some h), r')"
    with step [of r "envs i"] have "I r \<Longrightarrow> I r'" by simp
    then show "I r \<longrightarrow> I (snd (finish_loop h r'))" using keepsD [OF frame_finish_loop] by blast
  next
    fix r show "I r \<longrightarrow> I (snd (exhaust_loop r))" using keepsD [OF frame_exhaust_loop] by blast
  next
    fix i r r' assume "take_turn cfg (envs i) r = (Inr None, r')"
      and "I r' \<longrightarrow> I (snd (turns_from cfg envs ?limit (Suc i) r'))"
    with step [of r "envs i"]
    show "I r \<longrightarrow> I (snd (turns_from cfg envs ?limit (Suc i) r'))" by simp
  qed
  with start show "I (snd (loop cfg envs m r))" by (simp add: loop_def)
qed

lemma frame_attach [frame_intros]: "keeps I (attach_cloud_coordination env now key)"
  unfolding attach_cloud_coordination_def Let_def
  by (intro frame_intros frame_upd) (simp_all add: ident_def)

lemma frame_produce_media [frame_intros]: "keeps I (produce_media env now request)"
  unfolding produce_media_def by (intro frame_intros)

lemma frame_prepare_media [frame_intros]: "keeps I (prepare_media env now text revision)"
  unfolding prepare_media_def Let_def
  by (intro frame_intros frame_upd) (simp add: ident_def)

lemma frame_write_report [frame_intros]: "keeps I (write_report cfg env h)"
  unfolding write_report_def report_fallback_def Let_def by (intro frame_intros)


lemma frame_record_report [frame_intros]: "keeps I (record_report text h key)"
  unfolding record_report_def Let_def
  by (intro frame_intros frame_upd) (simp add: ident_def)

lemma frame_initialize [frame_intros]: "keeps I (initialize_commission_run env subject)"
  unfolding initialize_commission_run_def Let_def
  by (intro frame_intros frame_upd) (simp_all add: ident_def)

lemma ident_human_note: "ident (snd (apply_human_note now text s)) = ident s"
  by (simp add: apply_human_note_def restart_def note_line_def ident_def Let_def)

lemma frame_stage_note [frame_intros]: "keeps I (stage_note now n)"
  unfolding stage_note_def
  by (intro frame_intros frame_upd ident_human_note) (simp add: ident_def)

end


section \<open>The identity of a run\<close>

definition is_run :: "run_state \<Rightarrow> rig \<Rightarrow> bool" where
  "is_run k r \<longleftrightarrow> ident (cur r) = ident k \<and> ident (disk r) = ident k"

interpretation identity: turn_frame "is_run k" for k
  by unfold_locales (simp_all add: is_run_def)

lemma identity_emit [frame_intros]: "keeps (is_run k) (emit e)"
  by (simp add: keeps_def emit_def is_run_def)

lemma identity_mail_report [frame_intros]: "keeps (is_run k) (mail_report cfg env h)"
proof -
  have "keeps (is_run k) ensure_delivery"
    unfolding ensure_delivery_def Let_def
    by (intro frame_intros identity.frame_upd) (simp add: ident_def)
  moreover have "keeps (is_run k) (set_delivery f)" for f
    unfolding set_delivery_def by (rule identity.frame_upd) (simp add: ident_def)
  ultimately show ?thesis
    unfolding mail_report_def submit_report_def Let_def
    by (intro frame_intros identity.frame_upd) (simp_all add: ident_def)
qed

lemma identity_conclude [frame_intros]: "keeps (is_run k) (conclude cfg env text h key)"
  unfolding conclude_def by (intro frame_intros)

lemma identity_run_to_report [frame_intros]: "keeps (is_run k) (run_to_report cfg env key)"
  unfolding run_to_report_def by (intro frame_intros)

lemma identity_start_run [frame_intros]: "keeps (is_run k) (start_run cfg env sender mid)"
  unfolding start_run_def Let_def by (intro frame_intros)

lemma identity_recover_run [frame_intros]: "keeps (is_run k) (recover_run cfg env c)"
  unfolding recover_run_def by (intro frame_intros identity.frame_upd) (simp add: ident_def)

lemma identity_note_body [frame_intros]: "keeps (is_run k) (note_body cfg env n)"
  unfolding note_body_def answer_note_def Let_def by (intro frame_intros)

lemma identity_retry_body [frame_intros]: "keeps (is_run k) (retry_body cfg env)"
  unfolding retry_body_def by (intro frame_intros identity.frame_upd) (simp add: ident_def)

text \<open>The saved run after an action on the site.\<close>

lemma on_run_ident:
  assumes "keeps (is_run s) m" and "on_run rid s m w = (res, w')"
  shows "\<exists>t. map_of (runs w') rid = Some t \<and> ident t = ident s"
proof -
  obtain res1 r where r: "m \<lparr>cur = s, disk = s, ledger = sends w, trace = history w\<rparr> = (res1, r)"
    by fastforce
  have "is_run s \<lparr>cur = s, disk = s, ledger = sends w, trace = history w\<rparr>"
    by (simp add: is_run_def)
  from keepsD [OF assms(1) this] r have "ident (disk r) = ident s" by (simp add: is_run_def)
  with assms(2) r show ?thesis by (auto simp: on_run_def update_conv')
qed


section \<open>Reports leave the process in one place\<close>

definition reports_sent :: "effect list \<Rightarrow> rig \<Rightarrow> bool" where
  "reports_sent es r \<longleftrightarrow> filter is_report (trace r) = es"

interpretation mailing: turn_frame "reports_sent es" for es
  by unfold_locales (simp_all add: reports_sent_def)

lemma loop_mails_no_report:
  "filter is_report (trace (snd (loop cfg envs m r))) = filter is_report (trace r)"
  using keepsD [OF mailing.frame_loop, of "filter is_report (trace r)" r] by (simp add: reports_sent_def)

lemma write_mails_no_report:
  "filter is_report (trace (snd (write_report cfg env h r))) = filter is_report (trace r)"
  using keepsD [OF mailing.frame_write_report, of "filter is_report (trace r)" r] by (simp add: reports_sent_def)

text \<open>A report that says \<open>COMPLETE\<close> is mailed only for a complete checklist.\<close>

lemma loop_complete:
  assumes "loop cfg envs m r = (Inr h, r')" and "starts_with h ''complete''"
  shows "is_complete (checklist (cur r'))"
  using assms unfolding loop_def by (rule turns_from_complete)

lemma loop_saved: "loop cfg envs m r = (Inr h, r') \<Longrightarrow> disk r' = cur r'"
  unfolding loop_def using turns_from_saved by blast

lemma report_mailed_filter:
  "filter is_report es = filter is_report es' \<Longrightarrow> ReportMailed k st \<in> set es \<longleftrightarrow> ReportMailed k st \<in> set es'"
proof -
  assume eq: "filter is_report es = filter is_report es'"
  have "ReportMailed k st \<in> set (filter is_report xs) \<longleftrightarrow> ReportMailed k st \<in> set xs" for xs by simp
  with eq show ?thesis by metis
qed

lemma run_to_report_honest:
  assumes "run_to_report cfg env key r = (res, r')"
    and "ReportMailed k ''COMPLETE'' \<in> set (trace r')" and "ReportMailed k ''COMPLETE'' \<notin> set (trace r)"
  shows "is_complete (checklist (disk r'))"
proof -
  have new: "filter is_report (trace r') \<noteq> filter is_report (trace r)"
    using assms(2,3) report_mailed_filter by blast
  obtain res1 r1 where l: "loop cfg (se_turns env) 0 r = (res1, r1)" by fastforce
  then have t1: "filter is_report (trace r1) = filter is_report (trace r)"
    using loop_mails_no_report [of cfg "se_turns env" 0 r] by simp
  show ?thesis
  proof (cases res1)
    case (Inl e)
    with l assms(1) t1 new show ?thesis by (simp add: run_to_report_def bindA_def)
  next
    case (Inr h)
    obtain res2 r2 where w: "write_report cfg (se_report env) h r1 = (res2, r2)" by fastforce
    then have t2: "filter is_report (trace r2) = filter is_report (trace r)"
      using write_mails_no_report [of cfg "se_report env" h r1] t1 by simp
    show ?thesis
    proof (cases res2)
      case (Inl e)
      with Inr l w assms(1) t2 new show ?thesis by (simp add: run_to_report_def bindA_def)
    next
      case body: (Inr body)
      obtain q where r3: "record_report body h key r2 = (Inr (), q)"
        using record_report_out(1) by blast
      note q = record_report_out(2,3,8) [of body h key r2, unfolded r3 snd_conv]
      let ?r4 = "q\<lparr>trace := trace q @ [ConsoleSynced]\<rparr>"
      from r3 Inr l w body assms(1) have m: "mail_report cfg (se_report env) h ?r4 = (res, r')"
        by (simp add: run_to_report_def conclude_def sync_console_def emit_def bindA_def)
      have "disk ?r4 = cur ?r4" using q(1) by simp
      note out = mail_report_outcome [OF m this]
      have c: "core (cur r') = core (cur r1)"
        using out q(2) write_report_frame [OF w] by simp
      have "filter is_report (trace ?r4) = filter is_report (trace r)"
        using t2 q(3) by simp
      then have "trace r' \<noteq> trace ?r4" using new by metis
      with out have tr: "trace r' = trace ?r4 @ [ReportMailed (delivery_key (cur ?r4)) (fst (classify h))]"
        by blast
      have "ReportMailed k ''COMPLETE'' \<notin> set (trace ?r4)"
        using report_mailed_filter [OF \<open>filter is_report (trace ?r4) = filter is_report (trace r)\<close>]
          assms(3) by blast
      with tr assms(2) have "fst (classify h) = ''COMPLETE''" by auto
      then have "starts_with h ''complete''" by (simp add: classify_complete)
      with l Inr have "is_complete (checklist (cur r1))" by (simp add: loop_complete)
      with c out show ?thesis by (simp add: core_def)
    qed
  qed
qed
end
