(* ===== verification/Commission_Correct.thy ===== *)
theory Commission_Correct
  imports Frames
begin

text \<open>
  What the intake guarantees: the stored runs stay legal whatever arrives, a replayed request
  finds its run and neither starts a second one nor runs a worker again once its report is
  settled, a note needs the commissioner, and only what was handled is acknowledged.
\<close>

section \<open>Actions that leave a legal run\<close>

definition safe :: "'a act \<Rightarrow> bool" where
  "safe m \<longleftrightarrow> (\<forall>r. rig_ok r \<longrightarrow> run_ok (disk (snd (m r))) \<and> (\<forall>x. fst (m r) = Inr x \<longrightarrow> rig_ok (snd (m r))))"

named_theorems safe_intros

lemma safeI:
  "(\<And>r res r'. rig_ok r \<Longrightarrow> m r = (res, r') \<Longrightarrow> run_ok (disk r') \<and> (\<forall>x. res = Inr x \<longrightarrow> rig_ok r'))
     \<Longrightarrow> safe m"
  unfolding safe_def by (metis prod.collapse)

lemma safe_ret [safe_intros]: "safe (ret x)"
  by (simp add: safe_def ret_def rig_ok_def)

lemma safe_raise [safe_intros]: "safe (raise e)"
  by (simp add: safe_def raise_def rig_ok_def)

lemma safe_lift [safe_intros]: "safe (lift m)"
  by (simp add: safe_def lift_def rig_ok_def)

lemma safe_save [safe_intros]: "safe save"
  by (simp add: safe_def save_def rig_ok_def)

lemma safe_emit [safe_intros]: "safe (emit e)"
  by (simp add: safe_def emit_def rig_ok_def)

lemma safe_sync_console [safe_intros]: "safe sync_console"
  by (simp add: sync_console_def safe_emit)

lemma safe_bindA [safe_intros]: "safe m \<Longrightarrow> (\<And>x. safe (f x)) \<Longrightarrow> safe (bindA m f)"
  by (fastforce simp: safe_def bindA_def split: prod.splits sum.splits)

lemma safe_with_state [safe_intros]: "(\<And>s. safe (f s)) \<Longrightarrow> safe (with_state f)"
  by (simp add: safe_def with_state_def)

lemma safe_upd: "(\<And>s. run_ok s \<Longrightarrow> run_ok (f s)) \<Longrightarrow> safe (upd f)"
  by (simp add: safe_def upd_def rig_ok_def)

lemma safe_if [safe_intros]: "(b \<Longrightarrow> safe m) \<Longrightarrow> (\<not> b \<Longrightarrow> safe n) \<Longrightarrow> safe (if b then m else n)"
  by simp

lemma run_ok_fields: "run_ok s \<longleftrightarrow> checklist_ok (checklist s) \<and> continuity_ok (cont s)"
  by (simp add: run_ok_def)

lemma safe_note_run [safe_intros]: "safe (note_run now msg)"
  unfolding note_run_def by (rule safe_upd) (simp add: run_ok_def note_line_def)

lemma safe_set_halt [safe_intros]: "safe (set_halt reason detail)"
  unfolding set_halt_def by (rule safe_upd) (simp add: run_ok_def)

text \<open>An action that keeps the decisive fields and saves only the state in memory.\<close>

lemma safe_frame:
  assumes "\<And>r res r'. m r = (res, r') \<Longrightarrow> core (cur r') = core (cur r) \<and> (disk r' = disk r \<or> core (disk r') = core (cur r))"
  shows "safe m"
proof (rule safeI)
  fix r res r' assume ok: "rig_ok r" and m: "m r = (res, r')"
  from assms [OF m] run_ok_core [of "cur r'" "cur r"] run_ok_core [of "disk r'" "cur r"] ok
  show "run_ok (disk r') \<and> (\<forall>x. res = Inr x \<longrightarrow> rig_ok r')"
    by (auto simp: rig_ok_def)
qed

lemma safe_attach [safe_intros]: "safe (attach_cloud_coordination env now key)"
proof (rule safe_frame)
  fix r res r' assume "attach_cloud_coordination env now key r = (res, r')"
  then show "core (cur r') = core (cur r) \<and> (disk r' = disk r \<or> core (disk r') = core (cur r))"
    using attach_frame [of env now key r res r'] by auto
qed

lemma safe_write_report [safe_intros]: "safe (write_report cfg env h)"
proof (rule safe_frame)
  fix r res r' assume "write_report cfg env h r = (res, r')"
  then show "core (cur r') = core (cur r) \<and> (disk r' = disk r \<or> core (disk r') = core (cur r))"
    using write_report_frame [of cfg env h r res r'] by auto
qed

lemma safe_record_report [safe_intros]: "safe (record_report text h key)"
  unfolding record_report_def
  by (intro safe_intros safe_upd) (simp add: run_ok_def Let_def)

text \<open>Actions that keep a rig legal also when they raise.\<close>

lemma safe_keeps: "keeps rig_ok m \<Longrightarrow> safe m"
  by (auto simp: keeps_def safe_def rig_ok_def)

lemma rig_upd [keeps_intros]: "(\<And>s. run_ok s \<Longrightarrow> run_ok (f s)) \<Longrightarrow> keeps rig_ok (upd f)"
  by (simp add: keeps_def upd_def rig_ok_def)

lemma rig_save [keeps_intros]: "keeps rig_ok save"
  by (simp add: keeps_def save_def rig_ok_def)

lemma rig_emit [keeps_intros]: "keeps rig_ok (emit e)"
  by (simp add: keeps_def emit_def rig_ok_def)

lemma rig_note_run [keeps_intros]: "keeps rig_ok (note_run now msg)"
  unfolding note_run_def by (rule rig_upd) (simp add: run_ok_def note_line_def)

lemma rig_reserve_send [keeps_intros]: "keeps rig_ok (reserve_send cfg clock key)"
  unfolding keeps_def
proof (intro allI impI)
  fix r assume "rig_ok r"
  with reserve_send_frame [of cfg clock key r] show "rig_ok (snd (reserve_send cfg clock key r))"
    by (auto simp: rig_ok_def)
qed

lemma rig_set_delivery [keeps_intros]: "keeps rig_ok (set_delivery f)"
  unfolding set_delivery_def by (rule rig_upd) (simp add: run_ok_def)

lemma rig_mail_report: "keeps rig_ok (mail_report cfg env h)"
proof -
  have "keeps rig_ok ensure_delivery"
    unfolding ensure_delivery_def Let_def
    by (rule keeps_with_state, simp split: option.split)
      (intro conjI impI allI keeps_intros; simp add: run_ok_def)
  moreover have "keeps rig_ok (submit_report cfg env h d)" for d
    unfolding submit_report_def
    by (intro keeps_intros keeps_with_state) (simp add: run_ok_def Let_def)
  ultimately show ?thesis
    unfolding mail_report_def
    by (intro keeps_bindA keeps_with_state) (auto split: option.split intro!: keeps_intros)
qed

lemma safe_mail_report [safe_intros]: "safe (mail_report cfg env h)"
  by (rule safe_keeps [OF rig_mail_report])

lemma safe_catch_mail [safe_intros]:
  "safe (catch_blocked (mail_report cfg env h) (\<lambda>msg. note_run now (f msg)))"
proof (rule safe_keeps, unfold keeps_def, intro allI impI)
  fix r assume ok: "rig_ok r"
  obtain res r1 where m: "mail_report cfg env h r = (res, r1)" by fastforce
  with keepsD [OF rig_mail_report ok, of cfg env h] have "rig_ok r1" by simp
  with m keepsD [OF rig_note_run, of r1 now]
  show "rig_ok (snd (catch_blocked (mail_report cfg env h) (\<lambda>msg. note_run now (f msg)) r))"
    by (cases res) (simp_all add: catch_blocked_def split: exn.split)
qed

lemma safe_produce_media [safe_intros]: "safe (produce_media env now request)"
proof (rule safe_frame)
  fix r res r' assume "produce_media env now request r = (res, r')"
  then show "core (cur r') = core (cur r) \<and> (disk r' = disk r \<or> core (disk r') = core (cur r))"
    using produce_media_frame [of env now request r res r'] by auto
qed

lemma safe_prepare_media [safe_intros]: "safe (prepare_media env now text revision)"
  unfolding prepare_media_def Let_def
  by (rule safe_with_state)
    (auto split: option.split intro!: safe_intros safe_upd simp: run_ok_def)

lemma safe_loop [safe_intros]:
  assumes "[] \<notin> fst ` set (c_agents cfg)"
  shows "safe (loop cfg envs m)"
proof (rule safeI)
  fix r res r' assume ok: "rig_ok r" and l: "loop cfg envs m r = (res, r')"
  from l have t: "turns_from cfg envs (if m \<noteq> 0 then m else l_turns_max (c_limits cfg)) 0 r = (res, r')"
    by (simp add: loop_def)
  with turns_from_ok [OF assms ok, of envs "if m \<noteq> 0 then m else l_turns_max (c_limits cfg)" 0]
  have d: "run_ok (disk r')" by simp
  moreover have "disk r' = cur r'" if "res = Inr x" for x
    using turns_from_saved t that by blast
  ultimately show "run_ok (disk r') \<and> (\<forall>x. res = Inr x \<longrightarrow> rig_ok r')"
    by (auto simp: rig_ok_def)
qed

lemma safe_conclude [safe_intros]: "safe (conclude cfg env text h key)"
  unfolding conclude_def by (intro safe_intros)

lemma safe_run_to_report [safe_intros]:
  "[] \<notin> fst ` set (c_agents cfg) \<Longrightarrow> safe (run_to_report cfg env key)"
  unfolding run_to_report_def by (intro safe_intros)

lemma safe_initialize [safe_intros]: "safe (initialize_commission_run env subject)"
  unfolding initialize_commission_run_def Let_def
  by (intro safe_intros safe_upd; simp add: run_ok_def)

lemma safe_start_run [safe_intros]:
  "[] \<notin> fst ` set (c_agents cfg) \<Longrightarrow> safe (start_run cfg env sender mid)"
  unfolding start_run_def Let_def by (intro safe_intros)

lemma safe_recover_run [safe_intros]:
  "[] \<notin> fst ` set (c_agents cfg) \<Longrightarrow> safe (recover_run cfg env c)"
  unfolding recover_run_def by (intro safe_intros safe_upd) (simp add: run_ok_def)

lemma safe_stage_note [safe_intros]: "safe (stage_note now n)"
  unfolding stage_note_def
  by (intro safe_intros safe_upd) (simp_all only: apply_human_note_ok, simp add: run_ok_def)

lemma safe_note_body [safe_intros]:
  "[] \<notin> fst ` set (c_agents cfg) \<Longrightarrow> safe (note_body cfg env n)"
  unfolding note_body_def answer_note_def Let_def by (intro safe_intros)

lemma safe_retry_body [safe_intros]:
  assumes "[] \<notin> fst ` set (c_agents cfg)"
  shows "safe (retry_body cfg env)"
  using assms unfolding retry_body_def
  by (intro safe_intros safe_upd) (simp_all add: run_ok_def)


section \<open>The site\<close>

definition site_ok :: "site \<Rightarrow> bool" where
  "site_ok w \<longleftrightarrow> distinct (map fst (runs w)) \<and> list_all (\<lambda>p. run_ok (snd p)) (runs w)"

lemma set_update: "p \<in> set (AList.update k v xs) \<Longrightarrow> p = (k, v) \<or> p \<in> set xs"
  by (induction xs) (auto split: if_splits)

lemma site_ok_stored: "site_ok w \<Longrightarrow> stored_run w rid = Some s \<Longrightarrow> run_ok s"
  by (force simp: site_ok_def stored_run_def list_all_iff dest: map_of_SomeD)

lemma on_run_ok:
  assumes "safe m" and "site_ok w" and "run_ok s" and "rid \<in> fst ` set (runs w)"
    and "on_run rid s m w = (res, w')"
  shows "site_ok w' \<and> map fst (runs w') = map fst (runs w)"
proof -
  let ?r = "\<lparr>cur = s, disk = s, ledger = sends w, trace = history w\<rparr>"
  have "rig_ok ?r" using assms(3) by (simp add: rig_ok_def)
  with assms(1) have d: "run_ok (disk (snd (m ?r)))" by (simp add: safe_def)
  from assms(5) have w': "runs w' = AList.update rid (disk (snd (m ?r))) (runs w)"
    by (auto simp: on_run_def split: prod.splits)
  moreover have "map fst (AList.update rid (disk (snd (m ?r))) (runs w)) = map fst (runs w)"
    using assms(4) by (simp add: update_keys)
  moreover from assms(2) have "list_all (\<lambda>p. run_ok (snd p)) (AList.update rid (disk (snd (m ?r))) (runs w))"
    using d set_update by (fastforce simp: site_ok_def list_all_iff)
  ultimately show ?thesis using assms(2) by (simp add: site_ok_def)
qed

lemma new_state_ok: "run_ok (new_state cfg now cwd rid c)"
proof -
  have "continuity_ok (chosen_policy cfg choice)" for choice
    using continuity_policy_ok [of cfg]
    by (auto simp: chosen_policy_def continuity_ok_def Let_def split: option.split)
  then show ?thesis by (simp add: run_ok_def new_state_def checklist_ok_def Let_def)
qed

lemma create_run_ok:
  assumes "create_run cfg env c w = (res, w')" and "site_ok w"
  shows "site_ok w' \<and> (\<exists>new. map fst (runs w') = map fst (runs w) @ new)"
    and "res = Inr rid \<Longrightarrow> rid \<notin> fst ` set (runs w) \<and> rid \<in> fst ` set (runs w') \<and> valid_run_id rid
      \<and> history w' = history w \<and> sends w' = sends w"
proof -
  let ?rid = "chosen_run_id env c"
  have out: "site_ok w' \<and> (\<exists>new. map fst (runs w') = map fst (runs w) @ new)
    \<and> (res = Inr rid \<longrightarrow> rid \<notin> fst ` set (runs w) \<and> rid \<in> fst ` set (runs w') \<and> valid_run_id rid
        \<and> history w' = history w \<and> sends w' = sends w)"
  proof (cases "\<exists>ws u. valid_run_id ?rid \<and> validate_workspace_id (co_workspace_id c) = Inr ws
      \<and> se_isolated env (co_sender c) = Inr u \<and> ?rid \<notin> fst ` set (runs w)")
    case False
    with assms have "w' = w \<and> (\<exists>e. res = Inl e)"
      by (auto simp: create_run_def Let_def split: sum.splits if_splits)
    with assms(2) show ?thesis by auto
  next
    case True
    then obtain ws u where ok: "valid_run_id ?rid" "validate_workspace_id (co_workspace_id c) = Inr ws"
        "se_isolated env (co_sender c) = Inr u" "?rid \<notin> fst ` set (runs w)" by blast
    let ?s = "new_state cfg (se_now env) (se_cwd env) ?rid (c\<lparr>co_workspace_id := ws\<rparr>)"
    let ?w = "publish_run ?rid ?s w"
    let ?m = "bindA (lift (se_prepare env ?rid (co_sender c))) (\<lambda>authority.
                      bindA (upd (\<lambda>s. s\<lparr>connector_authority := Some authority\<rparr>)) (\<lambda>_.
                      bindA save (\<lambda>_. ret ?rid)))"
    from assms(1) ok have run: "on_run ?rid ?s ?m ?w = (res, w')"
      by (simp add: create_run_def Let_def)
    have "safe ?m" by (intro safe_intros safe_upd) (simp add: run_ok_def)
    moreover have "site_ok ?w"
      using assms(2) ok(4) by (auto simp: site_ok_def publish_run_def new_state_ok)
    moreover have "?rid \<in> fst ` set (runs ?w)" by (simp add: publish_run_def)
    ultimately have "site_ok w' \<and> map fst (runs w') = map fst (runs ?w)"
      using on_run_ok [OF _ _ new_state_ok _ run] by blast
    moreover from this have "?rid \<in> fst ` set (runs w')"
      by (metis \<open>?rid \<in> fst ` set (runs ?w)\<close> list.set_map)
    moreover have "res = Inr rid \<Longrightarrow> rid = ?rid \<and> history w' = history w \<and> sends w' = sends w"
      using run by (cases "se_prepare env ?rid (co_sender c)")
        (auto simp: on_run_def act_defs publish_run_def)
    ultimately show ?thesis using ok(1,4) by (simp add: publish_run_def) metis
  qed
  from out show "site_ok w' \<and> (\<exists>new. map fst (runs w') = map fst (runs w) @ new)" by blast
  from out show "res = Inr rid \<Longrightarrow> rid \<notin> fst ` set (runs w) \<and> rid \<in> fst ` set (runs w') \<and> valid_run_id rid
      \<and> history w' = history w \<and> sends w' = sends w" by blast
qed

lemma latest_in: "latest ps = Some p \<Longrightarrow> p \<in> set ps"
  by (induction ps arbitrary: p) (auto split: option.splits if_splits)

lemma latest_None [simp]: "latest ps = None \<longleftrightarrow> ps = []"
  by (cases ps) (auto split: option.split)

lemma find_commission_Some:
  "find_commission key mid w = Some (rid, s) \<Longrightarrow>
     (rid, s) \<in> set (runs w) \<and> valid_run_id rid \<and> same_commission key mid s"
  by (auto simp: find_commission_def split: if_splits dest: latest_in)

text \<open>A run on disk that carries the key of a request is found, so the request is a replay.\<close>

lemma find_commission_total:
  assumes "(rid, s) \<in> set (runs w)" and "valid_run_id rid" and "same_commission key mid s"
  shows "find_commission key mid w \<noteq> None"
proof -
  from assms(3) have "key \<noteq> [] \<or> mid \<noteq> []" by (auto simp: same_commission_def)
  moreover have "(rid, s) \<in> set (filter (\<lambda>p. valid_run_id (fst p) \<and> same_commission key mid (snd p)) (runs w))"
    using assms by simp
  ultimately show ?thesis unfolding find_commission_def
    by (metis (no_types, lifting) latest_None empty_iff list.set(1))
qed

abbreviation named_fleet :: "config \<Rightarrow> bool" where
  "named_fleet cfg \<equiv> [] \<notin> fst ` set (c_agents cfg)"

lemma resume_commission_ok:
  assumes "resume_commission cfg env c rid s w = (res, w')" and "site_ok w"
    and "(rid, s) \<in> set (runs w)" and names: "named_fleet cfg"
  shows "site_ok w' \<and> map fst (runs w') = map fst (runs w)"
proof (cases "co_workspace_id c \<noteq> None \<and> co_workspace_id c \<noteq> Some (workspace_id s)")
  case True
  with assms show ?thesis by (auto simp: resume_commission_def)
next
  case False
  with assms(1) have run: "on_run rid s (bindA (recover_run cfg env c) (\<lambda>_. ret (run_id s))) w = (res, w')"
    by (auto simp: resume_commission_def)
  have "safe (bindA (recover_run cfg env c) (\<lambda>_. ret (run_id s)))"
    using names by (intro safe_intros)
  moreover have "run_ok s" using assms(2,3) by (auto simp: site_ok_def list_all_iff)
  moreover have "rid \<in> fst ` set (runs w)" using assms(3) by force
  ultimately show ?thesis using on_run_ok [OF _ assms(2) _ _ run] by blast
qed

lemma begin_commission_ok:
  assumes "begin_commission cfg env c w = (res, w')" and "site_ok w" and names: "named_fleet cfg"
  shows "site_ok w' \<and> (\<exists>new. map fst (runs w') = map fst (runs w) @ new)"
proof -
  obtain res1 w1 where c: "create_run cfg env (c\<lparr>co_request_key := durable_key c\<rparr>) w = (res1, w1)"
    by fastforce
  note ok = create_run_ok [OF c assms(2)]
  show ?thesis
  proof (cases res1)
    case (Inl e)
    with c assms(1) ok(1) show ?thesis by (simp add: begin_commission_def bind_site_def)
  next
    case (Inr rid)
    show ?thesis
    proof (cases "stored_run w1 rid")
      case None
      with Inr c assms(1) ok(1) show ?thesis by (simp add: begin_commission_def bind_site_def)
    next
      case (Some s)
      with Inr c assms(1) have run: "on_run rid s
           (bindA (start_run cfg env (co_sender c) (co_message_id c)) (\<lambda>_. ret rid)) w1 = (res, w')"
        by (simp add: begin_commission_def bind_site_def)
      have "safe (bindA (start_run cfg env (co_sender c) (co_message_id c)) (\<lambda>_. ret rid))"
        using names by (intro safe_intros)
      moreover have "run_ok s" using ok(1) Some site_ok_stored by blast
      ultimately have "site_ok w' \<and> map fst (runs w') = map fst (runs w1)"
        using on_run_ok [OF _ _ _ _ run] ok(1) ok(2) [OF Inr] by blast
      with ok(1) show ?thesis by auto
    qed
  qed
qed

lemma handle_commission_ok:
  assumes "handle_commission cfg env c w = (res, w')" and "site_ok w" and names: "named_fleet cfg"
  shows "site_ok w' \<and> (\<exists>new. map fst (runs w') = map fst (runs w) @ new)"
proof (cases "validate_workspace_id (co_workspace_id c)")
  case (Inl e)
  with assms show ?thesis by (auto simp: handle_commission_def)
next
  case (Inr ws)
  show ?thesis
  proof (cases "find_commission (durable_key c) (co_message_id c) w")
    case None
    with Inr assms show ?thesis
      by (auto simp: handle_commission_def dest!: begin_commission_ok [OF _ _ names])
  next
    case (Some p)
    obtain rid s where "p = (rid, s)" by fastforce
    with Some Inr assms show ?thesis
      using resume_commission_ok [of cfg env "c\<lparr>co_workspace_id := ws\<rparr>" rid s w res w']
        find_commission_Some [of "durable_key c" "co_message_id c" w rid s]
      by (simp add: handle_commission_def)
  qed
qed

lemma handle_note_ok:
  assumes "handle_note cfg env n w = (res, w')" and "site_ok w" and names: "named_fleet cfg"
  shows "site_ok w' \<and> map fst (runs w') = map fst (runs w)"
proof (cases "stored_run w (n_run_id n)")
  case None
  with assms show ?thesis by (simp add: handle_note_def)
next
  case (Some s)
  have "safe (note_body cfg env n)" using names by (intro safe_intros)
  moreover have "n_run_id n \<in> fst ` set (runs w)"
    using Some by (force simp: stored_run_def dest: map_of_SomeD)
  moreover have "on_run (n_run_id n) s (note_body cfg env n) w = (res, w')"
    using Some assms(1) by (simp add: handle_note_def)
  ultimately show ?thesis using on_run_ok site_ok_stored [OF assms(2) Some] assms(2) by blast
qed

lemma serve_message_ok:
  assumes "serve_message cfg env m w = (ack, w')" and "site_ok w" and names: "named_fleet cfg"
  shows "site_ok w' \<and> (\<exists>new. map fst (runs w') = map fst (runs w) @ new)"
proof (cases "m_retryable m")
  case True
  with assms show ?thesis by (simp add: serve_message_def)
next
  case False
  have q: "site_ok (quarantine m r v) = site_ok v" "runs (quarantine m r v) = runs v" for r v
    by (simp_all add: quarantine_def site_ok_def)
  show ?thesis
  proof (cases "m_body m")
    case (M_Commission c)
    obtain res w1 where h: "handle_commission cfg env (keyed_commission m c) w = (res, w1)" by fastforce
    from M_Commission False h assms(1) have "w' = w1 \<or> (\<exists>r. w' = quarantine m r w1)"
      by (auto simp: serve_message_def split: sum.splits exn.splits)
    with handle_commission_ok [OF h assms(2) names] q show ?thesis by auto
  next
    case (M_Note n)
    obtain res w1 where h: "handle_note cfg env (keyed_note m n) w = (res, w1)" by fastforce
    from M_Note False h assms(1) have "w' = w1 \<or> (\<exists>r. w' = quarantine m r w1)"
      by (auto simp: serve_message_def split: sum.splits exn.splits)
    with handle_note_ok [OF h assms(2) names] q show ?thesis by auto
  next
    case (M_Other why)
    with False assms q show ?thesis by (auto simp: serve_message_def)
  qed
qed

lemma serve_pass_ok:
  assumes "serve_pass cfg envs i ms w = (acks, w')" and "site_ok w" and names: "named_fleet cfg"
  shows "site_ok w' \<and> (\<exists>new. map fst (runs w') = map fst (runs w) @ new)"
  using assms
proof (induction ms arbitrary: i w acks)
  case (Cons m ms)
  obtain ok w1 where m: "serve_message cfg (envs i) m w = (ok, w1)" by fastforce
  obtain acks2 w2 where p: "serve_pass cfg envs (Suc i) ms w1 = (acks2, w2)" by fastforce
  from Cons.prems m p have w2: "w2 = w'" by auto
  note serve_message_ok [OF m Cons.prems(2) names]
  with Cons.IH [OF p [unfolded w2]] show ?case using names by fastforce
qed simp



section \<open>Replays\<close>

lemma update_same: "map_of xs k = Some v \<Longrightarrow> AList.update k v xs = xs"
  by (induction xs) (auto split: if_splits)

text \<open>A replay of a commission whose report is settled only adds a line to the log.\<close>

lemma recover_settled:
  assumes "report s \<noteq> []" and "settled s"
  shows "recover_run cfg env c \<lparr>cur = s, disk = s, ledger = f, trace = t\<rparr>
    = (Inr (), \<lparr>cur = s\<lparr>log := log s @ [se_now env @ '' '' @
          ''duplicate commission ignored after terminal report delivery'']\<rparr>,
        disk = s\<lparr>log := log s @ [se_now env @ '' '' @
          ''duplicate commission ignored after terminal report delivery'']\<rparr>,
        ledger = f, trace = t\<rparr>)"
  using assms by (simp add: recover_run_def act_defs note_line_def)

lemma replay_settled:
  assumes "find_commission (durable_key c) (co_message_id c) w = Some (rid, s)"
    and "validate_workspace_id (co_workspace_id c) = Inr ws" and "ws = None \<or> ws = Some (workspace_id s)"
    and "report s \<noteq> []" and "settled s"
  shows "\<exists>w'. handle_commission cfg env c w = (Inr (run_id s), w')
    \<and> history w' = history w \<and> sends w' = sends w \<and> map fst (runs w') = map fst (runs w)"
proof -
  have mem: "rid \<in> fst ` set (runs w)" using find_commission_Some [OF assms(1)] by force
  have "handle_commission cfg env c w = on_run rid s
      (bindA (recover_run cfg env (c\<lparr>co_workspace_id := ws\<rparr>)) (\<lambda>_. ret (run_id s))) w"
    using assms(1-3) by (auto simp: handle_commission_def resume_commission_def)
  with mem recover_settled [OF assms(4,5)] show ?thesis
    by (simp add: on_run_def bindA_def ret_def update_keys)
qed

lemma on_run_keys:
  assumes "on_run rid s m w = (res, w')" and "rid \<in> fst ` set (runs w)"
  shows "map fst (runs w') = map fst (runs w)"
proof -
  from assms(1) obtain t where "runs w' = AList.update rid t (runs w)"
    by (auto simp: on_run_def split: prod.splits)
  with assms(2) show ?thesis by (simp add: update_keys)
qed

lemma stored_key: "rid \<in> fst ` set (runs w) \<longleftrightarrow> (\<exists>s. stored_run w rid = Some s)"
  using map_of_eq_None_iff [of "runs w" rid] unfolding stored_run_def by (metis not_None_eq)

text \<open>The run that a commission creates carries its key, whatever becomes of the run.\<close>

lemma ident_key: "ident t = ident s \<Longrightarrow> commission_request_key t = commission_request_key s"
  by (simp add: ident_def)

lemma create_run_keyed:
  assumes "create_run cfg env c w = (res, w')" and "rid \<in> fst ` set (runs w')" and "rid \<notin> fst ` set (runs w)"
    and "co_request_key c \<noteq> []"
  shows "valid_run_id rid \<and> (\<exists>t. map_of (runs w') rid = Some t \<and> commission_request_key t = co_request_key c)"
proof (cases "\<exists>ws u. valid_run_id (chosen_run_id env c) \<and> validate_workspace_id (co_workspace_id c) = Inr ws
      \<and> se_isolated env (co_sender c) = Inr u \<and> chosen_run_id env c \<notin> fst ` set (runs w)")
  case False
  with assms(1) have "w' = w" by (auto simp: create_run_def Let_def split: sum.splits if_splits)
  with assms(2,3) show ?thesis by simp
next
  case True
  then obtain ws u where ok: "valid_run_id (chosen_run_id env c)"
      "validate_workspace_id (co_workspace_id c) = Inr ws" "se_isolated env (co_sender c) = Inr u"
      "chosen_run_id env c \<notin> fst ` set (runs w)" by blast
  let ?rid = "chosen_run_id env c"
  let ?s = "new_state cfg (se_now env) (se_cwd env) ?rid (c\<lparr>co_workspace_id := ws\<rparr>)"
  let ?m = "bindA (lift (se_prepare env ?rid (co_sender c))) (\<lambda>authority.
                      bindA (upd (\<lambda>s. s\<lparr>connector_authority := Some authority\<rparr>)) (\<lambda>_.
                      bindA save (\<lambda>_. ret ?rid)))"
  from assms(1) ok have run: "on_run ?rid ?s ?m (publish_run ?rid ?s w) = (res, w')"
    by (simp add: create_run_def Let_def)
  have "keeps (is_run ?s) ?m" by (intro frame_intros identity.frame_upd) (simp add: ident_def)
  from on_run_ident [OF this run] obtain t where
      t: "map_of (runs w') ?rid = Some t" "ident t = ident ?s" by blast
  have "?rid \<in> fst ` set (runs (publish_run ?rid ?s w))" by (simp add: publish_run_def)
  from on_run_keys [OF run this] have "map fst (runs w') = map fst (runs w) @ [?rid]"
    by (simp add: publish_run_def)
  then have "fst ` set (runs w') = insert ?rid (fst ` set (runs w))"
    by (metis Un_insert_right list.set_map list.simps(15) set_append sup_bot_right list.set(1))
  with assms(2,3) have "rid = ?rid" by blast
  moreover have "commission_request_key ?s = co_request_key c"
    using assms(4) by (simp add: new_state_def Let_def)
  ultimately show ?thesis using t ok(1) ident_key by metis
qed

lemma begin_commission_keyed:
  assumes "begin_commission cfg env c w = (res, w')" and "map fst (runs w') \<noteq> map fst (runs w)"
    and "durable_key c \<noteq> []" and "site_ok w"
  shows "\<exists>rid t. (rid, t) \<in> set (runs w') \<and> valid_run_id rid \<and> commission_request_key t = durable_key c"
proof -
  obtain res1 w1 where c: "create_run cfg env (c\<lparr>co_request_key := durable_key c\<rparr>) w = (res1, w1)"
    by fastforce
  obtain new where new: "map fst (runs w1) = map fst (runs w) @ new"
    using create_run_ok(1) [OF c assms(4)] by blast
  have "distinct (map fst (runs w1))" using create_run_ok(1) [OF c assms(4)] by (simp add: site_ok_def)
  have step: "\<exists>s. stored_run w1 rid = Some s" if "rid \<in> fst ` set (runs w1)" for rid
    using that by (simp add: stored_key)
  have found: "\<exists>rid t. (rid, t) \<in> set (runs w') \<and> valid_run_id rid \<and> commission_request_key t = durable_key c"
    if n: "new \<noteq> []" and w': "w' = w1 \<or> (\<exists>rid s (m :: string act) res. keeps (is_run s) m \<and> map_of (runs w1) rid = Some s \<and> on_run rid s m w1 = (res, w'))"
  proof -
    have "hd new \<in> fst ` set (runs w1)" "hd new \<notin> fst ` set (runs w)"
      using n new \<open>distinct (map fst (runs w1))\<close>
      by (metis UnCI hd_in_set list.set_map set_append, metis disjoint_iff distinct_append hd_in_set list.set_map)
    from create_run_keyed [OF c this] assms(3) obtain t where
        t: "valid_run_id (hd new)" "map_of (runs w1) (hd new) = Some t"
          "commission_request_key t = durable_key c" by auto
    show ?thesis
      using w'
    proof
      assume "w' = w1"
      with t show ?thesis by (blast dest: map_of_SomeD)
    next
      assume "\<exists>rid s (m :: string act) res. keeps (is_run s) m \<and> map_of (runs w1) rid = Some s \<and> on_run rid s m w1 = (res, w')"
      then obtain rid s and m :: "string act" and res where
          o: "keeps (is_run s) m" "map_of (runs w1) rid = Some s" "on_run rid s m w1 = (res, w')" by blast
      show ?thesis
      proof (cases "rid = hd new")
        case True
        with o(2) t(2) have "s = t" by simp
        from on_run_ident [OF o(1,3)] True obtain u where
            u: "map_of (runs w') (hd new) = Some u" "ident u = ident s" by blast
        from ident_key [OF u(2)] \<open>s = t\<close> t(3) have "commission_request_key u = durable_key c" by simp
        with u(1) t(1) show ?thesis by (blast dest: map_of_SomeD)
      next
        case False
        with o(3) t(2) have "map_of (runs w') (hd new) = Some t"
          by (auto simp: on_run_def update_conv' split: prod.splits)
        with t show ?thesis by (blast dest: map_of_SomeD)
      qed
    qed
  qed
  show ?thesis
  proof (cases res1)
    case (Inl e)
    with c assms(1) have "w' = w1" by (simp add: begin_commission_def bind_site_def)
    with new assms(2) show ?thesis by (intro found) auto
  next
    case (Inr rid)
    with create_run_ok(2) [OF c assms(4)] obtain s where s: "stored_run w1 rid = Some s" using step by blast
    let ?m = "bindA (start_run cfg env (co_sender c) (co_message_id c)) (\<lambda>_. ret rid)"
    from Inr s c assms(1) have run: "on_run rid s ?m w1 = (res, w')"
      by (simp add: begin_commission_def bind_site_def)
    have loyal: "keeps (is_run s) ?m" by (intro frame_intros)
    from s have "rid \<in> fst ` set (runs w1)" by (simp add: stored_key)
    from on_run_keys [OF run this] new assms(2) have "new \<noteq> []" by auto
    moreover have "\<exists>rid s (m :: string act) res. keeps (is_run s) m \<and> map_of (runs w1) rid = Some s
        \<and> on_run rid s m w1 = (res, w')"
      using loyal run s unfolding stored_run_def by blast
    ultimately show ?thesis by (intro found disjI2)
  qed
qed

text \<open>
  A commission is created once: if handling it published a run, even when it then failed, a
  later delivery of the same request creates no other.
\<close>

lemma commission_created_once:
  assumes "handle_commission cfg env c w = (res, w1)" and "site_ok w" and "named_fleet cfg"
    and "durable_key c \<noteq> []" and "map fst (runs w1) \<noteq> map fst (runs w)"
    and "durable_key c2 = durable_key c" and "handle_commission cfg env2 c2 w1 = (res2, w2)"
  shows "map fst (runs w2) = map fst (runs w1)"
proof -
  have ok1: "site_ok w1" using handle_commission_ok [OF assms(1-3)] by blast
  from assms(1,5) obtain ws where ws: "validate_workspace_id (co_workspace_id c) = Inr ws"
    by (cases "validate_workspace_id (co_workspace_id c)") (auto simp: handle_commission_def)
  let ?c = "c\<lparr>co_workspace_id := ws\<rparr>"
  have "find_commission (durable_key c) (co_message_id c) w = None"
  proof (rule ccontr)
    assume "\<not> ?thesis"
    then obtain rid s where f: "find_commission (durable_key c) (co_message_id c) w = Some (rid, s)" by auto
    with ws assms(1) have "resume_commission cfg env ?c rid s w = (res, w1)"
      by (simp add: handle_commission_def)
    from resume_commission_ok [OF this assms(2) _ assms(3)] find_commission_Some [OF f] assms(5)
    show False by simp
  qed
  with ws assms(1) have "begin_commission cfg env ?c w = (res, w1)"
    by (simp add: handle_commission_def)
  moreover have "durable_key ?c = durable_key c" by (simp add: durable_key_def)
  ultimately obtain rid t where "(rid, t) \<in> set (runs w1)" "valid_run_id rid"
      "commission_request_key t = durable_key c"
    using begin_commission_keyed [of cfg env ?c w res w1] assms(2,4,5) by auto
  then have "find_commission (durable_key c2) (co_message_id c2) w1 \<noteq> None"
    using assms(4,6) by (intro find_commission_total) (auto simp: same_commission_def)
  then obtain rid2 s2 where f: "find_commission (durable_key c2) (co_message_id c2) w1 = Some (rid2, s2)"
    by auto
  show ?thesis
  proof (cases "validate_workspace_id (co_workspace_id c2)")
    case (Inl e)
    with assms(7) show ?thesis by (simp add: handle_commission_def)
  next
    case (Inr ws2)
    with f assms(7) have "resume_commission cfg env2 (c2\<lparr>co_workspace_id := ws2\<rparr>) rid2 s2 w1 = (res2, w2)"
      by (simp add: handle_commission_def)
    from resume_commission_ok [OF this ok1 _ assms(3)] find_commission_Some [OF f]
    show ?thesis by simp
  qed
qed


section \<open>Notes\<close>

lemma site_update_same: "w\<lparr>runs := runs w, sends := sends w, history := history w\<rparr> = w"
  by simp

text \<open>A note from anyone but the commissioner changes nothing, and is not retried.\<close>

lemma note_rejected:
  assumes "stored_run w (n_run_id n) = Some s" and "\<not> may_note s n"
  shows "handle_note cfg env n w = (Inl (NoteRejected ''note sender is not the run commissioner''), w)"
  using assms
  by (simp add: handle_note_def note_body_def on_run_def act_defs stored_run_def update_same)

text \<open>A note that was answered already runs no worker again.\<close>

lemma note_replayed:
  assumes "stored_run w (n_run_id n) = Some s" and "may_note s n" and "already_answered s n"
    and "handle_note cfg env n w = (res, w')"
  shows "\<exists>new. history w' = history w @ new \<and> (\<forall>a. Dispatched a \<notin> set new)"
proof (cases "settled s")
  case True
  with assms have "history w' = history w"
    by (auto simp: handle_note_def note_body_def on_run_def act_defs)
  then show ?thesis by simp
next
  case False
  let ?r = "\<lparr>cur = s, disk = s, ledger = sends w, trace = history w @ [ConsoleSynced]\<rparr>"
  obtain res1 r1 where m: "mail_report cfg (se_report env) (report_reason s) ?r = (res1, r1)" by fastforce
  from mail_report_outcome [OF m] have "trace r1 = trace ?r
      \<or> (\<exists>k st. trace r1 = trace ?r @ [ReportMailed k st])" by auto
  moreover from assms False m have "history w' = trace r1"
    by (auto simp: handle_note_def note_body_def on_run_def act_defs split: prod.splits)
  ultimately show ?thesis by auto
qed
end
