(* ===== verification/Samples.thy ===== *)
theory Samples
  imports Commission_Correct
begin

text \<open>
  Small concrete inputs on which the properties are exercised: a fleet of two workers of two
  families, a run whose only item awaits verification, the turns, providers and site around it.
\<close>

definition demo_agent :: "string \<Rightarrow> string \<Rightarrow> agent_cfg" where
  "demo_agent family model =
     \<lparr>a_family = family, a_model = Some model, a_exec_flags = [''-x''], a_adapter = [], a_bin = None,
      a_effort = None, a_mcp_config_path = [], a_connector_env = [], a_profile_home = [],
      a_use_schema = False\<rparr>"

definition demo_fleet :: fleet where
  "demo_fleet = [(''claude'', demo_agent ''anthropic'' ''c''), (''agy'', demo_agent ''google'' ''gemini-3'')]"

definition demo_config :: config where
  "demo_config =
     \<lparr>c_agents = demo_fleet,
      c_limits = \<lparr>l_turns_max = 4, l_no_progress_halt = 3, l_rejections_max = 2,
                  l_sends_per_run = 5, l_turn_timeout_sec = 60, l_reprompts_max = 1\<rparr>,
      c_max_recoveries = Some (JInt 1), c_second_wind = JBool True, c_mail_enabled = True,
      c_cc_human = [], c_root = ''/r''\<rparr>"

definition demo_item :: "json \<Rightarrow> item" where
  "demo_item st =
     \<lparr>it_id = JStr ''c1'', it_description = JStr ''d'', it_state = st, it_owner = JStr ''claude'',
      it_verified_by = JNull, it_evidence = JStr ''e'', it_rejections = 0\<rparr>"

definition demo_commission :: commission where
  "demo_commission =
     \<lparr>co_task = ''t'', co_sender = ''a@b'', co_message_id = ''m1'', co_request_key = ''k1'',
      co_run_id = ''r-abc'', co_source_run_id = [], co_second_wind = None, co_workspace_id = None\<rparr>"

definition demo_state :: "json \<Rightarrow> run_state" where
  "demo_state st =
     (new_state demo_config ''now'' ''/w'' ''r-abc'' demo_commission)
       \<lparr>turn := 2, actor := ''agy'', checklist := [demo_item st]\<rparr>"

definition demo_report_env :: report_env where
  "demo_report_env =
     \<lparr>r_now = ''now'', r_clock = 1000, r_reply = Inl (AgentError ''x''), r_mail_key = Inr ''key'',
      r_sent = Inr ''id''\<rparr>"

definition demo_turn :: "json \<Rightarrow> turn_env" where
  "demo_turn st =
     \<lparr>e_now = ''now'', e_clock = 1000, e_reply = Inr ''{'', e_before = [], e_after = [],
      e_loads = (\<lambda>s. Some (JObj [(''rally_version'', JInt 1), (''narrative'', JStr ''done''),
        (''checklist'', JArr [item_json (demo_item st)])])),
      e_commit = None, e_mail_key = Inr ''key'', e_sent = Inr ''id''\<rparr>"

definition demo_rig :: "json \<Rightarrow> rig" where
  "demo_rig st = \<lparr>cur = demo_state st, disk = demo_state st, ledger = Absent, trace = []\<rparr>"

definition demo_coord :: coord_env where
  "demo_coord =
     \<lparr>k_cloud = [(''enabled'', JBool True), (''url'', JStr ''https://c'')], k_environ = (\<lambda>n. ''v''),
      k_keychain = (\<lambda>n. None), k_gcloud = (\<lambda>n. None), k_post = (\<lambda>u h b. Http_Failure ''down'')\<rparr>"

definition demo_media :: media_env where
  "demo_media =
     \<lparr>m_settings = [], m_environ = (\<lambda>n. []), m_token = Some ''t'',
      m_http = (\<lambda>u b. Http_Ok (JObj [(''status'', JStr ''completed''), (''outputs'', JArr [JObj
        [(''type'', JStr ''audio''), (''data'', JStr ''QUJD'')]])])),
      m_sha = (\<lambda>s. take 8 s), m_is_dir = (\<lambda>p. True), m_realpath = (\<lambda>p. p)\<rparr>"

definition demo_env :: site_env where
  "demo_env =
     \<lparr>se_now = ''now'', se_cwd = ''/w'', se_new_id = ''r-new'', se_isolated = (\<lambda>s. Inr ()),
      se_prepare = (\<lambda>r s. Inr ''auth''), se_workspace = (\<lambda>r. ''/r/'' @ r),
      se_coord = demo_coord\<lparr>k_cloud := [], k_environ := (\<lambda>n. [])\<rparr>, se_media = demo_media,
      se_turns = (\<lambda>i. demo_turn st_done), se_report = demo_report_env\<rparr>"

definition demo_down :: site_env where
  "demo_down = demo_env\<lparr>se_prepare := (\<lambda>r s. Inl (ConnectorConfigError ''down''))\<rparr>"

definition demo_site :: "run_state option \<Rightarrow> site" where
  "demo_site s =
     \<lparr>runs = (case s of None \<Rightarrow> [] | Some t \<Rightarrow> [(''r-abc'', t)]), sends = Absent, history = [],
      quarantined = []\<rparr>"

definition demo_note :: note_request where
  "demo_note =
     \<lparr>n_run_id = ''r-abc'', n_text = ''go on'', n_message_id = ''m2'', n_sender = ''a@b'',
      n_request_key = ''k2''\<rparr>"

definition demo_reported :: "string \<Rightarrow> run_state" where
  "demo_reported status =
     (demo_state st_done)\<lparr>report := ''text'', report_halt := ''complete'', report_generation := 1,
        report_delivery := Some \<lparr>d_status = status, d_generation = 1,
           d_key = ''rally-final-report-r-abc-1'', d_request_key = Some ''k2'', d_provider_id = None\<rparr>\<rparr>"

end
