(* ===== verification/Run_Store.thy ===== *)
theory Run_Store
  imports Rally_Prelude
begin

text \<open>
  The durable commission records of the cloud coordinator, after \<open>cloud/store.py\<close>: the
  in-memory backend of the tests, the Firestore backend of production, the contract both keep
  and the protocol of fenced coordination attempts on top of it. Collections are partial maps,
  a transaction is one step, points of time are integers. \<open>sha\<close> stands for the hexadecimal
  SHA-256 digest; where the Firestore backend needs it, it is assumed to be free of collisions.
\<close>

section \<open>Records\<close>

record handoff =
  ho_task :: string
  ho_requires_verification :: bool
  ho_max_turns :: int

record run_record =
  rr_run_id :: string
  rr_request_key :: string
  rr_status :: string
  rr_handoff :: handoff
  rr_task_digest :: string
  rr_attempts :: int
  rr_created_at :: string
  rr_updated_at :: string
  rr_retention_until :: string
  rr_lease :: "int option"
  rr_error :: "string option"
  rr_coordinator_record :: "string option"

definition lease_expired :: "int \<Rightarrow> run_record \<Rightarrow> bool" where
  "lease_expired now r \<longleftrightarrow> (case rr_lease r of None \<Rightarrow> 0 | Some t \<Rightarrow> t) \<le> now"

definition resumable :: "int \<Rightarrow> run_record \<Rightarrow> bool" where
  "resumable now r \<longleftrightarrow> rr_status r = ''coordinator_failed''
     \<or> rr_status r = ''coordinating'' \<and> lease_expired now r"

definition attempt_of :: "run_record \<Rightarrow> int" where
  "attempt_of r = (if rr_attempts r = 0 then 1 else rr_attempts r)"

definition resume :: "int \<Rightarrow> string \<Rightarrow> run_record \<Rightarrow> run_record" where
  "resume lease updated r =
     r\<lparr>rr_status := ''coordinating'', rr_attempts := attempt_of r + 1, rr_lease := Some lease,
       rr_updated_at := updated, rr_error := None\<rparr>"

definition stale :: "int option \<Rightarrow> run_record option \<Rightarrow> bool" where
  "stale expected current =
     (case (expected, current) of (Some a, Some r) \<Rightarrow> rr_attempts r \<noteq> a | _ \<Rightarrow> False)"


section \<open>The in-memory backend\<close>

record mem_store =
  ms_records :: "string \<rightharpoonup> run_record"
  ms_keys :: "string \<rightharpoonup> string"

definition mem_create :: "run_record \<Rightarrow> mem_store \<Rightarrow> bool \<times> mem_store" where
  "mem_create r s =
     (if ms_keys s (rr_request_key r) \<noteq> None then (False, s)
      else (True, s\<lparr>ms_records := (ms_records s)(rr_run_id r \<mapsto> r),
                    ms_keys := (ms_keys s)(rr_request_key r \<mapsto> rr_run_id r)\<rparr>))"

definition mem_update :: "string \<Rightarrow> run_record \<Rightarrow> int option \<Rightarrow> mem_store \<Rightarrow> bool \<times> mem_store" where
  "mem_update rid r expected s =
     (if stale expected (ms_records s rid) then (False, s)
      else (True, s\<lparr>ms_records := (ms_records s)(rid \<mapsto> r),
                    ms_keys := (ms_keys s)(rr_request_key r \<mapsto> rid)\<rparr>))"

definition mem_get :: "string \<Rightarrow> mem_store \<Rightarrow> run_record option" where
  "mem_get rid s = ms_records s rid"

definition mem_by_key :: "string \<Rightarrow> mem_store \<Rightarrow> run_record option" where
  "mem_by_key k s =
     (case ms_keys s k of None \<Rightarrow> None | Some rid \<Rightarrow> if rid = [] then None else mem_get rid s)"

definition mem_reclaim ::
    "string \<Rightarrow> int \<Rightarrow> string \<Rightarrow> int \<Rightarrow> mem_store \<Rightarrow> run_record option \<times> mem_store" where
  "mem_reclaim k lease updated now s =
     (case ms_keys s k of
        None \<Rightarrow> (None, s)
      | Some rid \<Rightarrow>
          (case (if rid = [] then None else ms_records s rid) of
             None \<Rightarrow> (None, s)
           | Some current \<Rightarrow>
               if \<not> resumable now current then (None, s)
               else
                 let resumed = resume lease updated current
                 in (Some resumed, s\<lparr>ms_records := (ms_records s)(rid \<mapsto> resumed),
                                     ms_keys := (ms_keys s)(k \<mapsto> rid)\<rparr>)))"

definition mem_good :: "mem_store \<Rightarrow> bool" where
  "mem_good s \<longleftrightarrow>
     (\<forall>k rid. ms_keys s k = Some rid \<longrightarrow> rid \<noteq> []
        \<and> (\<exists>r. ms_records s rid = Some r \<and> rr_request_key r = k))
     \<and> (\<forall>rid r. ms_records s rid = Some r \<longrightarrow> rr_run_id r = rid \<and> ms_keys s (rr_request_key r) = Some rid)"


section \<open>The Firestore backend\<close>

record fire_store =
  fs_runs :: "string \<rightharpoonup> run_record"
  fs_requests :: "string \<rightharpoonup> run_record"

definition fs_create :: "(string \<Rightarrow> string) \<Rightarrow> run_record \<Rightarrow> fire_store \<Rightarrow> bool \<times> fire_store" where
  "fs_create sha r s =
     (if fs_requests s (sha (rr_request_key r)) \<noteq> None then (False, s)
      else (True, s\<lparr>fs_runs := (fs_runs s)(rr_run_id r \<mapsto> r),
                    fs_requests := (fs_requests s)(sha (rr_request_key r) \<mapsto> r)\<rparr>))"

definition fs_update ::
    "(string \<Rightarrow> string) \<Rightarrow> string \<Rightarrow> run_record \<Rightarrow> int option \<Rightarrow> fire_store \<Rightarrow> bool \<times> fire_store" where
  "fs_update sha rid r expected s =
     (if stale expected (fs_runs s rid) then (False, s)
      else (True, s\<lparr>fs_runs := (fs_runs s)(rid \<mapsto> r),
                    fs_requests := (fs_requests s)(sha (rr_request_key r) \<mapsto> r)\<rparr>))"

definition fs_get :: "string \<Rightarrow> fire_store \<Rightarrow> run_record option" where
  "fs_get rid s = fs_runs s rid"

definition fs_by_key :: "(string \<Rightarrow> string) \<Rightarrow> string \<Rightarrow> fire_store \<Rightarrow> run_record option" where
  "fs_by_key sha k s = fs_requests s (sha k)"

definition fs_reclaim ::
    "(string \<Rightarrow> string) \<Rightarrow> string \<Rightarrow> int \<Rightarrow> string \<Rightarrow> int \<Rightarrow> fire_store \<Rightarrow> run_record option \<times> fire_store" where
  "fs_reclaim sha k lease updated now s =
     (case fs_requests s (sha k) of
        None \<Rightarrow> (None, s)
      | Some current \<Rightarrow>
          if \<not> resumable now current then (None, s)
          else
            let resumed = resume lease updated current
            in (Some resumed, s\<lparr>fs_runs := (fs_runs s)(rr_run_id resumed \<mapsto> resumed),
                                fs_requests := (fs_requests s)(sha k \<mapsto> resumed)\<rparr>))"

definition fs_good :: "(string \<Rightarrow> string) \<Rightarrow> fire_store \<Rightarrow> bool" where
  "fs_good sha s \<longleftrightarrow> inj sha
     \<and> (\<forall>d r. fs_requests s d = Some r \<longrightarrow> sha (rr_request_key r) = d \<and> fs_runs s (rr_run_id r) = Some r)
     \<and> (\<forall>rid r. fs_runs s rid = Some r \<longrightarrow> rr_run_id r = rid \<and> fs_requests s (sha (rr_request_key r)) = Some r)"


section \<open>The contract\<close>

text \<open>The abstract class \<open>RunStore\<close>, over the state \<open>'s\<close> of a backend.\<close>

record 's store_ops =
  so_create :: "run_record \<Rightarrow> 's \<Rightarrow> bool \<times> 's"
  so_update :: "string \<Rightarrow> run_record \<Rightarrow> int option \<Rightarrow> 's \<Rightarrow> bool \<times> 's"
  so_get :: "string \<Rightarrow> 's \<Rightarrow> run_record option"
  so_by_key :: "string \<Rightarrow> 's \<Rightarrow> run_record option"
  so_reclaim :: "string \<Rightarrow> int \<Rightarrow> string \<Rightarrow> int \<Rightarrow> 's \<Rightarrow> run_record option \<times> 's"

definition memory_ops :: "mem_store store_ops" where
  "memory_ops = \<lparr>so_create = mem_create, so_update = mem_update, so_get = mem_get,
     so_by_key = mem_by_key, so_reclaim = mem_reclaim\<rparr>"

definition firestore_ops :: "(string \<Rightarrow> string) \<Rightarrow> fire_store store_ops" where
  "firestore_ops sha = \<lparr>so_create = fs_create sha, so_update = fs_update sha, so_get = fs_get,
     so_by_key = fs_by_key sha, so_reclaim = fs_reclaim sha\<rparr>"

lemma backend_simps [simp]:
  "so_create memory_ops = mem_create" "so_update memory_ops = mem_update"
  "so_get memory_ops = mem_get" "so_by_key memory_ops = mem_by_key" "so_reclaim memory_ops = mem_reclaim"
  "so_create (firestore_ops sha) = fs_create sha" "so_update (firestore_ops sha) = fs_update sha"
  "so_get (firestore_ops sha) = fs_get" "so_by_key (firestore_ops sha) = fs_by_key sha"
  "so_reclaim (firestore_ops sha) = fs_reclaim sha"
  by (simp_all add: memory_ops_def firestore_ops_def)

text \<open>After a write, both views show the record and everything else is as before.\<close>

definition written :: "'s store_ops \<Rightarrow> run_record \<Rightarrow> 's \<Rightarrow> 's \<Rightarrow> bool" where
  "written ops r s s' \<longleftrightarrow>
     so_get ops (rr_run_id r) s' = Some r \<and> so_by_key ops (rr_request_key r) s' = Some r
     \<and> (\<forall>rid. rid \<noteq> rr_run_id r \<longrightarrow> so_get ops rid s' = so_get ops rid s)
     \<and> (\<forall>k. k \<noteq> rr_request_key r \<longrightarrow> so_by_key ops k s' = so_by_key ops k s)"

locale run_store =
  fixes ops :: "'s store_ops" and good :: "'s \<Rightarrow> bool"
  assumes by_key_sound: "good s \<Longrightarrow> so_by_key ops k s = Some r \<Longrightarrow>
      rr_request_key r = k \<and> so_get ops (rr_run_id r) s = Some r"
    and get_sound: "good s \<Longrightarrow> so_get ops rid s = Some r \<Longrightarrow>
      rr_run_id r = rid \<and> so_by_key ops (rr_request_key r) s = Some r"
    and create_taken: "good s \<Longrightarrow> so_by_key ops (rr_request_key r) s \<noteq> None \<Longrightarrow>
      so_create ops r s = (False, s)"
    and create_new: "good s \<Longrightarrow> so_by_key ops (rr_request_key r) s = None \<Longrightarrow>
      so_get ops (rr_run_id r) s = None \<Longrightarrow> rr_run_id r \<noteq> [] \<Longrightarrow>
      \<exists>s'. so_create ops r s = (True, s') \<and> good s' \<and> written ops r s s'"
    and update_stale: "stale expected (so_get ops rid s) \<Longrightarrow> so_update ops rid r expected s = (False, s)"
    and update_current: "good s \<Longrightarrow> so_get ops (rr_run_id r) s = Some cur \<Longrightarrow>
      rr_request_key r = rr_request_key cur \<Longrightarrow> \<not> stale expected (Some cur) \<Longrightarrow>
      \<exists>s'. so_update ops (rr_run_id r) r expected s = (True, s') \<and> good s' \<and> written ops r s s'"
    and reclaim_refused: "good s \<Longrightarrow>
      (\<And>r. so_by_key ops k s = Some r \<Longrightarrow> \<not> resumable now r) \<Longrightarrow>
      so_reclaim ops k lease updated now s = (None, s)"
    and reclaim_granted: "good s \<Longrightarrow> so_by_key ops k s = Some r \<Longrightarrow> resumable now r \<Longrightarrow>
      \<exists>s'. so_reclaim ops k lease updated now s = (Some (resume lease updated r), s') \<and> good s'
        \<and> written ops (resume lease updated r) s s'"

lemma resume_fields [simp]:
  "rr_run_id (resume lease updated r) = rr_run_id r"
  "rr_request_key (resume lease updated r) = rr_request_key r"
  "rr_attempts (resume lease updated r) = attempt_of r + 1"
  "rr_status (resume lease updated r) = ''coordinating''"
  "rr_task_digest (resume lease updated r) = rr_task_digest r"
  by (simp_all add: resume_def)

text \<open>All writes of a backend put one record under its identifier and its key.\<close>

lemma mem_put:
  fixes r :: run_record
  assumes "mem_good s" and "rr_run_id r \<noteq> []"
    and "\<And>cur. ms_records s (rr_run_id r) = Some cur \<Longrightarrow> rr_request_key cur = rr_request_key r"
    and "\<And>rid. ms_keys s (rr_request_key r) = Some rid \<Longrightarrow> rid = rr_run_id r"
  defines "s' \<equiv> s\<lparr>ms_records := (ms_records s)(rr_run_id r \<mapsto> r),
                  ms_keys := (ms_keys s)(rr_request_key r \<mapsto> rr_run_id r)\<rparr>"
  shows "mem_good s' \<and> written memory_ops r s s'"
proof
  show "mem_good s'"
    unfolding mem_good_def
  proof (intro conjI allI impI)
    fix k rid
    assume k: "ms_keys s' k = Some rid"
    show "rid \<noteq> []"
      using k assms(1,2) by (auto simp: s'_def mem_good_def split: if_splits)
    show "\<exists>q. ms_records s' rid = Some q \<and> rr_request_key q = k"
    proof (cases "k = rr_request_key r")
      case True
      with k show ?thesis by (simp add: s'_def)
    next
      case False
      with k assms(1) obtain q where q: "ms_records s rid = Some q" "rr_request_key q = k"
        by (auto simp: s'_def mem_good_def)
      with False assms(3) have "rid \<noteq> rr_run_id r" by auto
      with q show ?thesis by (simp add: s'_def)
    qed
  next
    fix rid q
    assume q: "ms_records s' rid = Some q"
    show "rr_run_id q = rid" using q assms(1) by (auto simp: s'_def mem_good_def split: if_splits)
    show "ms_keys s' (rr_request_key q) = Some rid"
    proof (cases "rid = rr_run_id r")
      case True
      with q show ?thesis by (simp add: s'_def)
    next
      case False
      with q assms(1) have old: "ms_keys s (rr_request_key q) = Some rid"
        by (auto simp: s'_def mem_good_def)
      with False assms(4) have "rr_request_key q \<noteq> rr_request_key r" by auto
      with old show ?thesis by (simp add: s'_def)
    qed
  qed
  have "mem_by_key k s' = mem_by_key k s" if "k \<noteq> rr_request_key r" for k
  proof -
    have "ms_keys s k \<noteq> Some (rr_run_id r)"
    proof
      assume "ms_keys s k = Some (rr_run_id r)"
      with assms(1) obtain q where "ms_records s (rr_run_id r) = Some q" "rr_request_key q = k"
        unfolding mem_good_def by blast
      with assms(3) that show False by simp
    qed
    with that show ?thesis by (auto simp: mem_by_key_def mem_get_def s'_def split: option.split)
  qed
  with assms(2) show "written memory_ops r s s'"
    by (simp add: written_def mem_get_def mem_by_key_def s'_def)
qed

lemma mem_view:
  assumes "mem_good s"
  shows "mem_by_key k s = Some r \<Longrightarrow> ms_keys s k = Some (rr_run_id r)
      \<and> ms_records s (rr_run_id r) = Some r \<and> rr_request_key r = k"
    and "mem_by_key k s = None \<longleftrightarrow> ms_keys s k = None"
    and "ms_records s rid = Some r \<Longrightarrow> rr_run_id r = rid \<and> rid \<noteq> [] \<and> ms_keys s (rr_request_key r) = Some rid"
proof -
  have keys: "\<And>k rid. ms_keys s k = Some rid \<Longrightarrow>
        rid \<noteq> [] \<and> (\<exists>r. ms_records s rid = Some r \<and> rr_request_key r = k)"
    and recs: "\<And>rid r. ms_records s rid = Some r \<Longrightarrow>
        rr_run_id r = rid \<and> ms_keys s (rr_request_key r) = Some rid"
    using assms unfolding mem_good_def by blast+
  show "mem_by_key k s = None \<longleftrightarrow> ms_keys s k = None"
    using keys [of k] by (auto simp: mem_by_key_def mem_get_def split: option.split)
  show "ms_records s rid = Some r \<Longrightarrow> rr_run_id r = rid \<and> rid \<noteq> [] \<and> ms_keys s (rr_request_key r) = Some rid"
    using recs [of rid r] keys [of "rr_request_key r" rid] by blast
  assume "mem_by_key k s = Some r"
  then obtain rid where "ms_keys s k = Some rid" "ms_records s rid = Some r"
    by (auto simp: mem_by_key_def mem_get_def split: option.splits if_splits)
  with recs [of rid r] keys [of k rid] show "ms_keys s k = Some (rr_run_id r)
      \<and> ms_records s (rr_run_id r) = Some r \<and> rr_request_key r = k" by auto
qed

interpretation memory_runs: run_store memory_ops mem_good
proof unfold_locales
  fix s k and r :: run_record
  assume "mem_good s" "so_by_key memory_ops k s = Some r"
  then show "rr_request_key r = k \<and> so_get memory_ops (rr_run_id r) s = Some r"
    using mem_view(1) [of s k r] by (simp add: mem_get_def)
next
  fix s rid and r :: run_record
  assume "mem_good s" "so_get memory_ops rid s = Some r"
  then show "rr_run_id r = rid \<and> so_by_key memory_ops (rr_request_key r) s = Some r"
    using mem_view(3) [of s rid r] by (simp add: mem_get_def mem_by_key_def)
next
  fix s and r :: run_record
  assume "mem_good s" "so_by_key memory_ops (rr_request_key r) s \<noteq> None"
  then show "so_create memory_ops r s = (False, s)"
    using mem_view(2) [of s] by (simp add: mem_create_def)
next
  fix s and r :: run_record
  assume *: "mem_good s" "so_by_key memory_ops (rr_request_key r) s = None"
    "so_get memory_ops (rr_run_id r) s = None" "rr_run_id r \<noteq> []"
  then have "ms_keys s (rr_request_key r) = None" using mem_view(2) by simp
  with * mem_put [of s r] show "\<exists>s'. so_create memory_ops r s = (True, s') \<and> mem_good s'
      \<and> written memory_ops r s s'"
    by (simp add: mem_create_def mem_get_def)
next
  fix expected rid s and r :: run_record
  assume "stale expected (so_get memory_ops rid s)"
  then show "so_update memory_ops rid r expected s = (False, s)" by (simp add: mem_update_def mem_get_def)
next
  fix s and r cur :: run_record and expected
  assume *: "mem_good s" "so_get memory_ops (rr_run_id r) s = Some cur"
    "rr_request_key r = rr_request_key cur" "\<not> stale expected (Some cur)"
  have "rr_run_id r \<noteq> []" and "\<And>q. ms_records s (rr_run_id r) = Some q \<Longrightarrow>
        rr_request_key q = rr_request_key r"
    and "\<And>rid. ms_keys s (rr_request_key r) = Some rid \<Longrightarrow> rid = rr_run_id r"
    using *(2,3) mem_view(3) [OF *(1), of "rr_run_id r" cur] by (simp_all add: mem_get_def)
  from mem_put [OF *(1) this] *(2,4)
  show "\<exists>s'. so_update memory_ops (rr_run_id r) r expected s = (True, s')
      \<and> mem_good s' \<and> written memory_ops r s s'"
    by (simp add: mem_update_def mem_get_def)
next
  fix s k now lease updated
  assume "mem_good s" "\<And>r. so_by_key memory_ops k s = Some r \<Longrightarrow> \<not> resumable now r"
  then show "so_reclaim memory_ops k lease updated now s = (None, s)"
    by (auto simp: mem_reclaim_def mem_by_key_def mem_get_def split: option.splits)
next
  fix s k and r :: run_record and now lease updated
  assume *: "mem_good s" "so_by_key memory_ops k s = Some r" "resumable now r"
  then have "ms_keys s k = Some (rr_run_id r)" "ms_records s (rr_run_id r) = Some r" "rr_request_key r = k"
    using mem_view(1) [of s k r] by simp_all
  moreover from this * have "rr_run_id r \<noteq> []" using mem_view(3) [of s "rr_run_id r" r] by simp
  ultimately have "mem_reclaim k lease updated now s = (Some (resume lease updated r),
        s\<lparr>ms_records := (ms_records s)(rr_run_id (resume lease updated r) \<mapsto> resume lease updated r),
          ms_keys := (ms_keys s)(rr_request_key (resume lease updated r)
            \<mapsto> rr_run_id (resume lease updated r))\<rparr>)"
    and "rr_run_id (resume lease updated r) \<noteq> []"
    and "\<And>cur. ms_records s (rr_run_id (resume lease updated r)) = Some cur \<Longrightarrow>
        rr_request_key cur = rr_request_key (resume lease updated r)"
    and "\<And>rid. ms_keys s (rr_request_key (resume lease updated r)) = Some rid \<Longrightarrow>
        rid = rr_run_id (resume lease updated r)"
    using *(3) by (simp_all add: mem_reclaim_def Let_def)
  from this(1) mem_put [OF *(1) this(2-4)]
  show "\<exists>s'. so_reclaim memory_ops k lease updated now s = (Some (resume lease updated r), s')
      \<and> mem_good s' \<and> written memory_ops (resume lease updated r) s s'" by simp
qed

lemma fs_put:
  fixes r :: run_record
  assumes "fs_good sha s"
    and "\<And>cur. fs_runs s (rr_run_id r) = Some cur \<Longrightarrow> rr_request_key cur = rr_request_key r"
    and "\<And>cur. fs_requests s (sha (rr_request_key r)) = Some cur \<Longrightarrow> rr_run_id cur = rr_run_id r"
  defines "s' \<equiv> s\<lparr>fs_runs := (fs_runs s)(rr_run_id r \<mapsto> r),
                  fs_requests := (fs_requests s)(sha (rr_request_key r) \<mapsto> r)\<rparr>"
  shows "fs_good sha s' \<and> written (firestore_ops sha) r s s'"
proof
  have inj: "inj sha"
    and reqs: "\<And>d q. fs_requests s d = Some q \<Longrightarrow>
        sha (rr_request_key q) = d \<and> fs_runs s (rr_run_id q) = Some q"
    and runs: "\<And>rid q. fs_runs s rid = Some q \<Longrightarrow>
        rr_run_id q = rid \<and> fs_requests s (sha (rr_request_key q)) = Some q"
    using assms(1) unfolding fs_good_def by blast+
  have new_reqs: "sha (rr_request_key q) = d \<and> fs_runs s' (rr_run_id q) = Some q"
    if q: "fs_requests s' d = Some q" for d q
  proof (cases "d = sha (rr_request_key r)")
    case True
    with q show ?thesis by (simp add: s'_def)
  next
    case False
    with q have old: "fs_requests s d = Some q" by (simp add: s'_def)
    have "rr_run_id q \<noteq> rr_run_id r"
    proof
      assume "rr_run_id q = rr_run_id r"
      with reqs [OF old] assms(2) have "rr_request_key q = rr_request_key r" by simp
      with reqs [OF old] False show False by simp
    qed
    with reqs [OF old] show ?thesis by (simp add: s'_def)
  qed
  have new_runs: "rr_run_id q = rid \<and> fs_requests s' (sha (rr_request_key q)) = Some q"
    if q: "fs_runs s' rid = Some q" for rid q
  proof (cases "rid = rr_run_id r")
    case True
    with q show ?thesis by (simp add: s'_def)
  next
    case False
    with q have old: "fs_runs s rid = Some q" by (simp add: s'_def)
    have "sha (rr_request_key q) \<noteq> sha (rr_request_key r)"
    proof
      assume "sha (rr_request_key q) = sha (rr_request_key r)"
      with runs [OF old] assms(3) have "rr_run_id q = rr_run_id r" by simp
      with runs [OF old] False show False by simp
    qed
    with runs [OF old] show ?thesis by (simp add: s'_def)
  qed
  show "fs_good sha s'"
    unfolding fs_good_def using inj new_reqs new_runs by blast
  show "written (firestore_ops sha) r s s'"
    using inj by (simp add: written_def fs_get_def fs_by_key_def s'_def inj_eq)
qed

lemma fs_view:
  assumes "fs_good sha s"
  shows "fs_requests s (sha k) = Some r \<Longrightarrow> rr_request_key r = k \<and> fs_runs s (rr_run_id r) = Some r"
    and "fs_runs s rid = Some r \<Longrightarrow> rr_run_id r = rid \<and> fs_requests s (sha (rr_request_key r)) = Some r"
  using assms unfolding fs_good_def by (blast dest: injD)+

interpretation firestore_runs: run_store "firestore_ops sha" "fs_good sha" for sha
proof unfold_locales
  fix s k and r :: run_record
  assume "fs_good sha s" "so_by_key (firestore_ops sha) k s = Some r"
  then show "rr_request_key r = k \<and> so_get (firestore_ops sha) (rr_run_id r) s = Some r"
    using fs_view(1) by (simp add: fs_by_key_def fs_get_def)
next
  fix s rid and r :: run_record
  assume "fs_good sha s" "so_get (firestore_ops sha) rid s = Some r"
  then show "rr_run_id r = rid \<and> so_by_key (firestore_ops sha) (rr_request_key r) s = Some r"
    using fs_view(2) by (simp add: fs_by_key_def fs_get_def)
next
  fix s and r :: run_record
  assume "so_by_key (firestore_ops sha) (rr_request_key r) s \<noteq> None"
  then show "so_create (firestore_ops sha) r s = (False, s)" by (simp add: fs_create_def fs_by_key_def)
next
  fix s and r :: run_record
  assume "fs_good sha s" "so_by_key (firestore_ops sha) (rr_request_key r) s = None"
    "so_get (firestore_ops sha) (rr_run_id r) s = None" "rr_run_id r \<noteq> []"
  with fs_put [of sha s r] show "\<exists>s'. so_create (firestore_ops sha) r s = (True, s') \<and> fs_good sha s'
      \<and> written (firestore_ops sha) r s s'"
    by (simp add: fs_create_def fs_by_key_def fs_get_def)
next
  fix expected rid s and r :: run_record
  assume "stale expected (so_get (firestore_ops sha) rid s)"
  then show "so_update (firestore_ops sha) rid r expected s = (False, s)"
    by (simp add: fs_update_def fs_get_def)
next
  fix s and r cur :: run_record and expected
  assume *: "fs_good sha s" "so_get (firestore_ops sha) (rr_run_id r) s = Some cur"
    "rr_request_key r = rr_request_key cur" "\<not> stale expected (Some cur)"
  then have "fs_requests s (sha (rr_request_key r)) = Some cur" "rr_run_id cur = rr_run_id r"
    using fs_view(2) [of sha s "rr_run_id r" cur] by (simp_all add: fs_get_def)
  with * fs_put [of sha s r] show "\<exists>s'. so_update (firestore_ops sha) (rr_run_id r) r expected s = (True, s')
      \<and> fs_good sha s' \<and> written (firestore_ops sha) r s s'"
    by (simp add: fs_update_def fs_get_def)
next
  fix s k now lease updated
  assume "\<And>r. so_by_key (firestore_ops sha) k s = Some r \<Longrightarrow> \<not> resumable now r"
  then show "so_reclaim (firestore_ops sha) k lease updated now s = (None, s)"
    by (auto simp: fs_reclaim_def fs_by_key_def split: option.splits)
next
  fix s k and r :: run_record and now lease updated
  assume *: "fs_good sha s" "so_by_key (firestore_ops sha) k s = Some r" "resumable now r"
  then have "rr_request_key r = k" "fs_runs s (rr_run_id r) = Some r"
    using fs_view(1) [of sha s k r] by (simp_all add: fs_by_key_def)
  then have "fs_reclaim sha k lease updated now s = (Some (resume lease updated r),
        s\<lparr>fs_runs := (fs_runs s)(rr_run_id (resume lease updated r) \<mapsto> resume lease updated r),
          fs_requests := (fs_requests s)(sha (rr_request_key (resume lease updated r))
            \<mapsto> resume lease updated r)\<rparr>)"
    and "\<And>cur. fs_runs s (rr_run_id (resume lease updated r)) = Some cur \<Longrightarrow>
        rr_request_key cur = rr_request_key (resume lease updated r)"
    and "\<And>cur. fs_requests s (sha (rr_request_key (resume lease updated r))) = Some cur \<Longrightarrow>
        rr_run_id cur = rr_run_id (resume lease updated r)"
    using *(2,3) by (simp_all add: fs_reclaim_def fs_by_key_def Let_def)
  from this(1) fs_put [OF *(1) this(2,3)]
  show "\<exists>s'. so_reclaim (firestore_ops sha) k lease updated now s = (Some (resume lease updated r), s')
      \<and> fs_good sha s' \<and> written (firestore_ops sha) (resume lease updated r) s s'" by simp
qed

end
