(* ===== verification/Coordination.thy ===== *)
theory Coordination
  imports Run_Store
begin

text \<open>
  The cloud coordinator after \<open>cloud/service.py\<close> and \<open>cloud/rally_adk/handoff.py\<close>: the service
  token, the handoff, one coordination attempt, a commission from its lookup to its answer, and
  the endpoints in front of it. Then the protocol of attempts as a step relation: whatever
  number of requests overlap, each touches the store only by its steps.
\<close>

section \<open>Requests and answers\<close>

datatype service_error = HTTP nat string | ServerError string

type_synonym 'a answer = "service_error + 'a"

text \<open>
  What one request meets: the clock, the fresh identifier, the digest, the events of the ADK
  runner, \<open>RALLY_MAX_TURNS\<close>. A second component \<open>True\<close> marks a final response.
\<close>

record service_env =
  sv_now :: int
  sv_stamp :: string
  sv_retention :: string
  sv_new_id :: string
  sv_sha :: "string \<Rightarrow> string"
  sv_max_turns :: "string option"
  sv_events :: "string \<Rightarrow> string \<Rightarrow> string + ((string option) list \<times> bool) list"

definition COORDINATION_LEASE_SECONDS :: int where "COORDINATION_LEASE_SECONDS = 330"

definition require_service_token ::
    "string option \<Rightarrow> string option \<Rightarrow> string option \<Rightarrow> unit answer" where
  "require_service_token expected insecure token =
     (if expected \<in> {None, Some []} then
        (if insecure = Some ''1'' then Inr ()
         else Inl (HTTP 503 ''service authentication is not configured''))
      else if token \<in> {None, Some []} \<or> token \<noteq> expected
      then Inl (HTTP 401 ''invalid service token'')
      else Inr ())"

definition build_handoff :: "string option \<Rightarrow> string \<Rightarrow> handoff answer" where
  "build_handoff max_turns text =
     (let clean = join '' '' (split_ws text) in
      if clean = [] then Inl (ServerError ''task must not be empty'')
      else case parse_int (case max_turns of None \<Rightarrow> ''12'' | Some s \<Rightarrow> s) of
             None \<Rightarrow> Inl (ServerError ''invalid literal for int()'')
           | Some n \<Rightarrow> Inr \<lparr>ho_task = clean, ho_requires_verification = True, ho_max_turns = n\<rparr>)"

text \<open>The text of the last final response; a failure of the runner carries its type's name.\<close>

fun final_text :: "string \<Rightarrow> ((string option) list \<times> bool) list \<Rightarrow> string" where
  "final_text acc [] = acc"
| "final_text acc ((parts, final) # events) =
     final_text (if final then strip (concat (map (\<lambda>p. case p of None \<Rightarrow> [] | Some t \<Rightarrow> t) parts)) else acc)
       events"

definition run_coordinator :: "service_env \<Rightarrow> string \<Rightarrow> string \<Rightarrow> int \<Rightarrow> string + string" where
  "run_coordinator env text rid attempt =
     (case sv_events env text (rid @ ''-a'' @ show_int attempt) of
        Inl exc \<Rightarrow> Inl exc
      | Inr events \<Rightarrow>
          (let out = final_text [] events in if out = [] then Inl ''RuntimeError'' else Inr out))"

definition new_record :: "service_env \<Rightarrow> string \<Rightarrow> string \<Rightarrow> string \<Rightarrow> handoff \<Rightarrow> run_record" where
  "new_record env text rid key h =
     \<lparr>rr_run_id = rid, rr_request_key = key, rr_status = ''coordinating'', rr_handoff = h,
      rr_task_digest = sv_sha env text, rr_attempts = 1, rr_created_at = sv_stamp env,
      rr_updated_at = sv_stamp env, rr_retention_until = sv_retention env,
      rr_lease = Some (sv_now env + COORDINATION_LEASE_SECONDS), rr_error = None,
      rr_coordinator_record = None\<rparr>"

definition settle :: "string \<Rightarrow> string + string \<Rightarrow> run_record \<Rightarrow> run_record" where
  "settle stamp outcome r =
     (case outcome of
        Inl exc \<Rightarrow> r\<lparr>rr_status := ''coordinator_failed'', rr_error := Some exc,
                     rr_updated_at := stamp, rr_lease := None\<rparr>
      | Inr out \<Rightarrow> r\<lparr>rr_status := ''ready_for_rally'', rr_coordinator_record := Some out,
                     rr_updated_at := stamp, rr_lease := None\<rparr>)"

text \<open>
  One fenced attempt: the coordinator runs while other requests may change the store (\<open>work\<close>),
  then the terminal state is written unless a newer attempt owns the record. The flag of an
  answer is its \<open>duplicate\<close> field.
\<close>

definition finish_coordination ::
    "'s store_ops \<Rightarrow> ('s \<Rightarrow> 's) \<Rightarrow> service_env \<Rightarrow> run_record \<Rightarrow> string \<Rightarrow> 's
       \<Rightarrow> (run_record \<times> bool) answer \<times> 's" where
  "finish_coordination ops work env r text s =
     (let attempt = attempt_of r;
          outcome = run_coordinator env text (rr_run_id r) attempt;
          done' = settle (sv_stamp env) outcome r;
          (ok, s1) = so_update ops (rr_run_id r) done' (Some attempt) (work s) in
      case outcome of
        Inl exc \<Rightarrow> (Inl (HTTP 502 ''ADK coordinator failed''), s1)
      | Inr out \<Rightarrow>
          (if ok then (Inr (done', False), s1)
           else case so_get ops (rr_run_id r) s1 of
                  Some current \<Rightarrow> (Inr (current, True), s1)
                | None \<Rightarrow> (Inl (HTTP 409 ''coordination ownership changed''), s1)))"

text \<open>
  A commission: \<open>gap\<close> is what other requests do between its lookup and its claim. Empty
  identifiers stand for absent ones.
\<close>

definition request_run_id :: "service_env \<Rightarrow> string \<Rightarrow> string" where
  "request_run_id env rid = (if rid \<noteq> [] then rid else ''r-'' @ take 10 (sv_new_id env))"

definition request_key_of :: "service_env \<Rightarrow> string \<Rightarrow> string \<Rightarrow> string" where
  "request_key_of env rid key = (if key \<noteq> [] then key else request_run_id env rid)"

definition submit_commission ::
    "'s store_ops \<Rightarrow> ('s \<Rightarrow> 's) \<Rightarrow> ('s \<Rightarrow> 's) \<Rightarrow> service_env \<Rightarrow> string \<Rightarrow> string \<Rightarrow> string \<Rightarrow> 's
       \<Rightarrow> (run_record \<times> bool) answer \<times> 's" where
  "submit_commission ops gap work env text rid0 key0 s =
     (let rid = request_run_id env rid0; key = request_key_of env rid0 key0 in
      case so_by_key ops key s of
        Some existing \<Rightarrow>
          (if rr_task_digest existing \<noteq> sv_sha env text
           then (Inl (HTTP 409 ''idempotency key is already bound to another commission''), s)
           else if rr_status existing \<in> {''coordinator_failed'', ''coordinating''} then
             (case so_reclaim ops key (sv_now env + COORDINATION_LEASE_SECONDS) (sv_stamp env)
                     (sv_now env) (gap s) of
                (Some resumed, s1) \<Rightarrow> finish_coordination ops work env resumed text s1
              | (None, s1) \<Rightarrow> (Inr (existing, True), s1))
           else (Inr (existing, True), s))
      | None \<Rightarrow>
          (case build_handoff (sv_max_turns env) text of
             Inl e \<Rightarrow> (Inl e, s)
           | Inr h \<Rightarrow>
               (let r = new_record env text rid key h in
                case so_create ops r (gap s) of
                  (True, s1) \<Rightarrow> finish_coordination ops work env r text s1
                | (False, s1) \<Rightarrow>
                    (case so_by_key ops key s1 of
                       None \<Rightarrow> (Inl (HTTP 409 ''idempotent request is still committing''), s1)
                     | Some existing \<Rightarrow> (Inr (existing, True), s1)))))"

text \<open>The body of the endpoint: \<open>r-\<close> and 3 to 80 letters, digits and dashes.\<close>

definition body_run_id :: "string \<Rightarrow> bool" where
  "body_run_id s \<longleftrightarrow> take 2 s = ''r-'' \<and> 5 \<le> length s \<and> length s \<le> 82
     \<and> list_all (\<lambda>c. let n = (of_char c :: nat) in
          (48 \<le> n \<and> n \<le> 57) \<or> (65 \<le> n \<and> n \<le> 90) \<or> (97 \<le> n \<and> n \<le> 122) \<or> c = CHR ''-'') (drop 2 s)"

definition commission_endpoint ::
    "'s store_ops \<Rightarrow> ('s \<Rightarrow> 's) \<Rightarrow> ('s \<Rightarrow> 's) \<Rightarrow> service_env \<Rightarrow> string option \<Rightarrow> string option
       \<Rightarrow> string option \<Rightarrow> string \<Rightarrow> string option \<Rightarrow> string option \<Rightarrow> 's
       \<Rightarrow> (run_record \<times> bool) answer \<times> 's" where
  "commission_endpoint ops gap work env expected insecure token text rid key s =
     (if \<not> (1 \<le> length text \<and> length text \<le> 12000)
         \<or> (case rid of None \<Rightarrow> False | Some r \<Rightarrow> \<not> body_run_id r)
      then (Inl (HTTP 422 ''invalid body''), s)
      else case require_service_token expected insecure token of
             Inl e \<Rightarrow> (Inl e, s)
           | Inr _ \<Rightarrow> submit_commission ops gap work env text
                        (case rid of None \<Rightarrow> [] | Some r \<Rightarrow> r) (case key of None \<Rightarrow> [] | Some k \<Rightarrow> k) s)"

definition run_status ::
    "'s store_ops \<Rightarrow> string option \<Rightarrow> string option \<Rightarrow> string option \<Rightarrow> string \<Rightarrow> 's \<Rightarrow> run_record answer" where
  "run_status ops expected insecure token rid s =
     (case require_service_token expected insecure token of
        Inl e \<Rightarrow> Inl e
      | Inr _ \<Rightarrow> (case so_get ops rid s of None \<Rightarrow> Inl (HTTP 404 ''run not found'') | Some r \<Rightarrow> Inr r))"


section \<open>The protocol of attempts\<close>

text \<open>
  The store and the attempts in flight, each with its own copy of the record. An attempt is
  claimed with a new key, resumed under a lease that ran out or after a failure, and finished
  once, in success or failure.
\<close>

inductive store_step ::
    "'s store_ops \<Rightarrow> 's \<times> run_record set \<Rightarrow> 's \<times> run_record set \<Rightarrow> bool" for ops where
  Claim: "so_create ops r s = (True, s') \<Longrightarrow> so_get ops (rr_run_id r) s = None \<Longrightarrow> rr_run_id r \<noteq> [] \<Longrightarrow>
    so_by_key ops (rr_request_key r) s = None \<Longrightarrow> rr_status r = ''coordinating'' \<Longrightarrow> rr_attempts r = 1 \<Longrightarrow>
    store_step ops (s, F) (s', insert r F)"
| Reclaim: "so_reclaim ops k lease updated now s = (Some r, s') \<Longrightarrow>
    store_step ops (s, F) (s', insert r F)"
| Finish: "r \<in> F \<Longrightarrow> so_update ops (rr_run_id r) (settle stamp outcome r) (Some (attempt_of r)) s = (ok, s') \<Longrightarrow>
    store_step ops (s, F) (s', F - {r})"

inductive_cases store_stepE [consumes 1, case_names Claim Reclaim Finish]:
  "store_step ops (s, F) (s', F')"

lemma settle_fields [simp]:
  "rr_run_id (settle stamp outcome r) = rr_run_id r"
  "rr_request_key (settle stamp outcome r) = rr_request_key r"
  "rr_attempts (settle stamp outcome r) = rr_attempts r"
  "rr_task_digest (settle stamp outcome r) = rr_task_digest r"
  by (simp_all add: settle_def split: sum.split)

text \<open>What a flight and the record it works on agree on.\<close>

definition flies :: "run_record \<Rightarrow> run_record \<Rightarrow> bool" where
  "flies f cur \<longleftrightarrow> rr_request_key f = rr_request_key cur \<and> rr_task_digest f = rr_task_digest cur
     \<and> rr_attempts f \<le> rr_attempts cur
     \<and> (rr_attempts f = rr_attempts cur \<longrightarrow> rr_status cur = ''coordinating'')"

lemma flies_below:
  "flies f cur \<Longrightarrow> flies r cur \<Longrightarrow> rr_attempts f \<noteq> rr_attempts r \<Longrightarrow> rr_attempts cur = rr_attempts r \<Longrightarrow>
     flies f (settle stamp outcome r)"
  by (simp add: flies_def)

definition flights_ok :: "'s store_ops \<Rightarrow> 's \<Rightarrow> run_record set \<Rightarrow> bool" where
  "flights_ok ops s F \<longleftrightarrow>
     (\<forall>rid r. so_get ops rid s = Some r \<longrightarrow> 1 \<le> rr_attempts r)
     \<and> (\<forall>f \<in> F. 1 \<le> rr_attempts f \<and> (\<exists>cur. so_get ops (rr_run_id f) s = Some cur \<and> flies f cur))
     \<and> (\<forall>f \<in> F. \<forall>g \<in> F. rr_run_id f = rr_run_id g \<and> rr_attempts f = rr_attempts g \<longrightarrow> f = g)"

text \<open>What a step does to the record of any run: it is kept once ready, and never replaced.\<close>

definition grows :: "run_record option \<Rightarrow> run_record option \<Rightarrow> bool" where
  "grows old new \<longleftrightarrow> (\<forall>r. old = Some r \<longrightarrow> (\<exists>r'. new = Some r'
     \<and> rr_request_key r' = rr_request_key r \<and> rr_task_digest r' = rr_task_digest r
     \<and> rr_attempts r \<le> rr_attempts r' \<and> (rr_status r = ''ready_for_rally'' \<longrightarrow> r' = r)))"

lemma grows_refl [simp]: "grows x x"
  by (simp add: grows_def)

lemma grows_trans: "grows x y \<Longrightarrow> grows y z \<Longrightarrow> grows x z"
  unfolding grows_def by (fastforce intro: order_trans)

context run_store
begin

lemma create_fresh:
  assumes "good s" "so_create ops r s = (True, s')" "so_by_key ops (rr_request_key r) s = None"
    "so_get ops (rr_run_id r) s = None" "rr_run_id r \<noteq> []"
  shows "good s' \<and> written ops r s s'"
  using create_new [OF assms(1,3,4,5)] assms(2) by auto

lemma reclaim_Some:
  assumes "good s" "so_reclaim ops k lease updated now s = (Some r, s')"
  shows "\<exists>cur. so_by_key ops k s = Some cur \<and> resumable now cur \<and> r = resume lease updated cur
    \<and> good s' \<and> written ops r s s'"
proof (cases "\<exists>cur. so_by_key ops k s = Some cur \<and> resumable now cur")
  case True
  then obtain cur where "so_by_key ops k s = Some cur" "resumable now cur" by blast
  with reclaim_granted [OF assms(1) this, of lease updated] assms(2) show ?thesis by auto
next
  case False
  with reclaim_refused [OF assms(1), of k now] assms(2) show ?thesis by auto
qed

lemma reclaim_None: "good s \<Longrightarrow> so_reclaim ops k lease updated now s = (None, s') \<Longrightarrow> s' = s"
  using reclaim_granted reclaim_refused by (metis option.distinct(1) prod.inject)

lemma update_cases:
  assumes "good s" "so_get ops (rr_run_id r) s = Some cur" "rr_request_key r = rr_request_key cur"
    "so_update ops (rr_run_id r) r (Some a) s = (ok, s')"
  shows "rr_attempts cur \<noteq> a \<and> \<not> ok \<and> s' = s
    \<or> rr_attempts cur = a \<and> ok \<and> good s' \<and> written ops r s s'"
proof (cases "rr_attempts cur = a")
  case True
  with update_current [OF assms(1-3), of "Some a"] assms(4) show ?thesis by (auto simp: stale_def)
next
  case False
  with update_stale [of "Some a" "rr_run_id r" s r] assms(2,4) show ?thesis by (simp add: stale_def)
qed

lemma writtenD:
  assumes "written ops r s s'"
  shows "so_get ops rid s' = (if rid = rr_run_id r then Some r else so_get ops rid s)"
    and "so_by_key ops k s' = (if k = rr_request_key r then Some r else so_by_key ops k s)"
  using assms by (auto simp: written_def)

lemma flights_okD:
  assumes "flights_ok ops s F" and "f \<in> F"
  obtains cur where "so_get ops (rr_run_id f) s = Some cur" "flies f cur" "1 \<le> rr_attempts f"
  using assms unfolding flights_ok_def by blast

text \<open>A flight is unharmed by a write to another run, and by a newer attempt of its own.\<close>

lemma flights_ok_write:
  assumes F: "flights_ok ops s F" and w: "written ops r s s'" and pos: "1 \<le> rr_attempts r"
    and own: "\<And>f. f \<in> F' \<Longrightarrow> rr_run_id f = rr_run_id r \<Longrightarrow> 1 \<le> rr_attempts f \<and> flies f r"
    and other: "\<And>f. f \<in> F' \<Longrightarrow> rr_run_id f \<noteq> rr_run_id r \<Longrightarrow> f \<in> F"
    and unique: "\<And>f g. f \<in> F' \<Longrightarrow> g \<in> F' \<Longrightarrow> rr_run_id f = rr_run_id g \<Longrightarrow> rr_attempts f = rr_attempts g \<Longrightarrow> f = g"
  shows "flights_ok ops s' F'"
  unfolding flights_ok_def
proof (intro conjI allI ballI impI)
  fix rid q
  assume "so_get ops rid s' = Some q"
  with w pos F show "1 \<le> rr_attempts q"
    by (cases "rid = rr_run_id r") (simp_all add: writtenD(1) flights_ok_def)
next
  fix f
  assume f: "f \<in> F'"
  show "1 \<le> rr_attempts f"
    using own [OF f] other [OF f] F by (cases "rr_run_id f = rr_run_id r") (simp_all add: flights_ok_def)
  show "\<exists>cur. so_get ops (rr_run_id f) s' = Some cur \<and> flies f cur"
  proof (cases "rr_run_id f = rr_run_id r")
    case True
    with own [OF f True] w show ?thesis by (simp add: writtenD(1))
  next
    case False
    from other [OF f False] F obtain cur where "so_get ops (rr_run_id f) s = Some cur" "flies f cur"
      unfolding flights_ok_def by blast
    with False w show ?thesis by (simp add: writtenD(1))
  qed
next
  fix f g
  assume "f \<in> F'" "g \<in> F'" "rr_run_id f = rr_run_id g \<and> rr_attempts f = rr_attempts g"
  then show "f = g" using unique by blast
qed

lemma step_keeps:
  assumes "store_step ops (s, F) (s', F')" and "good s" and ok: "flights_ok ops s F"
  shows "good s' \<and> flights_ok ops s' F' \<and> (\<forall>rid. grows (so_get ops rid s) (so_get ops rid s'))"
  using assms(1)
proof (cases rule: store_stepE)
  case (Claim r)
  with create_fresh assms(2) have w: "good s'" "written ops r s s'" by auto
  have none: "f \<in> F \<Longrightarrow> rr_run_id f \<noteq> rr_run_id r" for f
    using flights_okD [OF ok, of f] Claim(3) by (metis option.distinct(1))
  have own: "flies r r" using Claim(6) by (simp add: flies_def)
  have unique: "f \<in> F \<Longrightarrow> g \<in> F \<Longrightarrow> rr_run_id f = rr_run_id g \<Longrightarrow> rr_attempts f = rr_attempts g \<Longrightarrow> f = g"
    for f g using ok unfolding flights_ok_def by blast
  have "flights_ok ops s' F'"
    unfolding Claim(1)
  proof (rule flights_ok_write [OF ok w(2)])
    show "1 \<le> rr_attempts r" using Claim(7) by simp
  next
    fix f assume "f \<in> insert r F" "rr_run_id f = rr_run_id r"
    with none have "f = r" by blast
    with own Claim(7) show "1 \<le> rr_attempts f \<and> flies f r" by simp
  next
    fix f g assume "f \<in> insert r F" "g \<in> insert r F" "rr_run_id f = rr_run_id g" "rr_attempts f = rr_attempts g"
    with none unique show "f = g" by (metis insertE)
  qed auto
  moreover have "grows (so_get ops rid s) (so_get ops rid s')" for rid
    using w(2) Claim(3) by (simp add: writtenD(1) grows_def)
  ultimately show ?thesis using w(1) by blast
next
  case (Reclaim k lease updated now r)
  then obtain cur where cur: "so_by_key ops k s = Some cur" "resumable now cur"
    and r: "r = resume lease updated cur" and w: "good s'" "written ops r s s'"
    using reclaim_Some [OF assms(2)] by blast
  have at: "so_get ops (rr_run_id cur) s = Some cur" using by_key_sound [OF assms(2) cur(1)] by simp
  then have pos: "1 \<le> rr_attempts cur" using ok by (simp add: flights_ok_def)
  then have next_attempt: "rr_attempts r = rr_attempts cur + 1" by (simp add: r attempt_of_def)
  have unique: "f \<in> F \<Longrightarrow> g \<in> F \<Longrightarrow> rr_run_id f = rr_run_id g \<Longrightarrow> rr_attempts f = rr_attempts g \<Longrightarrow> f = g"
    for f g using ok unfolding flights_ok_def by blast
  have old: "f \<in> F \<Longrightarrow> rr_run_id f = rr_run_id r \<Longrightarrow> 1 \<le> rr_attempts f \<and> flies f cur" for f
    using flights_okD [OF ok, of f] at by (metis option.inject r resume_fields(1))
  have "flights_ok ops s' F'"
    unfolding Reclaim(1)
  proof (rule flights_ok_write [OF ok w(2)])
    show "1 \<le> rr_attempts r" using pos next_attempt by simp
  next
    fix f assume "f \<in> insert r F" "rr_run_id f = rr_run_id r"
    then show "1 \<le> rr_attempts f \<and> flies f r"
      using old [of f] pos next_attempt by (auto simp: flies_def r)
  next
    fix f g assume "f \<in> insert r F" "g \<in> insert r F" "rr_run_id f = rr_run_id g" "rr_attempts f = rr_attempts g"
    then show "f = g" using old [of f] old [of g] next_attempt unique by (auto simp: flies_def)
  qed auto
  moreover have "grows (so_get ops rid s) (so_get ops rid s')" for rid
    using w(2) at cur(2) next_attempt
    by (cases "rid = rr_run_id r") (auto simp: writtenD(1) grows_def r resumable_def)
  ultimately show ?thesis using w(1) by blast
next
  case (Finish r stamp outcome b)
  from flights_okD [OF ok Finish(2)] obtain cur where cur: "so_get ops (rr_run_id r) s = Some cur"
    "flies r cur" "1 \<le> rr_attempts r" by blast
  then have a: "attempt_of r = rr_attempts r" by (simp add: attempt_of_def)
  let ?r = "settle stamp outcome r"
  have "rr_attempts cur \<noteq> rr_attempts r \<and> s' = s \<or> rr_attempts cur = rr_attempts r \<and> good s' \<and> written ops ?r s s'"
    using update_cases [OF assms(2), of ?r cur "rr_attempts r" b s'] cur Finish(3) a by (auto simp: flies_def)
  then show ?thesis
  proof
    assume "rr_attempts cur \<noteq> rr_attempts r \<and> s' = s"
    moreover from ok have "flights_ok ops s (F - {r})" unfolding flights_ok_def by blast
    ultimately show ?thesis using assms(2) Finish(1) by simp
  next
    assume w: "rr_attempts cur = rr_attempts r \<and> good s' \<and> written ops ?r s s'"
    have lower: "1 \<le> rr_attempts f \<and> flies f cur \<and> rr_attempts f \<noteq> rr_attempts r"
      if f: "f \<in> F - {r}" "rr_run_id f = rr_run_id r" for f
    proof -
      from flights_okD [OF ok, of f] f cur(1) have "flies f cur" "1 \<le> rr_attempts f" by auto
      moreover have "rr_attempts f \<noteq> rr_attempts r"
        using ok f Finish(2) unfolding flights_ok_def by blast
      ultimately show ?thesis by blast
    qed
    have "flights_ok ops s' F'"
      unfolding Finish(1)
    proof (rule flights_ok_write [OF ok])
      show "written ops ?r s s'" using w by blast
      show "1 \<le> rr_attempts ?r" using cur(3) by simp
    next
      fix f assume "f \<in> F - {r}" "rr_run_id f = rr_run_id ?r"
      then have "1 \<le> rr_attempts f" "flies f cur" "rr_attempts f \<noteq> rr_attempts r"
        using lower [of f] by simp_all
      with flies_below [OF this(2) cur(2) this(3)] w show "1 \<le> rr_attempts f \<and> flies f ?r" by blast
    next
      fix f g assume "f \<in> F - {r}" "g \<in> F - {r}" "rr_run_id f = rr_run_id g" "rr_attempts f = rr_attempts g"
      with ok show "f = g" unfolding flights_ok_def by blast
    qed auto
    moreover have "grows (so_get ops rid s) (so_get ops rid s')" for rid
      using w cur by (cases "rid = rr_run_id r") (auto simp: writtenD(1) grows_def flies_def)
    ultimately show ?thesis using w by blast
  qed
qed

lemma steps_keep:
  assumes "(store_step ops)\<^sup>*\<^sup>* c c'"
  shows "good (fst c) \<Longrightarrow> flights_ok ops (fst c) (snd c) \<Longrightarrow>
    good (fst c') \<and> flights_ok ops (fst c') (snd c')
    \<and> (\<forall>rid. grows (so_get ops rid (fst c)) (so_get ops rid (fst c')))"
  using assms
proof (induction rule: rtranclp_induct)
  case base
  then show ?case by simp
next
  case (step d e)
  then have d: "good (fst d)" "flights_ok ops (fst d) (snd d)"
    and g: "\<And>rid. grows (so_get ops rid (fst c)) (so_get ops rid (fst d))" by auto
  have "store_step ops (fst d, snd d) (fst e, snd e)" using step.hyps(2) by simp
  from step_keeps [OF this d] g show ?case using grows_trans by metis
qed

text \<open>An attempt that a newer one superseded writes nothing.\<close>

lemma superseded_writes_nothing:
  assumes "good s" "flights_ok ops s F" "r \<in> F" "so_get ops (rr_run_id r) s = Some cur"
    and "rr_attempts cur \<noteq> rr_attempts r"
  shows "so_update ops (rr_run_id r) (settle stamp outcome r) (Some (attempt_of r)) s = (False, s)"
proof -
  from flights_okD [OF assms(2,3)] have "1 \<le> rr_attempts r" by blast
  with assms(4,5) show ?thesis by (intro update_stale) (simp add: stale_def attempt_of_def)
qed

text \<open>A run whose attempt failed or lapsed is finished by the next request that finds it.\<close>

lemma lapsed_recovers:
  assumes "good s" "flights_ok ops s F" and r: "so_by_key ops key s = Some r" and "key \<noteq> []"
    and "resumable (sv_now env) r" and "rr_task_digest r = sv_sha env body"
    and out: "run_coordinator env body (rr_run_id r) (rr_attempts r + 1) = Inr out"
  shows "\<exists>r' s'. submit_commission ops (\<lambda>s. s) (\<lambda>s. s) env body rid key s = (Inr (r', False), s')
    \<and> so_by_key ops key s' = Some r' \<and> so_get ops (rr_run_id r) s' = Some r'
    \<and> rr_run_id r' = rr_run_id r \<and> rr_status r' = ''ready_for_rally'' \<and> rr_coordinator_record r' = Some out"
proof -
  let ?q = "resume (sv_now env + COORDINATION_LEASE_SECONDS) (sv_stamp env) r"
  from by_key_sound [OF assms(1) r] have k: "rr_request_key r = key" "so_get ops (rr_run_id r) s = Some r"
    by auto
  with assms(2) have pos: "1 \<le> rr_attempts r" by (auto simp: flights_ok_def)
  from reclaim_granted [OF assms(1) r assms(5)] obtain s1 where s1:
    "so_reclaim ops key (sv_now env + COORDINATION_LEASE_SECONDS) (sv_stamp env) (sv_now env) s = (Some ?q, s1)"
    "good s1" "written ops ?q s s1" by blast
  have q: "rr_run_id ?q = rr_run_id r" "rr_request_key ?q = key" "rr_attempts ?q = rr_attempts r + 1"
    "attempt_of ?q = rr_attempts r + 1"
    using k pos by (simp_all add: resume_def attempt_of_def)
  let ?d = "settle (sv_stamp env) (Inr out) ?q"
  have cur: "so_get ops (rr_run_id ?d) s1 = Some ?q" using writtenD(1) [OF s1(3)] by simp
  obtain s2 where s2: "so_update ops (rr_run_id ?d) ?d (Some (rr_attempts r + 1)) s1 = (True, s2)"
    "written ops ?d s1 s2"
    using update_current [OF s1(2) cur, of "Some (rr_attempts r + 1)"] q(3) by (auto simp: stale_def)
  have "finish_coordination ops (\<lambda>s. s) env ?q body s1 = (Inr (?d, False), s2)"
    using s2(1) out q by (simp add: finish_coordination_def)
  moreover have "rr_status r = ''coordinator_failed'' \<or> rr_status r = ''coordinating''"
    using assms(5) by (auto simp: resumable_def)
  moreover have "request_key_of env rid key = key" using assms(4) by (simp add: request_key_of_def)
  ultimately have "submit_commission ops (\<lambda>s. s) (\<lambda>s. s) env body rid key s = (Inr (?d, False), s2)"
    using r s1(1) assms(6) by (simp add: submit_commission_def)
  moreover have "so_by_key ops key s2 = Some ?d" "so_get ops (rr_run_id r) s2 = Some ?d"
    using writtenD [OF s2(2)] q by simp_all
  moreover have "rr_status ?d = ''ready_for_rally''" "rr_coordinator_record ?d = Some out"
    by (simp_all add: settle_def)
  ultimately show ?thesis using q(1) by auto
qed

text \<open>
  A request is a run of the protocol: its own claim or resumption, whatever others do while the
  coordinator works, and its own finish.
\<close>

lemma finish_runs_protocol:
  assumes "finish_coordination ops work env r text s = (res, s')" and "r \<notin> F"
    and work: "\<And>s F. (store_step ops)\<^sup>*\<^sup>* (s, F) (work s, F)"
  shows "(store_step ops)\<^sup>*\<^sup>* (s, insert r F) (s', F)"
proof -
  obtain b s1 where u: "so_update ops (rr_run_id r) (settle (sv_stamp env)
      (run_coordinator env text (rr_run_id r) (attempt_of r)) r) (Some (attempt_of r)) (work s) = (b, s1)"
    by fastforce
  with assms(1) have s': "s' = s1"
    by (auto simp: finish_coordination_def Let_def split: sum.splits if_splits option.splits)
  have "store_step ops (work s, insert r F) (s', insert r F - {r})"
    using store_step.Finish [OF _ u, of "insert r F"] s' by simp
  with work [of s "insert r F"] assms(2) show ?thesis
    by (metis Diff_insert_absorb rtranclp.rtrancl_into_rtrancl)
qed

lemma submit_runs_protocol:
  assumes "submit_commission ops gap work env text rid0 key0 s = (res, s')"
    and "good s" "flights_ok ops s F"
    and gap: "\<And>s F. (store_step ops)\<^sup>*\<^sup>* (s, F) (gap s, F)"
    and work: "\<And>s F. (store_step ops)\<^sup>*\<^sup>* (s, F) (work s, F)"
    and own: "\<And>q. so_get ops (request_run_id env rid0) (gap s) = Some q \<Longrightarrow>
      rr_request_key q = request_key_of env rid0 key0"
  shows "(store_step ops)\<^sup>*\<^sup>* (s, F) (s', F)"
proof -
  let ?rid = "request_run_id env rid0" and ?key = "request_key_of env rid0 key0"
  have g: "good (gap s)" "flights_ok ops (gap s) F"
    using steps_keep [OF gap [of s F]] assms(2,3) by simp_all
  have rid: "?rid \<noteq> []" by (simp add: request_run_id_def)
  show ?thesis
  proof (cases "so_by_key ops ?key s")
    case (Some existing)
    show ?thesis
    proof (cases "rr_task_digest existing = sv_sha env text
        \<and> rr_status existing \<in> {''coordinator_failed'', ''coordinating''}")
      case False
      with Some assms(1) have "s' = s" by (auto simp: submit_commission_def Let_def split: if_splits)
      then show ?thesis by simp
    next
      case True
      obtain o' s1 where c: "so_reclaim ops ?key (sv_now env + COORDINATION_LEASE_SECONDS) (sv_stamp env)
          (sv_now env) (gap s) = (o', s1)" by fastforce
      show ?thesis
      proof (cases o')
        case None
        with c reclaim_None [OF g(1)] have "s1 = gap s" by simp
        with c None Some True assms(1) have "s' = gap s" by (auto simp: submit_commission_def Let_def)
        with gap [of s F] show ?thesis by simp
      next
        case (Some r)
        from reclaim_Some [OF g(1) c [unfolded Some]] obtain cur where
          cur: "so_by_key ops ?key (gap s) = Some cur" "r = resume (sv_now env + COORDINATION_LEASE_SECONDS)
            (sv_stamp env) cur" by blast
        have at: "so_get ops (rr_run_id cur) (gap s) = Some cur" using by_key_sound [OF g(1) cur(1)] by simp
        have "r \<notin> F"
        proof
          assume "r \<in> F"
          from flights_okD [OF g(2) this] obtain q where
            "so_get ops (rr_run_id r) (gap s) = Some q" "rr_attempts r \<le> rr_attempts q"
            by (auto simp: flies_def)
          with at cur(2) show False by (simp add: attempt_of_def split: if_splits)
        qed
        moreover have "finish_coordination ops work env r text s1 = (res, s')"
          using assms(1) \<open>so_by_key ops ?key s = Some existing\<close> True c Some
          by (auto simp: submit_commission_def Let_def)
        ultimately have "(store_step ops)\<^sup>*\<^sup>* (s1, insert r F) (s', F)"
          using finish_runs_protocol work by blast
        moreover have "store_step ops (gap s, F) (s1, insert r F)"
          using c by (intro store_step.Reclaim) (simp only: Some)
        ultimately show ?thesis using gap [of s F] by (meson converse_rtranclp_into_rtranclp rtranclp_trans)
      qed
    qed
  next
    case None
    show ?thesis
    proof (cases "build_handoff (sv_max_turns env) text")
      case (Inl e)
      with None assms(1) have "s' = s" by (auto simp: submit_commission_def Let_def)
      then show ?thesis by simp
    next
      case (Inr h)
      let ?r = "new_record env text ?rid ?key h"
      obtain b s1 where c: "so_create ops ?r (gap s) = (b, s1)" by fastforce
      show ?thesis
      proof (cases "so_by_key ops ?key (gap s)")
        case (Some q)
        with create_taken [OF g(1), of ?r] c have "\<not> b" "s1 = gap s" by (auto simp: new_record_def)
        with c Inr None assms(1) have "s' = gap s"
          by (auto simp: submit_commission_def Let_def split: option.splits)
        with gap [of s F] show ?thesis by simp
      next
        case free: None
        have "so_get ops ?rid (gap s) = None"
          using own get_sound [OF g(1)] free by (metis option.distinct(1) option.exhaust)
        then have r: "so_get ops (rr_run_id ?r) (gap s) = None" "rr_run_id ?r \<noteq> []"
          "so_by_key ops (rr_request_key ?r) (gap s) = None" "rr_status ?r = ''coordinating''" "rr_attempts ?r = 1"
          using rid free by (simp_all add: new_record_def)
        from create_new [OF g(1) r(3,1,2)] c have b: "b" by auto
        have "?r \<notin> F" using flights_okD [OF g(2), of ?r] r(1) by (metis option.distinct(1))
        moreover have "finish_coordination ops work env ?r text s1 = (res, s')"
          using assms(1) None Inr c b by (simp add: submit_commission_def Let_def)
        ultimately have "(store_step ops)\<^sup>*\<^sup>* (s1, insert ?r F) (s', F)"
          using finish_runs_protocol work by blast
        moreover have "store_step ops (gap s, F) (s1, insert ?r F)"
          using c b r by (intro store_step.Claim) simp_all
        ultimately show ?thesis using gap [of s F] by (meson converse_rtranclp_into_rtranclp rtranclp_trans)
      qed
    qed
  qed
qed

end


section \<open>Two backends\<close>

text \<open>
  Backends that show the same records answer every request alike. \<open>K\<close> holds the pairs of run
  identifier and request key in use; no run identifier may go with two keys, because the
  in-memory backend finds a request's record through its run and Firestore keeps a copy of it.
\<close>

definition same_view :: "'s store_ops \<Rightarrow> 't store_ops \<Rightarrow> 's \<Rightarrow> 't \<Rightarrow> bool" where
  "same_view opsA opsB s t \<longleftrightarrow> (\<forall>rid. so_get opsA rid s = so_get opsB rid t)
     \<and> (\<forall>k. so_by_key opsA k s = so_by_key opsB k t)"

definition uses :: "'s store_ops \<Rightarrow> (string \<times> string) set \<Rightarrow> 's \<Rightarrow> bool" where
  "uses ops K s \<longleftrightarrow> (\<forall>rid r. so_get ops rid s = Some r \<longrightarrow> (rid, rr_request_key r) \<in> K)"

text \<open>Requests served one after the other.\<close>

type_synonym request = "service_env \<times> string \<times> string \<times> string"

fun serve_requests ::
    "'s store_ops \<Rightarrow> request list \<Rightarrow> 's \<Rightarrow> (run_record \<times> bool) answer list" where
  "serve_requests ops [] s = []"
| "serve_requests ops ((env, text, rid, key) # qs) s =
     (let (a, s') = submit_commission ops (\<lambda>s. s) (\<lambda>s. s) env text rid key s
      in a # serve_requests ops qs s')"

fun request_pair :: "request \<Rightarrow> string \<times> string" where
  "request_pair (env, text, rid, key) = (request_run_id env rid, request_key_of env rid key)"

locale store_pair = a: run_store opsA goodA + b: run_store opsB goodB
  for opsA :: "'s store_ops" and goodA and opsB :: "'t store_ops" and goodB
begin

definition paired :: "(string \<times> string) set \<Rightarrow> 's \<Rightarrow> 't \<Rightarrow> bool" where
  "paired K s t \<longleftrightarrow> goodA s \<and> goodB t \<and> same_view opsA opsB s t \<and> uses opsA K s"

lemma paired_uses: "paired K s t \<Longrightarrow> so_get opsA rid s = Some r \<Longrightarrow> (rid, rr_request_key r) \<in> K"
  by (simp add: paired_def uses_def)

lemma paired_write:
  assumes "paired K s t" and "goodA s'" "goodB t'" "written opsA r s s'" "written opsB r t t'"
    and "(rr_run_id r, rr_request_key r) \<in> K"
  shows "paired K s' t'"
  using assms
  by (auto simp: paired_def same_view_def uses_def a.writtenD b.writtenD split: if_splits)

lemma paired_update:
  assumes "paired K s t" and "so_get opsA (rr_run_id r) s = Some cur" "rr_request_key r = rr_request_key cur"
  shows "\<exists>ok s' t'. so_update opsA (rr_run_id r) r expected s = (ok, s')
    \<and> so_update opsB (rr_run_id r) r expected t = (ok, t') \<and> paired K s' t'"
proof -
  have get: "so_get opsB (rr_run_id r) t = Some cur" and good: "goodA s" "goodB t"
    using assms(1,2) by (simp_all add: paired_def same_view_def)
  show ?thesis
  proof (cases "stale expected (Some cur)")
    case True
    with a.update_stale [of expected "rr_run_id r" s r] b.update_stale [of expected "rr_run_id r" t r]
      assms(1,2) get show ?thesis by auto
  next
    case False
    from paired_uses [OF assms(1,2)] assms(3) have "(rr_run_id r, rr_request_key r) \<in> K" by simp
    moreover obtain s' where "so_update opsA (rr_run_id r) r expected s = (True, s')" "goodA s'"
      "written opsA r s s'" using a.update_current [OF good(1) assms(2,3) False] by blast
    moreover obtain t' where "so_update opsB (rr_run_id r) r expected t = (True, t')" "goodB t'"
      "written opsB r t t'" using b.update_current [OF good(2) get assms(3) False] by blast
    ultimately show ?thesis using paired_write [OF assms(1)] by blast
  qed
qed

lemma paired_finish:
  assumes "paired K s t" and "so_get opsA (rr_run_id r) s = Some cur" "rr_request_key r = rr_request_key cur"
  shows "\<exists>res s' t'. finish_coordination opsA (\<lambda>s. s) env r text s = (res, s')
    \<and> finish_coordination opsB (\<lambda>t. t) env r text t = (res, t') \<and> paired K s' t'"
proof -
  let ?out = "run_coordinator env text (rr_run_id r) (attempt_of r)"
  from paired_update [OF assms(1), of "settle (sv_stamp env) ?out r" cur "Some (attempt_of r)"] assms(2,3)
  obtain ok s' t' where u: "so_update opsA (rr_run_id r) (settle (sv_stamp env) ?out r) (Some (attempt_of r)) s = (ok, s')"
    "so_update opsB (rr_run_id r) (settle (sv_stamp env) ?out r) (Some (attempt_of r)) t = (ok, t')"
    and p: "paired K s' t'" by auto
  then have "so_get opsB (rr_run_id r) t' = so_get opsA (rr_run_id r) s'"
    by (simp add: paired_def same_view_def)
  with u p show ?thesis
    by (cases ?out) (auto simp: finish_coordination_def Let_def split: option.split)
qed

lemma paired_submit:
  assumes "paired K s t" and "single_valued K"
    and "(request_run_id env rid0, request_key_of env rid0 key0) \<in> K"
  shows "\<exists>res s' t'. submit_commission opsA (\<lambda>s. s) (\<lambda>s. s) env text rid0 key0 s = (res, s')
    \<and> submit_commission opsB (\<lambda>t. t) (\<lambda>t. t) env text rid0 key0 t = (res, t') \<and> paired K s' t'"
proof -
  let ?rid = "request_run_id env rid0" and ?key = "request_key_of env rid0 key0"
  let ?lease = "sv_now env + COORDINATION_LEASE_SECONDS"
  have good: "goodA s" "goodB t" and view: "so_by_key opsB ?key t = so_by_key opsA ?key s"
    "so_get opsB ?rid t = so_get opsA ?rid s"
    using assms(1) by (simp_all add: paired_def same_view_def)
  show ?thesis
  proof (cases "so_by_key opsA ?key s")
    case (Some existing)
    note own = a.by_key_sound [OF good(1) Some]
    show ?thesis
    proof (cases "resumable (sv_now env) existing")
      case True
      obtain s1 where s1: "so_reclaim opsA ?key ?lease (sv_stamp env) (sv_now env) s
          = (Some (resume ?lease (sv_stamp env) existing), s1)" "goodA s1"
          "written opsA (resume ?lease (sv_stamp env) existing) s s1"
        using a.reclaim_granted [OF good(1) Some True] by blast
      obtain t1 where t1: "so_reclaim opsB ?key ?lease (sv_stamp env) (sv_now env) t
          = (Some (resume ?lease (sv_stamp env) existing), t1)" "goodB t1"
          "written opsB (resume ?lease (sv_stamp env) existing) t t1"
        using b.reclaim_granted [OF good(2) view(1) [unfolded Some] True] by blast
      from paired_uses [OF assms(1)] own have "(rr_run_id existing, rr_request_key existing) \<in> K" by blast
      with paired_write [OF assms(1) s1(2) t1(2) s1(3) t1(3)] have p: "paired K s1 t1" by simp
      from s1(3) have "so_get opsA (rr_run_id existing) s1 = Some (resume ?lease (sv_stamp env) existing)"
        by (simp add: written_def)
      with paired_finish [OF p, of "resume ?lease (sv_stamp env) existing"] Some view(1) s1(1) t1(1) True assms(1)
      show ?thesis by (auto simp: submit_commission_def Let_def resumable_def)
    next
      case False
      have "so_reclaim opsA ?key ?lease (sv_stamp env) (sv_now env) s = (None, s)"
        using False Some by (intro a.reclaim_refused good(1)) simp
      moreover have "so_reclaim opsB ?key ?lease (sv_stamp env) (sv_now env) t = (None, t)"
        using False Some view(1) by (intro b.reclaim_refused good(2)) simp
      ultimately show ?thesis using Some view(1) assms(1) by (simp add: submit_commission_def Let_def)
    qed
  next
    case None
    show ?thesis
    proof (cases "build_handoff (sv_max_turns env) text")
      case (Inl e)
      with None view(1) assms(1) show ?thesis by (simp add: submit_commission_def Let_def)
    next
      case (Inr h)
      let ?r = "new_record env text ?rid ?key h"
      have "so_get opsA ?rid s = None"
      proof (rule ccontr)
        assume "so_get opsA ?rid s \<noteq> None"
        then obtain q where q: "so_get opsA ?rid s = Some q" by blast
        from paired_uses [OF assms(1) this] have "(?rid, rr_request_key q) \<in> K" .
        with assms(2,3) have "rr_request_key q = ?key" by (metis single_valuedD)
        with a.get_sound [OF good(1) q] None show False by simp
      qed
      then have free: "so_get opsA (rr_run_id ?r) s = None" "so_by_key opsA (rr_request_key ?r) s = None"
        "so_get opsB (rr_run_id ?r) t = None" "so_by_key opsB (rr_request_key ?r) t = None" "rr_run_id ?r \<noteq> []"
        using view None by (simp_all add: new_record_def request_run_id_def)
      obtain s1 where s1: "so_create opsA ?r s = (True, s1)" "goodA s1" "written opsA ?r s s1"
        using a.create_new [OF good(1) free(2,1,5)] by blast
      obtain t1 where t1: "so_create opsB ?r t = (True, t1)" "goodB t1" "written opsB ?r t t1"
        using b.create_new [OF good(2) free(4,3,5)] by blast
      have "(rr_run_id ?r, rr_request_key ?r) \<in> K" using assms(3) by (simp add: new_record_def)
      with paired_write [OF assms(1) s1(2) t1(2) s1(3) t1(3)] have p: "paired K s1 t1" by simp
      have "so_get opsA (rr_run_id ?r) s1 = Some ?r" using s1(3) by (simp add: written_def)
      from paired_finish [OF p this refl] None view(1) Inr s1(1) t1(1)
      show ?thesis by (simp add: submit_commission_def Let_def)
    qed
  qed
qed

lemma paired_serve:
  assumes "paired K s t" and "single_valued K" and "request_pair ` set qs \<subseteq> K"
  shows "serve_requests opsA qs s = serve_requests opsB qs t"
  using assms
proof (induction qs arbitrary: s t)
  case (Cons q qs)
  obtain env body rid key where q: "q = (env, body, rid, key)" by (cases q) auto
  with Cons.prems(3) have "(request_run_id env rid, request_key_of env rid key) \<in> K" by simp
  from paired_submit [OF Cons.prems(1,2) this, of body] obtain res s' t' where
    "submit_commission opsA (\<lambda>s. s) (\<lambda>s. s) env body rid key s = (res, s')"
    "submit_commission opsB (\<lambda>t. t) (\<lambda>t. t) env body rid key t = (res, t')" "paired K s' t'" by blast
  with Cons.IH [of s' t'] Cons.prems(2,3) q show ?case by simp
qed simp

end

interpretation backends: store_pair memory_ops mem_good "firestore_ops sha" "fs_good sha" for sha
  by unfold_locales

definition empty_memory :: mem_store where
  "empty_memory = \<lparr>ms_records = Map.empty, ms_keys = Map.empty\<rparr>"

definition empty_firestore :: fire_store where
  "empty_firestore = \<lparr>fs_runs = Map.empty, fs_requests = Map.empty\<rparr>"

lemma empty_paired: "inj sha \<Longrightarrow> backends.paired sha K empty_memory empty_firestore"
  by (simp add: backends.paired_def same_view_def uses_def empty_memory_def empty_firestore_def
      mem_good_def fs_good_def mem_get_def mem_by_key_def fs_get_def fs_by_key_def)

lemma empty_good: "inj sha \<Longrightarrow> fs_good sha empty_firestore" "mem_good empty_memory"
  by (simp_all add: fs_good_def empty_firestore_def mem_good_def empty_memory_def)

lemma empty_flights: "flights_ok (firestore_ops sha) empty_firestore {}"
  by (simp add: flights_ok_def empty_firestore_def fs_get_def)

end
