(* ===== verification/Auth_Sessions.thy ===== *)
theory Auth_Sessions
  imports Rally_Prelude
begin

text \<open>
  Sign-in codes and browser sessions, after \<open>cloud/auth_sessions.py\<close>: the in-memory and the
  Firestore backend, the contract both keep, and what follows for any sequence of operations.
  Points of time are integers in seconds; \<open>sha\<close> stands for the SHA-256 digest in hexadecimal,
  and the random token an operation draws is one of its arguments.
\<close>

section \<open>Identities and tokens\<close>

record user_identity =
  u_uid :: string
  u_email :: string
  u_name :: "string option"
  u_picture :: "string option"
  u_hosted_domain :: "string option"

record auth_doc =
  ad_user :: user_identity
  ad_expires :: int

definition url_char :: "char \<Rightarrow> bool" where
  "url_char c = (let n = (of_char c :: nat) in
     (48 \<le> n \<and> n \<le> 57) \<or> (65 \<le> n \<and> n \<le> 90) \<or> (97 \<le> n \<and> n \<le> 122) \<or> c = CHR ''_'' \<or> c = CHR ''-'')"

definition token_ok :: "string \<Rightarrow> bool" where
  "token_ok t \<longleftrightarrow> 32 \<le> length t \<and> length t \<le> 128 \<and> list_all url_char t"

definition token_hash :: "(string \<Rightarrow> string) \<Rightarrow> string \<Rightarrow> string option" where
  "token_hash sha t = (if token_ok t then Some (sha t) else None)"

definition CODE_TTL :: int where "CODE_TTL = 120"

definition SESSION_TTL :: int where "SESSION_TTL = 30 * 60"

definition identity_from_doc :: "auth_doc \<Rightarrow> user_identity option" where
  "identity_from_doc d =
     (if u_uid (ad_user d) = [] \<or> u_email (ad_user d) = [] then None else Some (ad_user d))"

definition not_expired :: "auth_doc \<Rightarrow> int \<Rightarrow> bool" where
  "not_expired d now \<longleftrightarrow> ad_expires d > now"

text \<open>Either collection is a partial map from token digests to documents.\<close>

record auth_state =
  au_codes :: "string \<rightharpoonup> auth_doc"
  au_sessions :: "string \<rightharpoonup> auth_doc"

definition no_auth :: auth_state where
  "no_auth = \<lparr>au_codes = Map.empty, au_sessions = Map.empty\<rparr>"

text \<open>The outcome of an operation: an \<open>AuthSessionError\<close> or its value.\<close>

type_synonym 'a auth = "string + 'a"


section \<open>The in-memory backend\<close>

definition mem_issue_code ::
    "(string \<Rightarrow> string) \<Rightarrow> int \<Rightarrow> string \<Rightarrow> user_identity \<Rightarrow> auth_state \<Rightarrow> string auth \<times> auth_state" where
  "mem_issue_code sha now fresh i s =
     (case token_hash sha fresh of
        None \<Rightarrow> (Inl ''could not create login code'', s)
      | Some h \<Rightarrow> (Inr fresh, s\<lparr>au_codes := (au_codes s)
                      (h \<mapsto> \<lparr>ad_user = i, ad_expires = now + CODE_TTL\<rparr>)\<rparr>))"

definition mem_exchange_code ::
    "(string \<Rightarrow> string) \<Rightarrow> int \<Rightarrow> string \<Rightarrow> string \<Rightarrow> auth_state
       \<Rightarrow> (string \<times> user_identity) option auth \<times> auth_state" where
  "mem_exchange_code sha now fresh code s =
     (case token_hash sha code of
        None \<Rightarrow> (Inr None, s)
      | Some h \<Rightarrow>
          (let s1 = s\<lparr>au_codes := (au_codes s)(h := None)\<rparr> in
           case au_codes s h of
             None \<Rightarrow> (Inr None, s1)
           | Some d \<Rightarrow>
               (if \<not> not_expired d now then (Inr None, s1)
                else case identity_from_doc d of
                  None \<Rightarrow> (Inr None, s1)
                | Some i \<Rightarrow>
                    (case token_hash sha fresh of
                       None \<Rightarrow> (Inl ''could not create login session'', s1)
                     | Some sh \<Rightarrow> (Inr (Some (fresh, i)), s1\<lparr>au_sessions := (au_sessions s1)
                         (sh \<mapsto> \<lparr>ad_user = i, ad_expires = now + SESSION_TTL\<rparr>)\<rparr>)))))"

definition mem_get_identity ::
    "(string \<Rightarrow> string) \<Rightarrow> int \<Rightarrow> string \<Rightarrow> auth_state \<Rightarrow> user_identity option auth \<times> auth_state" where
  "mem_get_identity sha now t s =
     (case token_hash sha t of
        None \<Rightarrow> (Inr None, s)
      | Some h \<Rightarrow>
          (case au_sessions s h of
             None \<Rightarrow> (Inr None, s\<lparr>au_sessions := (au_sessions s)(h := None)\<rparr>)
           | Some d \<Rightarrow>
               (if \<not> not_expired d now then (Inr None, s\<lparr>au_sessions := (au_sessions s)(h := None)\<rparr>)
                else (Inr (identity_from_doc d), s))))"

definition mem_revoke_session :: "(string \<Rightarrow> string) \<Rightarrow> string \<Rightarrow> auth_state \<Rightarrow> bool auth \<times> auth_state" where
  "mem_revoke_session sha t s =
     (case token_hash sha t of
        None \<Rightarrow> (Inr False, s)
      | Some h \<Rightarrow> (Inr (au_sessions s h \<noteq> None), s\<lparr>au_sessions := (au_sessions s)(h := None)\<rparr>))"


section \<open>The Firestore backend\<close>

text \<open>\<open>create\<close> refuses an existing document; an exchange is one transaction.\<close>

definition fs_issue_code ::
    "(string \<Rightarrow> string) \<Rightarrow> int \<Rightarrow> string \<Rightarrow> user_identity \<Rightarrow> auth_state \<Rightarrow> string auth \<times> auth_state" where
  "fs_issue_code sha now fresh i s =
     (case token_hash sha fresh of
        None \<Rightarrow> (Inl ''could not create login code'', s)
      | Some h \<Rightarrow>
          (if au_codes s h \<noteq> None then (Inl ''could not create login code'', s)
           else (Inr fresh, s\<lparr>au_codes := (au_codes s)
                   (h \<mapsto> \<lparr>ad_user = i, ad_expires = now + CODE_TTL\<rparr>)\<rparr>)))"

definition fs_exchange_code ::
    "(string \<Rightarrow> string) \<Rightarrow> int \<Rightarrow> string \<Rightarrow> string \<Rightarrow> auth_state
       \<Rightarrow> (string \<times> user_identity) option auth \<times> auth_state" where
  "fs_exchange_code sha now fresh code s =
     (case token_hash sha code of
        None \<Rightarrow> (Inr None, s)
      | Some h \<Rightarrow>
          (case token_hash sha fresh of
             None \<Rightarrow> (Inl ''could not create login session'', s)
           | Some sh \<Rightarrow>
               (case au_codes s h of
                  None \<Rightarrow> (Inr None, s)
                | Some d \<Rightarrow>
                    (let s1 = s\<lparr>au_codes := (au_codes s)(h := None)\<rparr> in
                     if \<not> not_expired d now then (Inr None, s1)
                     else case identity_from_doc d of
                       None \<Rightarrow> (Inr None, s1)
                     | Some i \<Rightarrow> (Inr (Some (fresh, i)), s1\<lparr>au_sessions := (au_sessions s1)
                         (sh \<mapsto> \<lparr>ad_user = i, ad_expires = now + SESSION_TTL\<rparr>)\<rparr>)))))"

definition fs_get_identity ::
    "(string \<Rightarrow> string) \<Rightarrow> int \<Rightarrow> string \<Rightarrow> auth_state \<Rightarrow> user_identity option auth \<times> auth_state" where
  "fs_get_identity sha now t s =
     (case token_hash sha t of
        None \<Rightarrow> (Inr None, s)
      | Some h \<Rightarrow>
          (case au_sessions s h of
             None \<Rightarrow> (Inr None, s)
           | Some d \<Rightarrow>
               (if \<not> not_expired d now then (Inr None, s\<lparr>au_sessions := (au_sessions s)(h := None)\<rparr>)
                else (Inr (identity_from_doc d), s))))"

definition fs_revoke_session :: "(string \<Rightarrow> string) \<Rightarrow> string \<Rightarrow> auth_state \<Rightarrow> bool auth \<times> auth_state" where
  "fs_revoke_session sha t s =
     (case token_hash sha t of
        None \<Rightarrow> (Inr False, s)
      | Some h \<Rightarrow>
          (if au_sessions s h = None then (Inr False, s)
           else (Inr True, s\<lparr>au_sessions := (au_sessions s)(h := None)\<rparr>)))"


section \<open>The contract\<close>

record auth_ops =
  ao_issue :: "int \<Rightarrow> string \<Rightarrow> user_identity \<Rightarrow> auth_state \<Rightarrow> string auth \<times> auth_state"
  ao_exchange :: "int \<Rightarrow> string \<Rightarrow> string \<Rightarrow> auth_state \<Rightarrow> (string \<times> user_identity) option auth \<times> auth_state"
  ao_identity :: "int \<Rightarrow> string \<Rightarrow> auth_state \<Rightarrow> user_identity option auth \<times> auth_state"
  ao_revoke :: "string \<Rightarrow> auth_state \<Rightarrow> bool auth \<times> auth_state"

definition memory_auth :: "(string \<Rightarrow> string) \<Rightarrow> auth_ops" where
  "memory_auth sha = \<lparr>ao_issue = mem_issue_code sha, ao_exchange = mem_exchange_code sha,
     ao_identity = mem_get_identity sha, ao_revoke = mem_revoke_session sha\<rparr>"

definition firestore_auth :: "(string \<Rightarrow> string) \<Rightarrow> auth_ops" where
  "firestore_auth sha = \<lparr>ao_issue = fs_issue_code sha, ao_exchange = fs_exchange_code sha,
     ao_identity = fs_get_identity sha, ao_revoke = fs_revoke_session sha\<rparr>"

text \<open>
  What a caller may rely on: which documents an operation adds, that an exchange uses the code
  up and rests on a live document of it, and that a session answers only while it is live.
\<close>

locale auth_store =
  fixes ops :: auth_ops and sha :: "string \<Rightarrow> string"
  assumes issue: "ao_issue ops now fresh i s = (issued, s') \<Longrightarrow>
      au_sessions s' = au_sessions s \<and> (s' = s \<or> token_ok fresh \<and> issued = Inr fresh
        \<and> au_codes s' = (au_codes s)(sha fresh \<mapsto> \<lparr>ad_user = i, ad_expires = now + CODE_TTL\<rparr>))"
    and exchange_None: "ao_exchange ops now fresh code s = (given, s') \<Longrightarrow> (\<forall>p. given \<noteq> Inr (Some p)) \<Longrightarrow>
      au_sessions s' = au_sessions s \<and> (\<forall>h. au_codes s' h = au_codes s h \<or> au_codes s' h = None)"
    and exchange_Some: "ao_exchange ops now fresh code s = (Inr (Some (t, i)), s') \<Longrightarrow>
      t = fresh \<and> token_ok code \<and> token_ok fresh
      \<and> (\<exists>d. au_codes s (sha code) = Some d \<and> now < ad_expires d \<and> ad_user d = i)
      \<and> au_codes s' = (au_codes s)(sha code := None)
      \<and> au_sessions s' = (au_sessions s)(sha fresh \<mapsto> \<lparr>ad_user = i, ad_expires = now + SESSION_TTL\<rparr>)"
    and identity_Some: "ao_identity ops now t s = (Inr (Some i), s') \<Longrightarrow>
      s' = s \<and> token_ok t \<and> (\<exists>d. au_sessions s (sha t) = Some d \<and> now < ad_expires d \<and> ad_user d = i)"
    and identity_state: "ao_identity ops now t s = (found, s') \<Longrightarrow>
      au_codes s' = au_codes s \<and> (\<forall>h. au_sessions s' h = au_sessions s h \<or> au_sessions s' h = None)"
    and revoke: "ao_revoke ops t s = (gone, s') \<Longrightarrow> au_codes s' = au_codes s
      \<and> au_sessions s' = (if token_ok t then (au_sessions s)(sha t := None) else au_sessions s)"

lemmas auth_backend_defs = token_hash_def identity_from_doc_def not_expired_def Let_def

interpretation memory_sessions: auth_store "memory_auth sha" sha for sha
  by unfold_locales
    (auto simp: memory_auth_def mem_issue_code_def mem_exchange_code_def mem_get_identity_def
       mem_revoke_session_def auth_backend_defs split: option.splits if_splits)

interpretation firestore_sessions: auth_store "firestore_auth sha" sha for sha
  by unfold_locales
    (auto simp: firestore_auth_def fs_issue_code_def fs_exchange_code_def fs_get_identity_def
       fs_revoke_session_def auth_backend_defs fun_upd_idem split: option.splits if_splits)


section \<open>Sequences of operations\<close>

datatype auth_op =
    Issue int string user_identity
  | Exchange int string string
  | Look int string
  | Revoke string

text \<open>The state after an operation, and what the operation granted.\<close>

datatype grant = No_Grant | Code string | Session string user_identity | Identity user_identity

fun auth_step :: "auth_ops \<Rightarrow> auth_op \<Rightarrow> auth_state \<Rightarrow> grant \<times> auth_state" where
  "auth_step ops (Issue now fresh i) s =
     (case ao_issue ops now fresh i s of (Inr c, s') \<Rightarrow> (Code c, s') | (_, s') \<Rightarrow> (No_Grant, s'))"
| "auth_step ops (Exchange now fresh code) s =
     (case ao_exchange ops now fresh code s of
        (Inr (Some (t, i)), s') \<Rightarrow> (Session t i, s') | (_, s') \<Rightarrow> (No_Grant, s'))"
| "auth_step ops (Look now t) s =
     (case ao_identity ops now t s of (Inr (Some i), s') \<Rightarrow> (Identity i, s') | (_, s') \<Rightarrow> (No_Grant, s'))"
| "auth_step ops (Revoke t) s = (No_Grant, snd (ao_revoke ops t s))"

fun auth_run :: "auth_ops \<Rightarrow> auth_op list \<Rightarrow> auth_state \<Rightarrow> auth_state" where
  "auth_run ops [] s = s"
| "auth_run ops (a # as) s = auth_run ops as (snd (auth_step ops a s))"

text \<open>The operations of a run with what each granted.\<close>

fun auth_log :: "auth_ops \<Rightarrow> auth_op list \<Rightarrow> auth_state \<Rightarrow> (auth_op \<times> grant) list" where
  "auth_log ops [] s = []"
| "auth_log ops (a # as) s = (a, fst (auth_step ops a s)) # auth_log ops as (snd (auth_step ops a s))"

text \<open>The operation draws this token for a new code.\<close>

fun draws_code :: "(string \<Rightarrow> string) \<Rightarrow> string \<Rightarrow> auth_op \<Rightarrow> bool" where
  "draws_code sha h (Issue now fresh i) = (sha fresh = h)"
| "draws_code sha h _ = False"

lemma auth_run_append: "auth_run ops (as @ bs) s = auth_run ops bs (auth_run ops as s)"
  by (induction as arbitrary: s) simp_all

lemma auth_log_append: "auth_log ops (as @ bs) s = auth_log ops as s @ auth_log ops bs (auth_run ops as s)"
  by (induction as arbitrary: s) simp_all

text \<open>Where a code and a session come from.\<close>

definition code_source :: "(string \<Rightarrow> string) \<Rightarrow> (auth_op \<times> grant) list \<Rightarrow> string \<Rightarrow> auth_doc \<Rightarrow> bool" where
  "code_source sha log h d \<longleftrightarrow> (\<exists>now c. (Issue now c (ad_user d), Code c) \<in> set log
     \<and> sha c = h \<and> ad_expires d = now + CODE_TTL)"

definition session_source :: "(string \<Rightarrow> string) \<Rightarrow> (auth_op \<times> grant) list \<Rightarrow> string \<Rightarrow> auth_doc \<Rightarrow> bool" where
  "session_source sha log h d \<longleftrightarrow> (\<exists>now t code issued c.
     (Exchange now t code, Session t (ad_user d)) \<in> set log \<and> sha t = h
     \<and> ad_expires d = now + SESSION_TTL
     \<and> (Issue issued c (ad_user d), Code c) \<in> set log \<and> sha c = sha code \<and> now < issued + CODE_TTL)"

lemma source_mono:
  "code_source sha log h d \<Longrightarrow> code_source sha (log @ log2) h d"
  "session_source sha log h d \<Longrightarrow> session_source sha (log @ log2) h d"
  unfolding code_source_def session_source_def set_append by blast+

context auth_store
begin

lemma step_cases [case_names Issue Exchange Shrink]:
  assumes "auth_step ops a s = (g, s')"
  obtains now fresh i where "a = Issue now fresh i" "au_sessions s' = au_sessions s" "g = Code fresh"
      "au_codes s' = (au_codes s)(sha fresh \<mapsto> \<lparr>ad_user = i, ad_expires = now + CODE_TTL\<rparr>)"
    | now fresh code i d where "a = Exchange now fresh code" "g = Session fresh i"
      "au_codes s (sha code) = Some d" "now < ad_expires d" "ad_user d = i"
      "au_codes s' = (au_codes s)(sha code := None)"
      "au_sessions s' = (au_sessions s)(sha fresh \<mapsto> \<lparr>ad_user = i, ad_expires = now + SESSION_TTL\<rparr>)"
    | "\<And>h. au_codes s' h = au_codes s h \<or> au_codes s' h = None"
      "\<And>h. au_sessions s' h = au_sessions s h \<or> au_sessions s' h = None"
proof (cases a)
  case (Issue now fresh i)
  obtain o' s1 where c: "ao_issue ops now fresh i s = (o', s1)" by fastforce
  with assms Issue have "s1 = s'" by (auto split: sum.splits)
  with issue [OF c] show ?thesis
  proof (elim conjE disjE)
    assume "s1 = s'" "s1 = s"
    then show ?thesis using that(3) by simp
  next
    assume "s1 = s'" "o' = Inr fresh" "au_sessions s1 = au_sessions s"
      "au_codes s1 = (au_codes s)(sha fresh \<mapsto> \<lparr>ad_user = i, ad_expires = now + CODE_TTL\<rparr>)"
    with assms c Issue show ?thesis using that(1) by simp
  qed
next
  case (Exchange now fresh code)
  obtain o' s1 where c: "ao_exchange ops now fresh code s = (o', s1)" by fastforce
  show ?thesis
  proof (cases "\<exists>p. o' = Inr (Some p)")
    case True
    then obtain t i where o': "o' = Inr (Some (t, i))" by auto
    from exchange_Some [OF c [unfolded o']] assms c o' Exchange show ?thesis using that(2) by auto
  next
    case False
    with assms c Exchange have "s1 = s'" by (auto split: sum.splits option.splits)
    with exchange_None [OF c] False show ?thesis using that(3) by auto
  qed
next
  case (Look now t)
  obtain o' s1 where c: "ao_identity ops now t s = (o', s1)" by fastforce
  with assms Look have "s1 = s'" by (auto split: sum.splits option.splits)
  with identity_state [OF c] show ?thesis using that(3) by auto
next
  case (Revoke t)
  obtain o' s1 where c: "ao_revoke ops t s = (o', s1)" by fastforce
  with assms Revoke have "s1 = s'" by simp
  with revoke [OF c] show ?thesis using that(3) by (auto split: if_splits)
qed

text \<open>A code that was used is dead until the same token is drawn again.\<close>

lemma step_dead_code:
  assumes "au_codes s h = None" and "\<not> draws_code sha h a"
  shows "au_codes (snd (auth_step ops a s)) h = None"
proof -
  obtain g s' where st: "auth_step ops a s = (g, s')" by fastforce
  from st have "au_codes s' h = None"
  proof (cases rule: step_cases)
    case Shrink
    with assms(1) show ?thesis by metis
  qed (use assms in auto)
  with st show ?thesis by simp
qed

lemma run_dead_code:
  "au_codes s h = None \<Longrightarrow> list_all (\<lambda>a. \<not> draws_code sha h a) as \<Longrightarrow> au_codes (auth_run ops as s) h = None"
  by (induction as arbitrary: s) (simp_all add: step_dead_code)

lemma code_used_once:
  assumes "ao_exchange ops now fresh code s = (Inr (Some p), s')"
    and "list_all (\<lambda>a. \<not> draws_code sha (sha code) a) as"
  shows "\<forall>q. fst (ao_exchange ops later again code (auth_run ops as s')) \<noteq> Inr (Some q)"
proof -
  obtain t i where p: "p = (t, i)" by (cases p)
  from exchange_Some [OF assms(1) [unfolded p]] have "au_codes s' (sha code) = None" by simp
  from run_dead_code [OF this assms(2)] exchange_Some show ?thesis
    by (metis option.distinct(1) prod.collapse)
qed

text \<open>Every document of a run from the empty state has its source in the log.\<close>

lemma run_sources:
  "(\<forall>h d. au_codes (auth_run ops as no_auth) h = Some d \<longrightarrow> code_source sha (auth_log ops as no_auth) h d)
   \<and> (\<forall>h d. au_sessions (auth_run ops as no_auth) h = Some d \<longrightarrow> session_source sha (auth_log ops as no_auth) h d)"
proof (induction as rule: rev_induct)
  case Nil
  then show ?case by (simp add: no_auth_def)
next
  case (snoc a as)
  let ?s = "auth_run ops as no_auth" and ?log = "auth_log ops as no_auth"
  obtain g s' where st: "auth_step ops a ?s = (g, s')" by fastforce
  have run: "auth_run ops (as @ [a]) no_auth = s'" "auth_log ops (as @ [a]) no_auth = ?log @ [(a, g)]"
    using st by (simp_all add: auth_run_append auth_log_append)
  have codes: "au_codes ?s h = Some d \<Longrightarrow> code_source sha (?log @ [(a, g)]) h d"
    and sessions: "au_sessions ?s h = Some d \<Longrightarrow> session_source sha (?log @ [(a, g)]) h d" for h d
    using snoc source_mono by blast+
  from st show ?case
    unfolding run
  proof (cases rule: step_cases)
    case (Issue now fresh i)
    have new: "code_source sha (?log @ [(a, g)]) (sha fresh) \<lparr>ad_user = i, ad_expires = now + CODE_TTL\<rparr>"
      using Issue by (auto simp: code_source_def)
    show "(\<forall>h d. au_codes s' h = Some d \<longrightarrow> code_source sha (?log @ [(a, g)]) h d)
        \<and> (\<forall>h d. au_sessions s' h = Some d \<longrightarrow> session_source sha (?log @ [(a, g)]) h d)"
      using Issue(2,4) codes sessions new by auto
  next
    case (Exchange now fresh code i d)
    from snoc Exchange(3) have "code_source sha ?log (sha code) d" by blast
    then obtain issued c where "(Issue issued c i, Code c) \<in> set ?log" "sha c = sha code"
      "ad_expires d = issued + CODE_TTL" using Exchange(5) by (auto simp: code_source_def)
    with Exchange(1,2,4) have new: "session_source sha (?log @ [(a, g)]) (sha fresh)
        \<lparr>ad_user = i, ad_expires = now + SESSION_TTL\<rparr>"
      by (fastforce simp: session_source_def)
    show "(\<forall>h d. au_codes s' h = Some d \<longrightarrow> code_source sha (?log @ [(a, g)]) h d)
        \<and> (\<forall>h d. au_sessions s' h = Some d \<longrightarrow> session_source sha (?log @ [(a, g)]) h d)"
      using Exchange(6,7) codes sessions new by auto
  next
    case Shrink
    show "(\<forall>h d. au_codes s' h = Some d \<longrightarrow> code_source sha (?log @ [(a, g)]) h d)
        \<and> (\<forall>h d. au_sessions s' h = Some d \<longrightarrow> session_source sha (?log @ [(a, g)]) h d)"
      using Shrink codes sessions by (metis option.distinct(1))
  qed
qed

text \<open>What a live session proves, and that a revoked one proves nothing.\<close>

lemma session_provenance:
  assumes "ao_identity ops now t (auth_run ops as no_auth) = (Inr (Some i), s')"
  shows "\<exists>began fresh code issued c. (Exchange began fresh code, Session fresh i) \<in> set (auth_log ops as no_auth)
    \<and> sha fresh = sha t \<and> now < began + SESSION_TTL
    \<and> (Issue issued c i, Code c) \<in> set (auth_log ops as no_auth) \<and> sha c = sha code
    \<and> began < issued + CODE_TTL"
proof -
  from identity_Some [OF assms] obtain d where d: "au_sessions (auth_run ops as no_auth) (sha t) = Some d"
    "now < ad_expires d" "ad_user d = i" by blast
  with run_sources have "session_source sha (auth_log ops as no_auth) (sha t) d" by blast
  with d(2,3) show ?thesis unfolding session_source_def by fastforce
qed

lemma revoked_session:
  assumes "token_ok t"
  shows "\<forall>i. fst (ao_identity ops now t (snd (ao_revoke ops t s))) \<noteq> Inr (Some i)"
proof -
  have "au_sessions (snd (ao_revoke ops t s)) (sha t) = None"
    using revoke [OF surjective_pairing, of t s] assms by simp
  with identity_Some show ?thesis by (metis option.distinct(1) prod.collapse)
qed

end

end
