(* ===== verification/Magic_Links.thy ===== *)
theory Magic_Links
  imports Base64 Auth_Sessions
begin

text \<open>
  Sign-in by a link sent to a company address, after \<open>cloud/magic_links.py\<close>: signed tokens, the
  delivery message, and the store of links with its two backends. Points of time are
  microseconds since the epoch. \<open>hmac\<close> and \<open>sha\<close> stand for HMAC-SHA-256 (the key first) and for
  SHA-256 in hexadecimal; a random value an operation draws is one of its arguments.
\<close>

section \<open>Tokens\<close>

definition LINK_TTL :: int where "LINK_TTL = 10 * 60 * 1000000"

definition RATE_WINDOW_SECONDS :: int where "RATE_WINDOW_SECONDS = 15 * 60"

definition EMAIL_RATE_LIMIT :: nat where "EMAIL_RATE_LIMIT = 5"

definition GLOBAL_RATE_LIMIT :: nat where "GLOBAL_RATE_LIMIT = 10000"

definition seconds :: "int \<Rightarrow> int" where "seconds t = t div 1000000"

definition rstrip_char :: "char \<Rightarrow> string \<Rightarrow> string" where
  "rstrip_char c s = rev (dropWhile (\<lambda>x. x = c) (rev s))"

definition url_safe :: "char \<Rightarrow> char" where
  "url_safe c = (if c = CHR ''+'' then CHR ''-'' else if c = CHR ''/'' then CHR ''_'' else c)"

definition b64url :: "string \<Rightarrow> string" where
  "b64url s = rstrip_char (CHR ''='') (map url_safe (b64_encode s))"

text \<open>A digest applied to the parts of a message, joined by zero bytes.\<close>

definition zeros :: "string list \<Rightarrow> string" where "zeros ps = join [CHR 0x00] ps"

definition link_binding :: "(string \<Rightarrow> string \<Rightarrow> string) \<Rightarrow> string \<Rightarrow> string \<Rightarrow> string \<Rightarrow> string" where
  "link_binding hmac secret email ws = b64url (take 18 (hmac secret (zeros [''bind'', email, ws])))"

definition dots :: "string list \<Rightarrow> string" where "dots ps = join ''.'' ps"

definition validated_secret :: "string \<Rightarrow> string auth" where
  "validated_secret key = (if length key < 32 then Inl ''magic-link signing key is not configured'' else Inr key)"

text \<open>\<open>None\<close> for an expiry is the default, for a delivery identifier a random nonce.\<close>

definition new_link_token ::
    "(string \<Rightarrow> string \<Rightarrow> string) \<Rightarrow> (string \<Rightarrow> string) \<Rightarrow> string \<Rightarrow> string \<Rightarrow> string \<Rightarrow> int \<Rightarrow> string
       \<Rightarrow> string option \<Rightarrow> int option \<Rightarrow> (string \<times> string \<times> int) auth" where
  "new_link_token hmac sha secret email ws now random delivery expires =
     (let until = (case expires of None \<Rightarrow> now + LINK_TTL | Some e \<Rightarrow> e) in
      if until \<le> now \<or> until > now + LINK_TTL then Inl ''invalid sign-in delivery expiry''
      else
        let nonce = (if delivery \<in> {None, Some []} then random
                     else b64url (take 32 (hmac secret (zeros [''delivery'', the delivery]))));
            unsigned = dots [''ml1'', nonce, show_int (seconds until), link_binding hmac secret email ws];
            token = dots [unsigned, b64url (hmac secret unsigned)]
        in Inr (token, sha token, until))"

definition link_token_ok :: "string \<Rightarrow> bool" where
  "link_token_ok t \<longleftrightarrow>
     (case split_on (CHR ''.'') t of
        [v, nonce, expires, binding, signature] \<Rightarrow>
          v = ''ml1'' \<and> length nonce = 43 \<and> list_all url_char nonce
          \<and> length expires = 10 \<and> list_all is_digit expires
          \<and> length binding = 24 \<and> list_all url_char binding
          \<and> length signature = 43 \<and> list_all url_char signature
      | _ \<Rightarrow> False)"

definition validated_token_hash ::
    "(string \<Rightarrow> string \<Rightarrow> string) \<Rightarrow> (string \<Rightarrow> string) \<Rightarrow> string \<Rightarrow> string \<Rightarrow> int \<Rightarrow> string option" where
  "validated_token_hash hmac sha secret token now =
     (if \<not> link_token_ok token then None
      else
        let ps = split_on (CHR ''.'') token; unsigned = dots (take 4 ps) in
        if ps ! 4 \<noteq> b64url (hmac secret unsigned) then None
        else if int (read_nat (ps ! 2)) \<le> seconds now then None
        else Some (sha token))"

definition binding_matches ::
    "(string \<Rightarrow> string \<Rightarrow> string) \<Rightarrow> string \<Rightarrow> string \<Rightarrow> string \<Rightarrow> string \<Rightarrow> bool" where
  "binding_matches hmac secret token email ws \<longleftrightarrow>
     link_token_ok token \<and> split_on (CHR ''.'') token ! 3 = link_binding hmac secret email ws"


section \<open>The delivery message\<close>

record link_delivery =
  dl_id :: string
  dl_email :: string
  dl_workspace :: string
  dl_expires :: int

definition publish_payload :: "int \<Rightarrow> string \<Rightarrow> string option \<Rightarrow> string \<Rightarrow> json" where
  "publish_payload now random email ws =
     JObj [(''v'', JInt 1), (''delivery_id'', JStr random),
           (''email'', JStr (case email of None \<Rightarrow> [] | Some e \<Rightarrow> e)), (''workspace_id'', JStr ws),
           (''expires_at'', JInt (seconds (now + LINK_TTL)))]"

definition memory_publish :: "int \<Rightarrow> string \<Rightarrow> string option \<Rightarrow> string \<Rightarrow> link_delivery list \<Rightarrow> link_delivery list" where
  "memory_publish now random email ws queue =
     queue @ [\<lparr>dl_id = random, dl_email = (case email of None \<Rightarrow> [] | Some e \<Rightarrow> e),
               dl_workspace = ws, dl_expires = now + LINK_TTL\<rparr>]"

definition workspace_pattern :: "string \<Rightarrow> bool" where
  "workspace_pattern s \<longleftrightarrow>
     (let alnum = (\<lambda>c. let n = (of_char c :: nat) in
            (48 \<le> n \<and> n \<le> 57) \<or> (65 \<le> n \<and> n \<le> 90) \<or> (97 \<le> n \<and> n \<le> 122)) in
      s \<noteq> [] \<and> length s \<le> 96 \<and> alnum (hd s)
      \<and> list_all (\<lambda>c. alnum c \<or> c \<in> {CHR ''.'', CHR ''_'', CHR '':'', CHR ''-''}) s)"

text \<open>
  \<open>loads\<close> is the JSON parser. Seconds outside the range of \<open>datetime\<close> make the conversion
  raise an error the function does not turn into its own.
\<close>

definition in_datetime_range :: "int \<Rightarrow> bool" where
  "in_datetime_range s \<longleftrightarrow> - 62135596800 \<le> s \<and> s \<le> 253402300799"

datatype delivery_error = InvalidMessage | DeliveryExpired | OutOfRange

definition delivery_fields :: "(string \<Rightarrow> json option) \<Rightarrow> string \<Rightarrow> (json \<times> json \<times> json \<times> json \<times> int) option" where
  "delivery_fields loads encoded =
     (case b64_decode encoded of
        None \<Rightarrow> None
      | Some raw \<Rightarrow>
          (if length raw > 2048 then None
           else case loads raw of
             Some (JObj kvs) \<Rightarrow>
               (case (map_of kvs ''delivery_id'', map_of kvs ''email'', map_of kvs ''workspace_id'',
                      map_of kvs ''expires_at'') of
                  (Some d, Some e, Some w, Some x) \<Rightarrow>
                    (case py_int x of Inr n \<Rightarrow> Some (jget ''v'' kvs, d, e, w, n) | Inl _ \<Rightarrow> None)
                | _ \<Rightarrow> None)
           | _ \<Rightarrow> None))"

definition decode_magic_link_delivery ::
    "(string \<Rightarrow> json option) \<Rightarrow> int \<Rightarrow> string \<Rightarrow> delivery_error + link_delivery" where
  "decode_magic_link_delivery loads now encoded =
     (case delivery_fields loads encoded of
        Some (v, JStr d, JStr e, JStr w, n) \<Rightarrow>
          (if \<not> py_eq v (JInt 1) \<or> length d \<noteq> 32 \<or> \<not> list_all url_char d \<or> length e > 320
              \<or> \<not> workspace_pattern w
           then Inl InvalidMessage
           else if \<not> in_datetime_range n then Inl OutOfRange
           else
             let until = n * 1000000 in
             if until \<le> now \<or> until > now + LINK_TTL then Inl DeliveryExpired
             else Inr \<lparr>dl_id = d, dl_email = e, dl_workspace = w, dl_expires = until\<rparr>)
      | _ \<Rightarrow> Inl InvalidMessage)"


section \<open>The store\<close>

record link_doc =
  ld_user :: user_identity
  ld_workspace :: string
  ld_expires :: int
  ld_active :: "int option"
  ld_disabled :: "int option"
  ld_consumed :: "int option"

record link_state =
  ls_links :: "string \<rightharpoonup> link_doc"
  ls_rates :: "string \<Rightarrow> nat"

definition no_links :: link_state where
  "no_links = \<lparr>ls_links = Map.empty, ls_rates = (\<lambda>k. 0)\<rparr>"

definition link_identity :: "link_doc \<Rightarrow> user_identity option" where
  "link_identity d =
     (if u_uid (ld_user d) = [] \<or> u_email (ld_user d) = [] then None
      else Some ((ld_user d)\<lparr>u_picture := None\<rparr>))"

definition rate_window :: "int \<Rightarrow> int" where
  "rate_window now = seconds now div RATE_WINDOW_SECONDS"

definition rate_key ::
    "(string \<Rightarrow> string \<Rightarrow> string) \<Rightarrow> string \<Rightarrow> string \<Rightarrow> string \<Rightarrow> int \<Rightarrow> string" where
  "rate_key hmac secret kind value window =
     b64url (hmac secret (zeros [''rate'', kind, value, show_int window]))"

definition mem_reserve_request ::
    "(string \<Rightarrow> string \<Rightarrow> string) \<Rightarrow> string \<Rightarrow> int \<Rightarrow> string \<Rightarrow> link_state \<Rightarrow> bool \<times> link_state" where
  "mem_reserve_request hmac secret now email s =
     (let window = rate_window now;
          k1 = rate_key hmac secret ''email'' email window;
          k2 = rate_key hmac secret ''global'' ''all'' window;
          allowed = ls_rates s k1 < EMAIL_RATE_LIMIT \<and> ls_rates s k2 < GLOBAL_RATE_LIMIT;
          rates1 = (ls_rates s)(k1 := ls_rates s k1 + 1)
      in (allowed, s\<lparr>ls_rates := rates1(k2 := rates1 k2 + 1)\<rparr>))"

definition fs_reserve_request ::
    "(string \<Rightarrow> string \<Rightarrow> string) \<Rightarrow> string \<Rightarrow> int \<Rightarrow> string \<Rightarrow> link_state \<Rightarrow> bool \<times> link_state" where
  "fs_reserve_request hmac secret now email s =
     (let window = rate_window now;
          specs = [(rate_key hmac secret ''email'' email window, EMAIL_RATE_LIMIT),
                   (rate_key hmac secret ''global'' ''all'' window, GLOBAL_RATE_LIMIT)];
          counts = map (\<lambda>(k, _). ls_rates s k) specs;
          allowed = list_all (\<lambda>(n, (_, limit)). n < limit) (zip counts specs)
      in (allowed, s\<lparr>ls_rates := foldl (\<lambda>r (n, (k, _)). r(k := n + 1)) (ls_rates s) (zip counts specs)\<rparr>))"

definition new_link :: "user_identity \<Rightarrow> string \<Rightarrow> int \<Rightarrow> link_doc" where
  "new_link i ws until =
     \<lparr>ld_user = i, ld_workspace = ws, ld_expires = until, ld_active = None, ld_disabled = None,
      ld_consumed = None\<rparr>"

definition mem_issue ::
    "(string \<Rightarrow> string \<Rightarrow> string) \<Rightarrow> (string \<Rightarrow> string) \<Rightarrow> string \<Rightarrow> int \<Rightarrow> string \<Rightarrow> string option \<Rightarrow> int option
       \<Rightarrow> user_identity \<Rightarrow> string \<Rightarrow> link_state \<Rightarrow> string auth \<times> link_state" where
  "mem_issue hmac sha secret now random delivery expires i ws s =
     (case new_link_token hmac sha secret (u_email i) ws now random delivery expires of
        Inl e \<Rightarrow> (Inl e, s)
      | Inr (token, h, until) \<Rightarrow>
          (Inr token, if ls_links s h \<noteq> None then s
                      else s\<lparr>ls_links := (ls_links s)(h \<mapsto> new_link i ws until)\<rparr>))"

definition fs_issue ::
    "(string \<Rightarrow> string \<Rightarrow> string) \<Rightarrow> (string \<Rightarrow> string) \<Rightarrow> string \<Rightarrow> int \<Rightarrow> string \<Rightarrow> string option \<Rightarrow> int option
       \<Rightarrow> user_identity \<Rightarrow> string \<Rightarrow> link_state \<Rightarrow> string auth \<times> link_state" where
  "fs_issue hmac sha secret now random delivery expires i ws s =
     (case new_link_token hmac sha secret (u_email i) ws now random delivery expires of
        Inl e \<Rightarrow> (Inl e, s)
      | Inr (token, h, until) \<Rightarrow>
          (if ls_links s h \<noteq> None
           then (if delivery = None then (Inl ''could not create sign-in link'', s) else (Inr token, s))
           else (Inr token, s\<lparr>ls_links := (ls_links s)(h \<mapsto> new_link i ws until)\<rparr>)))"

definition mem_activate :: "(string \<Rightarrow> string) \<Rightarrow> int \<Rightarrow> string \<Rightarrow> link_state \<Rightarrow> unit auth \<times> link_state" where
  "mem_activate sha now token s =
     (case ls_links s (sha token) of
        None \<Rightarrow> (Inl ''could not activate sign-in link'', s)
      | Some d \<Rightarrow>
          (if ld_consumed d \<noteq> None then (Inl ''could not activate sign-in link'', s)
           else (Inr (), s\<lparr>ls_links := (ls_links s)
                    (sha token \<mapsto> d\<lparr>ld_active := Some now, ld_disabled := None\<rparr>)\<rparr>)))"

definition fs_activate :: "(string \<Rightarrow> string) \<Rightarrow> int \<Rightarrow> string \<Rightarrow> link_state \<Rightarrow> unit auth \<times> link_state" where
  "fs_activate sha now token s =
     (case ls_links s (sha token) of
        None \<Rightarrow> (Inl ''could not activate sign-in link'', s)
      | Some d \<Rightarrow> (Inr (), s\<lparr>ls_links := (ls_links s)
                      (sha token \<mapsto> d\<lparr>ld_active := Some now, ld_disabled := None\<rparr>)\<rparr>))"

text \<open>The conditions both backends put on a link that is used in a workspace at a time.\<close>

definition usable :: "link_doc \<Rightarrow> string \<Rightarrow> int \<Rightarrow> bool" where
  "usable d ws now \<longleftrightarrow> ld_workspace d = ws \<and> ld_active d \<noteq> None \<and> ld_disabled d = None
     \<and> ld_consumed d = None \<and> now < ld_expires d"

definition mem_consume ::
    "(string \<Rightarrow> string \<Rightarrow> string) \<Rightarrow> (string \<Rightarrow> string) \<Rightarrow> string \<Rightarrow> int \<Rightarrow> string \<Rightarrow> string \<Rightarrow> link_state
       \<Rightarrow> user_identity option \<times> link_state" where
  "mem_consume hmac sha secret now token ws s =
     (case validated_token_hash hmac sha secret token now of
        None \<Rightarrow> (None, s)
      | Some h \<Rightarrow>
          (case ls_links s h of
             None \<Rightarrow> (None, s)
           | Some d \<Rightarrow>
               (if \<not> usable d ws now \<or> \<not> binding_matches hmac secret token (u_email (ld_user d)) ws
                then (None, s)
                else (link_identity d, s\<lparr>ls_links := (ls_links s)(h \<mapsto> d\<lparr>ld_consumed := Some now\<rparr>)\<rparr>))))"

definition fs_consume ::
    "(string \<Rightarrow> string \<Rightarrow> string) \<Rightarrow> (string \<Rightarrow> string) \<Rightarrow> string \<Rightarrow> int \<Rightarrow> string \<Rightarrow> string \<Rightarrow> link_state
       \<Rightarrow> user_identity option \<times> link_state" where
  "fs_consume hmac sha secret now token ws s =
     (case validated_token_hash hmac sha secret token now of
        None \<Rightarrow> (None, s)
      | Some h \<Rightarrow>
          (case ls_links s h of
             None \<Rightarrow> (None, s)
           | Some d \<Rightarrow>
               (if \<not> usable d ws now \<or> \<not> binding_matches hmac secret token (u_email (ld_user d)) ws
                then (None, s)
                else case link_identity d of
                  None \<Rightarrow> (None, s)
                | Some i \<Rightarrow> (Some i, s\<lparr>ls_links := (ls_links s)(h \<mapsto> d\<lparr>ld_consumed := Some now\<rparr>)\<rparr>))))"

definition mem_invalidate :: "(string \<Rightarrow> string) \<Rightarrow> int \<Rightarrow> string \<Rightarrow> link_state \<Rightarrow> unit auth \<times> link_state" where
  "mem_invalidate sha now token s =
     (case ls_links s (sha token) of
        None \<Rightarrow> (Inr (), s)
      | Some d \<Rightarrow>
          (Inr (), if ld_consumed d \<noteq> None then s
                   else s\<lparr>ls_links := (ls_links s)
                      (sha token \<mapsto> d\<lparr>ld_active := None, ld_disabled := Some now\<rparr>)\<rparr>))"

definition fs_invalidate :: "(string \<Rightarrow> string) \<Rightarrow> int \<Rightarrow> string \<Rightarrow> link_state \<Rightarrow> unit auth \<times> link_state" where
  "fs_invalidate sha now token s =
     (case ls_links s (sha token) of
        None \<Rightarrow> (Inl ''could not disable sign-in link'', s)
      | Some d \<Rightarrow> (Inr (), s\<lparr>ls_links := (ls_links s)
                      (sha token \<mapsto> d\<lparr>ld_active := None, ld_disabled := Some now\<rparr>)\<rparr>))"


section \<open>The contract\<close>

record link_ops =
  lo_reserve :: "int \<Rightarrow> string \<Rightarrow> link_state \<Rightarrow> bool \<times> link_state"
  lo_issue :: "int \<Rightarrow> string \<Rightarrow> string option \<Rightarrow> int option \<Rightarrow> user_identity \<Rightarrow> string \<Rightarrow> link_state
                 \<Rightarrow> string auth \<times> link_state"
  lo_activate :: "int \<Rightarrow> string \<Rightarrow> link_state \<Rightarrow> unit auth \<times> link_state"
  lo_consume :: "int \<Rightarrow> string \<Rightarrow> string \<Rightarrow> link_state \<Rightarrow> user_identity option \<times> link_state"
  lo_invalidate :: "int \<Rightarrow> string \<Rightarrow> link_state \<Rightarrow> unit auth \<times> link_state"

definition memory_links :: "(string \<Rightarrow> string \<Rightarrow> string) \<Rightarrow> (string \<Rightarrow> string) \<Rightarrow> string \<Rightarrow> link_ops" where
  "memory_links hmac sha secret = \<lparr>lo_reserve = mem_reserve_request hmac secret,
     lo_issue = mem_issue hmac sha secret, lo_activate = mem_activate sha,
     lo_consume = mem_consume hmac sha secret, lo_invalidate = mem_invalidate sha\<rparr>"

definition firestore_links :: "(string \<Rightarrow> string \<Rightarrow> string) \<Rightarrow> (string \<Rightarrow> string) \<Rightarrow> string \<Rightarrow> link_ops" where
  "firestore_links hmac sha secret = \<lparr>lo_reserve = fs_reserve_request hmac secret,
     lo_issue = fs_issue hmac sha secret, lo_activate = fs_activate sha,
     lo_consume = fs_consume hmac sha secret, lo_invalidate = fs_invalidate sha\<rparr>"

text \<open>What time does to a link: it keeps its user, workspace and expiry, and stays used.\<close>

definition ages :: "link_doc \<Rightarrow> link_doc \<Rightarrow> bool" where
  "ages d d' \<longleftrightarrow> ld_user d' = ld_user d \<and> ld_workspace d' = ld_workspace d
     \<and> ld_expires d' = ld_expires d \<and> (ld_consumed d \<noteq> None \<longrightarrow> ld_consumed d' \<noteq> None)"

definition aged :: "link_state \<Rightarrow> link_state \<Rightarrow> bool" where
  "aged s s' \<longleftrightarrow> (\<forall>h d. ls_links s h = Some d \<longrightarrow> (\<exists>d'. ls_links s' h = Some d' \<and> ages d d'))
     \<and> (\<forall>h. ls_links s h = None \<longrightarrow> ls_links s' h = None)"

lemma ages_refl [simp]: "ages d d"
  by (simp add: ages_def)

lemma aged_same: "ls_links s' = ls_links s \<Longrightarrow> aged s s'"
  by (simp add: aged_def)

lemma aged_refl [simp]: "aged s s"
  by (rule aged_same) simp

lemma aged_update:
  "ls_links s h = Some d \<Longrightarrow> ages d d' \<Longrightarrow> ls_links s' = (ls_links s)(h \<mapsto> d') \<Longrightarrow> aged s s'"
  by (simp add: aged_def)

lemma aged_put:
  "ls_links s h = Some d \<Longrightarrow> ages d d' \<Longrightarrow> aged s (s\<lparr>ls_links := (ls_links s)(h \<mapsto> d')\<rparr>)"
  by (rule aged_update) simp_all

lemma agedD:
  assumes "aged s s'"
  shows "ls_links s h = Some d \<Longrightarrow> \<exists>d'. ls_links s' h = Some d' \<and> ages d d'"
    and "ls_links s' h = Some d' \<Longrightarrow> \<exists>d. ls_links s h = Some d \<and> ages d d'"
  using assms unfolding aged_def by (blast, metis option.exhaust option.inject option.distinct(1))

text \<open>\<open>grants token ws now i\<close>: what a token must be for it to sign \<open>i\<close> in.\<close>

locale link_store =
  fixes ops :: link_ops and sha :: "string \<Rightarrow> string" and grants :: "string \<Rightarrow> string \<Rightarrow> int \<Rightarrow> string \<Rightarrow> bool"
    and key :: "string \<Rightarrow> string \<Rightarrow> int \<Rightarrow> string"
  assumes reserve: "lo_reserve ops now email s = (allowed, s') \<Longrightarrow> ls_links s' = ls_links s
      \<and> allowed = (ls_rates s (key ''email'' email (rate_window now)) < EMAIL_RATE_LIMIT
          \<and> ls_rates s (key ''global'' ''all'' (rate_window now)) < GLOBAL_RATE_LIMIT)
      \<and> ls_rates s (key ''email'' email (rate_window now)) < ls_rates s' (key ''email'' email (rate_window now))
      \<and> ls_rates s (key ''global'' ''all'' (rate_window now)) < ls_rates s' (key ''global'' ''all'' (rate_window now))
      \<and> (\<forall>k. ls_rates s k \<le> ls_rates s' k)"
    and issue: "lo_issue ops now random delivery expires i ws s = (issued, s') \<Longrightarrow>
      ls_rates s' = ls_rates s \<and> (s' = s \<or> (\<exists>token until. issued = Inr token \<and> ls_links s (sha token) = None
        \<and> until \<le> now + LINK_TTL \<and> ls_links s' = (ls_links s)(sha token \<mapsto> new_link i ws until)))"
    and activate: "lo_activate ops now token s = (activated, s') \<Longrightarrow> aged s s' \<and> ls_rates s' = ls_rates s"
    and invalidate: "lo_invalidate ops now token s = (disabled, s') \<Longrightarrow> aged s s' \<and> ls_rates s' = ls_rates s"
    and consume_None: "lo_consume ops now token ws s = (None, s') \<Longrightarrow> aged s s' \<and> ls_rates s' = ls_rates s"
    and consume_Some: "lo_consume ops now token ws s = (Some i, s') \<Longrightarrow>
      ls_rates s' = ls_rates s \<and> grants token ws now (u_email i)
      \<and> (\<exists>d. ls_links s (sha token) = Some d \<and> usable d ws now \<and> i = (ld_user d)\<lparr>u_picture := None\<rparr>
           \<and> ls_links s' = (ls_links s)(sha token \<mapsto> d\<lparr>ld_consumed := Some now\<rparr>))"

definition genuine ::
    "(string \<Rightarrow> string \<Rightarrow> string) \<Rightarrow> string \<Rightarrow> string \<Rightarrow> string \<Rightarrow> int \<Rightarrow> string \<Rightarrow> bool" where
  "genuine hmac secret token ws now email \<longleftrightarrow>
     validated_token_hash hmac (\<lambda>t. t) secret token now = Some token
     \<and> binding_matches hmac secret token email ws"

lemma validated_token_hash_cases:
  "validated_token_hash hmac sha secret token now =
     (if validated_token_hash hmac (\<lambda>t. t) secret token now = None then None else Some (sha token))"
  "validated_token_hash hmac (\<lambda>t. t) secret token now \<in> {None, Some token}"
  by (auto simp: validated_token_hash_def Let_def)

lemma new_link_token_bound:
  "new_link_token hmac sha secret email ws now random delivery expires = Inr (token, h, until) \<Longrightarrow>
     h = sha token \<and> now < until \<and> until \<le> now + LINK_TTL"
  by (auto simp: new_link_token_def Let_def split: if_splits)

lemmas link_defs = mem_issue_def fs_issue_def mem_activate_def fs_activate_def mem_invalidate_def
  fs_invalidate_def

lemma link_identity_Some: "link_identity d = Some i \<longleftrightarrow> i = (ld_user d)\<lparr>u_picture := None\<rparr>
    \<and> u_uid (ld_user d) \<noteq> [] \<and> u_email (ld_user d) \<noteq> []"
  by (auto simp: link_identity_def)

interpretation memory_link: link_store "memory_links hmac sha secret" sha "genuine hmac secret"
  "rate_key hmac secret"
  for hmac sha secret
proof unfold_locales
  fix now random delivery expires i ws s issued s'
  assume call: "lo_issue (memory_links hmac sha secret) now random delivery expires i ws s = (issued, s')"
  then show "ls_rates s' = ls_rates s \<and> (s' = s \<or> (\<exists>token until. issued = Inr token
      \<and> ls_links s (sha token) = None \<and> until \<le> now + LINK_TTL
      \<and> ls_links s' = (ls_links s)(sha token \<mapsto> new_link i ws until)))"
  proof (cases "new_link_token hmac sha secret (u_email i) ws now random delivery expires")
    case (Inr p)
    obtain token h until where p: "p = (token, h, until)" by (cases p)
    with new_link_token_bound Inr have "h = sha token" "until \<le> now + LINK_TTL" by blast+
    with call Inr p show ?thesis by (auto simp: memory_links_def mem_issue_def split: if_splits)
  qed (use call in \<open>simp add: memory_links_def mem_issue_def\<close>)
next
  fix now token ws s i s'
  assume "lo_consume (memory_links hmac sha secret) now token ws s = (Some i, s')"
  then show "ls_rates s' = ls_rates s \<and> genuine hmac secret token ws now (u_email i)
      \<and> (\<exists>d. ls_links s (sha token) = Some d \<and> usable d ws now \<and> i = (ld_user d)\<lparr>u_picture := None\<rparr>
           \<and> ls_links s' = (ls_links s)(sha token \<mapsto> d\<lparr>ld_consumed := Some now\<rparr>))"
    using validated_token_hash_cases(1) [of hmac sha secret token now]
      validated_token_hash_cases(2) [of hmac secret token now]
    by (auto simp: memory_links_def mem_consume_def genuine_def link_identity_Some split: option.splits if_splits)
next
  fix now token ws s s'
  assume "lo_consume (memory_links hmac sha secret) now token ws s = (None, s')"
  then show "aged s s' \<and> ls_rates s' = ls_rates s"
    by (auto simp: memory_links_def mem_consume_def split: option.splits if_splits
        intro!: aged_put simp: ages_def)
qed (auto simp: memory_links_def mem_reserve_request_def mem_activate_def mem_invalidate_def Let_def ages_def
    intro!: aged_put split: option.splits if_splits)

interpretation firestore_link: link_store "firestore_links hmac sha secret" sha "genuine hmac secret"
  "rate_key hmac secret"
  for hmac sha secret
proof unfold_locales
  fix now random delivery expires i ws s issued s'
  assume call: "lo_issue (firestore_links hmac sha secret) now random delivery expires i ws s = (issued, s')"
  then show "ls_rates s' = ls_rates s \<and> (s' = s \<or> (\<exists>token until. issued = Inr token
      \<and> ls_links s (sha token) = None \<and> until \<le> now + LINK_TTL
      \<and> ls_links s' = (ls_links s)(sha token \<mapsto> new_link i ws until)))"
  proof (cases "new_link_token hmac sha secret (u_email i) ws now random delivery expires")
    case (Inr p)
    obtain token h until where p: "p = (token, h, until)" by (cases p)
    with new_link_token_bound Inr have "h = sha token" "until \<le> now + LINK_TTL" by blast+
    with call Inr p show ?thesis by (auto simp: firestore_links_def fs_issue_def split: if_splits)
  qed (use call in \<open>simp add: firestore_links_def fs_issue_def\<close>)
next
  fix now token ws s i s'
  assume "lo_consume (firestore_links hmac sha secret) now token ws s = (Some i, s')"
  then show "ls_rates s' = ls_rates s \<and> genuine hmac secret token ws now (u_email i)
      \<and> (\<exists>d. ls_links s (sha token) = Some d \<and> usable d ws now \<and> i = (ld_user d)\<lparr>u_picture := None\<rparr>
           \<and> ls_links s' = (ls_links s)(sha token \<mapsto> d\<lparr>ld_consumed := Some now\<rparr>))"
    using validated_token_hash_cases(1) [of hmac sha secret token now]
      validated_token_hash_cases(2) [of hmac secret token now]
    by (auto simp: firestore_links_def fs_consume_def genuine_def link_identity_Some split: option.splits if_splits)
qed (auto simp: firestore_links_def fs_reserve_request_def fs_activate_def fs_invalidate_def fs_consume_def
    Let_def ages_def intro!: aged_put split: option.splits if_splits)


section \<open>Sequences of operations\<close>

datatype link_op =
    Reserve int string
  | Send_Link int string "string option" "int option" user_identity string
  | Activate int string
  | Use_Link int string string
  | Disable int string

datatype link_grant = Refused | Allowed | Sent string | Signed_In user_identity

fun link_step :: "link_ops \<Rightarrow> link_op \<Rightarrow> link_state \<Rightarrow> link_grant \<times> link_state" where
  "link_step ops (Reserve now email) s =
     (case lo_reserve ops now email s of (allowed, s') \<Rightarrow> (if allowed then Allowed else Refused, s'))"
| "link_step ops (Send_Link now random delivery expires i ws) s =
     (case lo_issue ops now random delivery expires i ws s of
        (Inr token, s') \<Rightarrow> (Sent token, s') | (Inl e, s') \<Rightarrow> (Refused, s'))"
| "link_step ops (Activate now token) s = (Refused, snd (lo_activate ops now token s))"
| "link_step ops (Use_Link now token ws) s =
     (case lo_consume ops now token ws s of
        (Some i, s') \<Rightarrow> (Signed_In i, s') | (None, s') \<Rightarrow> (Refused, s'))"
| "link_step ops (Disable now token) s = (Refused, snd (lo_invalidate ops now token s))"

fun link_run :: "link_ops \<Rightarrow> link_op list \<Rightarrow> link_state \<Rightarrow> link_state" where
  "link_run ops [] s = s"
| "link_run ops (a # as) s = link_run ops as (snd (link_step ops a s))"

fun link_log :: "link_ops \<Rightarrow> link_op list \<Rightarrow> link_state \<Rightarrow> (link_op \<times> link_grant) list" where
  "link_log ops [] s = []"
| "link_log ops (a # as) s = (a, fst (link_step ops a s)) # link_log ops as (snd (link_step ops a s))"

lemma link_run_append: "link_run ops (as @ bs) s = link_run ops bs (link_run ops as s)"
  by (induction as arbitrary: s) simp_all

lemma link_log_append: "link_log ops (as @ bs) s = link_log ops as s @ link_log ops bs (link_run ops as s)"
  by (induction as arbitrary: s) simp_all

text \<open>Requests let through: for an address, or for anyone, in one window.\<close>

fun allowed_in :: "string option \<Rightarrow> int \<Rightarrow> link_op \<times> link_grant \<Rightarrow> bool" where
  "allowed_in who w (Reserve now email, Allowed) = (rate_window now = w \<and> (who = None \<or> who = Some email))"
| "allowed_in who w _ = False"

definition link_source :: "(string \<Rightarrow> string) \<Rightarrow> (link_op \<times> link_grant) list \<Rightarrow> string \<Rightarrow> link_doc \<Rightarrow> bool" where
  "link_source sha log h d \<longleftrightarrow> (\<exists>sent random delivery expires token.
     (Send_Link sent random delivery expires (ld_user d) (ld_workspace d), Sent token) \<in> set log
     \<and> sha token = h \<and> ld_expires d \<le> sent + LINK_TTL)"

lemma link_source_mono: "link_source sha log h d \<Longrightarrow> link_source sha (log @ log2) h d"
  unfolding link_source_def set_append by blast

lemma link_source_ages: "ages d d' \<Longrightarrow> link_source sha log h d' = link_source sha log h d"
  by (simp add: ages_def link_source_def)

context link_store
begin

text \<open>A step only ages the links it knows, except that a sending may add one.\<close>

lemma link_step_cases [case_names Sent Aged]:
  assumes "link_step ops a s = (g, s')"
  obtains now random delivery expires i ws token until where
      "a = Send_Link now random delivery expires i ws" "g = Sent token" "ls_links s (sha token) = None"
      "until \<le> now + LINK_TTL" "ls_links s' = (ls_links s)(sha token \<mapsto> new_link i ws until)"
    | "aged s s'"
proof (cases a)
  case (Reserve now email)
  obtain b s1 where c: "lo_reserve ops now email s = (b, s1)" by fastforce
  with assms Reserve reserve [OF c] have "aged s s'" by (intro aged_same) (simp split: if_splits)
  then show ?thesis by (rule that(2))
next
  case (Send_Link now random delivery expires i ws)
  obtain o' s1 where c: "lo_issue ops now random delivery expires i ws s = (o', s1)" by fastforce
  with assms Send_Link have s1: "s1 = s'" by (auto split: sum.splits)
  from issue [OF c] have "s1 = s \<or> (\<exists>token until. o' = Inr token \<and> ls_links s (sha token) = None
      \<and> until \<le> now + LINK_TTL \<and> ls_links s1 = (ls_links s)(sha token \<mapsto> new_link i ws until))" by blast
  then show ?thesis
  proof
    assume "s1 = s"
    with s1 show ?thesis by (intro that(2)) simp
  next
    assume "\<exists>token until. o' = Inr token \<and> ls_links s (sha token) = None
      \<and> until \<le> now + LINK_TTL \<and> ls_links s1 = (ls_links s)(sha token \<mapsto> new_link i ws until)"
    with assms c Send_Link s1 show ?thesis by (auto intro: that(1))
  qed
next
  case (Activate now token)
  obtain o' s1 where c: "lo_activate ops now token s = (o', s1)" by fastforce
  with assms Activate activate [OF c] show ?thesis by (intro that(2)) simp
next
  case (Use_Link now token ws)
  obtain o' s1 where c: "lo_consume ops now token ws s = (o', s1)" by fastforce
  with assms Use_Link have s1: "s1 = s'" by (auto split: option.splits)
  show ?thesis
  proof (cases o')
    case None
    with consume_None c s1 show ?thesis by (intro that(2)) blast
  next
    case (Some i)
    from consume_Some [OF c [unfolded Some]] s1 obtain d where "ls_links s (sha token) = Some d"
      "ls_links s' = (ls_links s)(sha token \<mapsto> d\<lparr>ld_consumed := Some now\<rparr>)" by blast
    then have "aged s s'" by (intro aged_update) (simp_all add: ages_def)
    then show ?thesis by (rule that(2))
  qed
next
  case (Disable now token)
  obtain o' s1 where c: "lo_invalidate ops now token s = (o', s1)" by fastforce
  with assms Disable invalidate [OF c] show ?thesis by (intro that(2)) simp
qed

lemma used_stays_used:
  assumes "ls_links s h = Some d" "ld_consumed d \<noteq> None"
  shows "\<exists>d'. ls_links (link_run ops as s) h = Some d' \<and> ld_consumed d' \<noteq> None"
  using assms
proof (induction as arbitrary: s d)
  case (Cons a as)
  obtain g s' where st: "link_step ops a s = (g, s')" by fastforce
  from st have "\<exists>d'. ls_links s' h = Some d' \<and> ld_consumed d' \<noteq> None"
  proof (cases rule: link_step_cases)
    case (Sent now random delivery expires i ws token until)
    with Cons.prems have "h \<noteq> sha token" by auto
    with Sent Cons.prems show ?thesis by simp
  next
    case Aged
    from agedD(1) [OF this Cons.prems(1)] Cons.prems(2) show ?thesis unfolding ages_def by blast
  qed
  with Cons.IH st show ?case by auto
qed auto

lemma link_used_once:
  assumes "lo_consume ops now token ws s = (Some i, s')"
  shows "fst (lo_consume ops later token ws' (link_run ops as s')) = None"
proof -
  from consume_Some [OF assms] obtain d where "ls_links s' (sha token) = Some d" "ld_consumed d \<noteq> None" by auto
  from used_stays_used [OF this] obtain d' where d': "ls_links (link_run ops as s') (sha token) = Some d'"
    "ld_consumed d' \<noteq> None" by blast
  show ?thesis
  proof (rule ccontr)
    assume "fst (lo_consume ops later token ws' (link_run ops as s')) \<noteq> None"
    then obtain j t where "lo_consume ops later token ws' (link_run ops as s') = (Some j, t)"
      by (metis option.exhaust prod.collapse)
    from consume_Some [OF this] d' show False by (auto simp: usable_def)
  qed
qed

lemma run_link_sources:
  "ls_links (link_run ops as no_links) h = Some d \<Longrightarrow> link_source sha (link_log ops as no_links) h d"
proof (induction as arbitrary: h d rule: rev_induct)
  case Nil
  then show ?case by (simp add: no_links_def)
next
  case (snoc a as)
  let ?s = "link_run ops as no_links" and ?log = "link_log ops as no_links"
  obtain g s' where st: "link_step ops a ?s = (g, s')" by fastforce
  have log: "link_log ops (as @ [a]) no_links = ?log @ [(a, g)]" and h: "ls_links s' h = Some d"
    using st snoc.prems by (simp_all add: link_run_append link_log_append)
  from st have "link_source sha (?log @ [(a, g)]) h d"
  proof (cases rule: link_step_cases)
    case (Sent now random delivery expires i ws token until)
    show ?thesis
    proof (cases "h = sha token")
      case True
      with h Sent have "d = new_link i ws until" by simp
      with Sent(1,2,4) True show ?thesis
        unfolding link_source_def by (intro exI [of _ now]) (auto simp: new_link_def)
    next
      case False
      with h Sent(5) snoc.IH show ?thesis by (simp add: link_source_mono)
    qed
  next
    case Aged
    from agedD(2) [OF this h] obtain d0 where "ls_links ?s h = Some d0" "ages d0 d" by blast
    with snoc.IH [of h d0] show ?thesis using link_source_mono link_source_ages [of d0 d] by blast
  qed
  with log show ?case by simp
qed

lemma link_provenance:
  assumes "lo_consume ops now token ws (link_run ops as no_links) = (Some i, s')"
  shows "grants token ws now (u_email i) \<and> (\<exists>sent random delivery expires u token'.
    (Send_Link sent random delivery expires u ws, Sent token') \<in> set (link_log ops as no_links)
    \<and> sha token' = sha token \<and> i = u\<lparr>u_picture := None\<rparr> \<and> now < sent + LINK_TTL)"
proof -
  from consume_Some [OF assms] obtain d where d: "ls_links (link_run ops as no_links) (sha token) = Some d"
    "usable d ws now" "i = (ld_user d)\<lparr>u_picture := None\<rparr>" and g: "grants token ws now (u_email i)" by blast
  from run_link_sources [OF d(1)] d(2,3) g show ?thesis
    unfolding link_source_def usable_def by force
qed

text \<open>The counters bound what was let through.\<close>

lemma step_rates:
  assumes "link_step ops a s = (g, s')"
  shows "ls_rates s k \<le> ls_rates s' k"
proof (cases a)
  case (Reserve now email)
  obtain b s1 where c: "lo_reserve ops now email s = (b, s1)" by fastforce
  with assms Reserve reserve [OF c] show ?thesis by simp
next
  case (Send_Link now random delivery expires i ws)
  obtain o' s1 where c: "lo_issue ops now random delivery expires i ws s = (o', s1)" by fastforce
  with assms Send_Link have "s1 = s'" by (auto split: sum.splits)
  with issue [OF c] show ?thesis by simp
next
  case (Activate now token)
  obtain o' s1 where c: "lo_activate ops now token s = (o', s1)" by fastforce
  with assms Activate activate [OF c] show ?thesis by simp
next
  case (Use_Link now token ws)
  obtain o' s1 where c: "lo_consume ops now token ws s = (o', s1)" by fastforce
  with assms Use_Link have "s1 = s'" by (auto split: option.splits)
  with c consume_None consume_Some show ?thesis by (cases o') auto
next
  case (Disable now token)
  obtain o' s1 where c: "lo_invalidate ops now token s = (o', s1)" by fastforce
  with assms Disable invalidate [OF c] show ?thesis by simp
qed

lemma allowed_step:
  assumes "link_step ops a s = (g, s')" "allowed_in who w (a, g)"
  shows "case who of
      Some email \<Rightarrow> ls_rates s (key ''email'' email w) < EMAIL_RATE_LIMIT
        \<and> ls_rates s (key ''email'' email w) < ls_rates s' (key ''email'' email w)
    | None \<Rightarrow> ls_rates s (key ''global'' ''all'' w) < GLOBAL_RATE_LIMIT
        \<and> ls_rates s (key ''global'' ''all'' w) < ls_rates s' (key ''global'' ''all'' w)"
proof -
  from assms(2) obtain now email where a: "a = Reserve now email" "g = Allowed" "rate_window now = w"
    "who = None \<or> who = Some email" by (cases a; cases g) auto
  obtain b s1 where c: "lo_reserve ops now email s = (b, s1)" by fastforce
  with assms(1) a have "b" "s1 = s'" by (auto split: if_splits)
  with reserve [OF c] a(3,4) show ?thesis by auto
qed

lemma run_allowed:
  "length (filter (allowed_in (Some email) w) (link_log ops as no_links))
     \<le> min EMAIL_RATE_LIMIT (ls_rates (link_run ops as no_links) (key ''email'' email w))
   \<and> length (filter (allowed_in None w) (link_log ops as no_links))
     \<le> min GLOBAL_RATE_LIMIT (ls_rates (link_run ops as no_links) (key ''global'' ''all'' w))"
proof (induction as rule: rev_induct)
  case (snoc a as)
  let ?s = "link_run ops as no_links"
  obtain g s' where st: "link_step ops a ?s = (g, s')" by fastforce
  have "link_log ops (as @ [a]) no_links = link_log ops as no_links @ [(a, g)]"
    "link_run ops (as @ [a]) no_links = s'" using st by (simp_all add: link_run_append link_log_append)
  with snoc step_rates [OF st, of "key ''email'' email w"] step_rates [OF st, of "key ''global'' ''all'' w"]
    allowed_step [OF st, of "Some email" w] allowed_step [OF st, of None w]
  show ?case by auto
qed simp

end

end
