(* ===== verification/Link_Tokens.thy ===== *)
theory Link_Tokens
  imports Magic_Links
begin

text \<open>
  A token that was made is accepted: what \<open>new_link_token\<close> builds passes the format, the
  signature and the binding that \<open>validated_token_hash\<close> and \<open>binding_matches\<close> check.
\<close>

section \<open>URL-safe base64\<close>

lemma rstrip_char_keep:
  "c \<notin> set xs \<Longrightarrow> rstrip_char c (xs @ ys) = xs @ rstrip_char c ys"
proof (induction ys rule: rev_induct)
  case Nil
  then show ?case by (cases xs rule: rev_cases) (auto simp: rstrip_char_def)
next
  case (snoc y ys)
  then show ?case by (simp add: rstrip_char_def)
qed

lemma rstrip_char_snoc: "rstrip_char c (xs @ [c]) = rstrip_char c xs"
  by (simp add: rstrip_char_def)

lemma rstrip_char_none: "c \<notin> set xs \<Longrightarrow> rstrip_char c xs = xs"
  using rstrip_char_keep [of c xs "[]"] by (simp add: rstrip_char_def)

lemma url_safe_b64_char:
  assumes "n < 64"
  shows "url_char (url_safe (b64_char n))" and "url_safe (b64_char n) \<noteq> CHR ''=''"
    and "url_safe (b64_char n) \<noteq> CHR ''.''"
proof -
  have "url_char (url_safe (b64_char n)) \<and> url_safe (b64_char n) \<noteq> CHR ''=''
      \<and> url_safe (b64_char n) \<noteq> CHR ''.''"
  proof (cases "n < 62")
    case True
    let ?m = "of_char (b64_char n) :: nat"
    have m: "(48 \<le> ?m \<and> ?m \<le> 57) \<or> (65 \<le> ?m \<and> ?m \<le> 90) \<or> (97 \<le> ?m \<and> ?m \<le> 122)"
      using True by (auto simp: b64_char_def)
    then have "b64_char n \<noteq> CHR ''+''" "b64_char n \<noteq> CHR ''/''" "b64_char n \<noteq> CHR ''=''"
      "b64_char n \<noteq> CHR ''.''" by auto
    then show ?thesis using m by (auto simp: url_safe_def url_char_def Let_def)
  next
    case False
    with assms have "n = 62 \<or> n = 63" by auto
    then show ?thesis by (auto simp: b64_char_def url_safe_def url_char_def)
  qed
  then show "url_char (url_safe (b64_char n))" "url_safe (b64_char n) \<noteq> CHR ''=''"
    "url_safe (b64_char n) \<noteq> CHR ''.''" by auto
qed

lemma url_safe_pad [simp]: "url_safe (CHR ''='') = CHR ''=''"
  by (simp add: url_safe_def)

lemma rstrip_word: "list_all (\<lambda>n. n < 64) ns \<Longrightarrow>
    rstrip_char (CHR ''='') (map (\<lambda>n. url_safe (b64_char n)) ns @ ys)
      = map (\<lambda>n. url_safe (b64_char n)) ns @ rstrip_char (CHR ''='') ys"
  by (rule rstrip_char_keep) (auto simp: list_all_iff dest!: bspec url_safe_b64_char(2) [THEN not_sym])

lemma rstrip_pads: "rstrip_char c [] = []" "rstrip_char c [c] = []" "rstrip_char c [c, c] = []"
  by (simp_all add: rstrip_char_def)

lemma b64url_shape: "length (b64url s) = (4 * length s + 2) div 3 \<and> list_all url_char (b64url s)"
proof (induction s rule: b64_encode.induct)
  case 1
  then show ?case by (simp add: b64url_def rstrip_char_def)
next
  case (2 a)
  have "b64url [a] = map (\<lambda>n. url_safe (b64_char n)) [byte a div 4, byte a mod 4 * 16]"
    using rstrip_word [of "[byte a div 4, byte a mod 4 * 16]" "''==''"]
    by (simp add: b64url_def rstrip_pads)
  then show ?case using url_safe_b64_char(1) by simp
next
  case (3 a b)
  have "b64url [a, b] = map (\<lambda>n. url_safe (b64_char n))
      [byte a div 4, byte a mod 4 * 16 + byte b div 16, byte b mod 16 * 4]"
    using rstrip_word [of "[byte a div 4, byte a mod 4 * 16 + byte b div 16, byte b mod 16 * 4]" "''=''"]
    by (simp add: b64url_def rstrip_pads)
  then show ?case using url_safe_b64_char(1) by simp
next
  case (4 a b c s)
  have "b64url (a # b # c # s) = map (\<lambda>n. url_safe (b64_char n)) [byte a div 4,
      byte a mod 4 * 16 + byte b div 16, byte b mod 16 * 4 + byte c div 64, byte c mod 64] @ b64url s"
    using rstrip_word [of "[byte a div 4, byte a mod 4 * 16 + byte b div 16,
        byte b mod 16 * 4 + byte c div 64, byte c mod 64]" "map url_safe (b64_encode s)"]
    by (simp add: b64url_def)
  with 4 show ?case using url_safe_b64_char(1) by simp
qed

lemma url_char_not_dot: "url_char c \<Longrightarrow> c \<noteq> CHR ''.''"
  by (auto simp: url_char_def Let_def)

lemma digit_not_dot: "is_digit c \<Longrightarrow> c \<noteq> CHR ''.''"
  by (auto simp: is_digit_def Let_def)


section \<open>Splitting what was joined\<close>

lemma split_on_none: "c \<notin> set xs \<Longrightarrow> split_on c xs = [xs]"
  by (induction xs) auto

lemma split_on_cons: "c \<notin> set xs \<Longrightarrow> split_on c (xs @ c # ys) = xs # split_on c ys"
  by (induction xs) auto

lemma split_dots:
  "list_all (\<lambda>p. CHR ''.'' \<notin> set p) ps \<Longrightarrow> ps \<noteq> [] \<Longrightarrow> split_on (CHR ''.'') (dots ps) = ps"
  unfolding dots_def
  by (induction "''.''" ps rule: join.induct) (simp_all add: split_on_none split_on_cons)

lemma dots_five: "dots [dots [a, b, c, d], e] = dots [a, b, c, d, e]"
  by (simp add: dots_def)


section \<open>The round trip of a token\<close>

lemma no_dots:
  "list_all url_char p \<Longrightarrow> CHR ''.'' \<notin> set p"
  "list_all is_digit p \<Longrightarrow> CHR ''.'' \<notin> set p"
  using url_char_not_dot digit_not_dot by (auto simp: list_all_iff)

lemma new_link_token_accepted:
  assumes "new_link_token hmac sha secret email ws now random delivery expires = Inr (token, h, until)"
    and hmac: "\<And>k m. length (hmac k m) = 32"
    and random: "length random = 43" "list_all url_char random"
    and digits: "length (show_int (seconds until)) = 10" "0 \<le> until"
    and later: "seconds later < seconds until"
  shows "validated_token_hash hmac sha secret token later = Some h \<and> binding_matches hmac secret token email ws"
proof -
  let ?n = "if delivery \<in> {None, Some []} then random
      else b64url (take 32 (hmac secret (zeros [''delivery'', the delivery])))"
  let ?e = "show_int (seconds until)" and ?b = "link_binding hmac secret email ws"
  let ?u = "dots [''ml1'', ?n, ?e, ?b]"
  let ?g = "b64url (hmac secret ?u)"
  have token: "token = dots [''ml1'', ?n, ?e, ?b, ?g]" and h: "h = sha token"
    using assms(1) dots_five by (auto simp: new_link_token_def Let_def split: if_splits)
  have n: "length ?n = 43" "list_all url_char ?n"
    using random b64url_shape [of "take 32 (hmac secret (zeros [''delivery'', the delivery]))"] hmac by auto
  have b: "length ?b = 24" "list_all url_char ?b"
    using b64url_shape [of "take 18 (hmac secret (zeros [''bind'', email, ws]))"] hmac
    by (simp_all add: link_binding_def)
  have g: "length ?g = 43" "list_all url_char ?g" using b64url_shape [of "hmac secret ?u"] hmac by simp_all
  have nat: "0 \<le> seconds until" using digits(2) by (simp add: seconds_def)
  then have e: "list_all is_digit ?e" "int (read_nat ?e) = seconds until"
    using show_nat_digits by (simp_all add: show_int_def list_all_iff)
  have split: "split_on (CHR ''.'') token = [''ml1'', ?n, ?e, ?b, ?g]"
    unfolding token using n b g e by (intro split_dots) (simp_all add: no_dots)
  then have ok: "link_token_ok token" using n b g e digits by (simp add: link_token_ok_def)
  with split e(2) later h show ?thesis
    by (simp add: validated_token_hash_def binding_matches_def Let_def numeral_eq_Suc)
qed

end
