(* ===== verification/Cloud_Samples.thy ===== *)
theory Cloud_Samples
  imports Coordination Link_Tokens
begin

text \<open>Small concrete inputs for the properties of the cloud services.\<close>

definition demo_service :: service_env where
  "demo_service =
     \<lparr>sv_now = 100, sv_stamp = ''now'', sv_retention = ''later'', sv_new_id = ''0123456789ab'',
      sv_sha = (\<lambda>x. x), sv_max_turns = None, sv_events = (\<lambda>t r. Inr [([Some ''out''], True)])\<rparr>"

definition demo_handoff :: handoff where
  "demo_handoff = \<lparr>ho_task = ''t'', ho_requires_verification = True, ho_max_turns = 12\<rparr>"

definition demo_run :: run_record where
  "demo_run = new_record demo_service ''t'' ''r-abc'' ''k1'' demo_handoff"

definition demo_other :: run_record where
  "demo_other = new_record demo_service ''t'' ''r-xyz'' ''k2'' demo_handoff"

definition demo_ready :: run_record where
  "demo_ready = settle ''now'' (Inr ''out'') demo_run"

text \<open>The store with these records, each under its run and its key.\<close>

definition demo_fire :: "run_record list \<Rightarrow> fire_store" where
  "demo_fire rs =
     \<lparr>fs_runs = map_of (map (\<lambda>r. (rr_run_id r, r)) rs),
      fs_requests = map_of (map (\<lambda>r. (rr_request_key r, r)) rs)\<rparr>"

lemmas demo_run_defs = demo_run_def demo_other_def demo_ready_def new_record_def settle_def demo_fire_def
  empty_firestore_def demo_service_def demo_handoff_def

lemma demo_claim: "store_step (firestore_ops (\<lambda>x. x)) (empty_firestore, {}) (demo_fire [demo_run], {demo_run})"
proof -
  have "fs_create (\<lambda>x. x) demo_run empty_firestore = (True, demo_fire [demo_run])"
    by (simp add: demo_run_defs fs_create_def)
  from store_step.Claim [of "firestore_ops (\<lambda>x. x)", unfolded backend_simps, OF this] show ?thesis
    by (simp add: demo_run_defs fs_get_def fs_by_key_def)
qed

lemma demo_finish:
  "store_step (firestore_ops (\<lambda>x. x)) (demo_fire [demo_run], {demo_run}) (demo_fire [demo_ready], {})"
proof -
  have "fs_update (\<lambda>x. x) (rr_run_id demo_run) (settle ''now'' (Inr ''out'') demo_run)
      (Some (attempt_of demo_run)) (demo_fire [demo_run]) = (True, demo_fire [demo_ready])"
    by (simp add: demo_run_defs fs_update_def stale_def attempt_of_def)
  from store_step.Finish [of demo_run "{demo_run}" "firestore_ops (\<lambda>x. x)", unfolded backend_simps, OF _ this]
  show ?thesis by simp
qed

lemma demo_second_claim:
  "store_step (firestore_ops (\<lambda>x. x)) (demo_fire [demo_ready], {})
     (demo_fire [demo_other, demo_ready], {demo_other})"
proof -
  have "fs_create (\<lambda>x. x) demo_other (demo_fire [demo_ready]) = (True, demo_fire [demo_other, demo_ready])"
    by (simp add: demo_run_defs fs_create_def)
  from store_step.Claim [of "firestore_ops (\<lambda>x. x)", unfolded backend_simps, OF this] show ?thesis
    by (simp add: demo_run_defs fs_get_def fs_by_key_def)
qed

definition demo_token :: "char \<Rightarrow> string" where "demo_token c = replicate 43 c"

definition demo_user :: user_identity where
  "demo_user = \<lparr>u_uid = ''u'', u_email = ''a@b'', u_name = None, u_picture = None, u_hosted_domain = None\<rparr>"

definition demo_hmac :: "string \<Rightarrow> string \<Rightarrow> string" where
  "demo_hmac k m = replicate 32 CHR ''h''"

definition demo_link :: string where
  "demo_link = dots [dots [''ml1'', demo_token CHR ''n'', show_nat 1700000600, b64url (replicate 18 CHR ''h'')],
     b64url (replicate 32 CHR ''h'')]"

lemma demo_second: "length (show_nat 1700000600) = 10"
  by (simp add: show_nat.simps)

lemma demo_link_made:
  "new_link_token demo_hmac (\<lambda>x. x) ''secret'' email ws (1700000000000000) (demo_token CHR ''n'') None None
     = Inr (demo_link, demo_link, 1700000600000000)"
  by (simp add: new_link_token_def LINK_TTL_def Let_def demo_link_def link_binding_def demo_hmac_def
      seconds_def show_int_def)

lemma demo_link_accepted:
  "validated_token_hash demo_hmac (\<lambda>x. x) ''secret'' demo_link (1700000000000000) = Some demo_link"
  "binding_matches demo_hmac ''secret'' demo_link email ws"
  using new_link_token_accepted [OF demo_link_made [of email ws], of "1700000000000000"]
  by (simp_all add: demo_hmac_def demo_token_def seconds_def show_int_def demo_second list_all_iff url_char_def)

definition demo_link_state :: link_state where
  "demo_link_state = \<lparr>ls_links = [demo_link \<mapsto> \<lparr>ld_user = demo_user, ld_workspace = ''w'',
     ld_expires = 1700000600000000, ld_active = Some 0, ld_disabled = None, ld_consumed = None\<rparr>],
     ls_rates = (\<lambda>k. 0)\<rparr>"

end
