(* ===== verification/Regex.thy ===== *)
theory Regex
  imports Rally_Prelude
begin

text \<open>
  The regular expressions the code matches with: a datatype, matching by derivatives, which
  evaluates, and the relation it decides. Groups, where the code extracts one, are written as
  functions by the theory that uses them. The classes of letters, digits and spaces are ASCII.
\<close>

section \<open>Expressions\<close>

text \<open>\<open>Repeat r m n\<close> is between \<open>m\<close> and \<open>n\<close> copies, any number from \<open>m\<close> when \<open>n\<close> is \<open>None\<close>.\<close>

datatype re =
    Never
  | Nothing
  | One "char \<Rightarrow> bool"
  | Either re re
  | Then re re
  | Repeat re nat "nat option"

definition less1 :: "nat option \<Rightarrow> nat option" where
  "less1 n = map_option (\<lambda>k. k - 1) n"

inductive matches :: "re \<Rightarrow> string \<Rightarrow> bool" where
  Nothing: "matches Nothing []"
| One: "p c \<Longrightarrow> matches (One p) [c]"
| Left: "matches r s \<Longrightarrow> matches (Either r q) s"
| Right: "matches q s \<Longrightarrow> matches (Either r q) s"
| Then: "matches r s \<Longrightarrow> matches q t \<Longrightarrow> matches (Then r q) (s @ t)"
| Stop: "matches (Repeat r 0 n) []"
| Again: "n \<noteq> Some 0 \<Longrightarrow> matches r s \<Longrightarrow> matches (Repeat r (m - 1) (less1 n)) t \<Longrightarrow>
    matches (Repeat r m n) (s @ t)"

inductive_simps matches_simps [simp]:
  "matches Never s"
  "matches Nothing s"
  "matches (One p) s"
  "matches (Either r q) s"
  "matches (Then r q) s"

inductive_cases matches_RepeatE: "matches (Repeat r m n) s"


section \<open>Matching by derivatives\<close>

fun nullable :: "re \<Rightarrow> bool" where
  "nullable Never = False"
| "nullable Nothing = True"
| "nullable (One p) = False"
| "nullable (Either r q) = (nullable r \<or> nullable q)"
| "nullable (Then r q) = (nullable r \<and> nullable q)"
| "nullable (Repeat r m n) = (m = 0 \<or> nullable r \<and> (case n of None \<Rightarrow> True | Some k \<Rightarrow> m \<le> k))"

fun either :: "re \<Rightarrow> re \<Rightarrow> re" where
  "either Never q = q"
| "either r Never = r"
| "either r q = Either r q"

fun seq :: "re \<Rightarrow> re \<Rightarrow> re" where
  "seq Never q = Never"
| "seq Nothing q = q"
| "seq r q = Then r q"

fun deriv :: "char \<Rightarrow> re \<Rightarrow> re" where
  "deriv c Never = Never"
| "deriv c Nothing = Never"
| "deriv c (One p) = (if p c then Nothing else Never)"
| "deriv c (Either r q) = either (deriv c r) (deriv c q)"
| "deriv c (Then r q) =
     (if nullable r then either (seq (deriv c r) q) (deriv c q) else seq (deriv c r) q)"
| "deriv c (Repeat r m n) =
     (if n = Some 0 then Never else seq (deriv c r) (Repeat r (m - 1) (less1 n)))"

primrec fullmatch :: "re \<Rightarrow> string \<Rightarrow> bool" where
  "fullmatch r [] = nullable r"
| "fullmatch r (c # s) = fullmatch (deriv c r) s"

lemma matches_either [simp]: "matches (either r q) s \<longleftrightarrow> matches r s \<or> matches q s"
  by (cases "(r, q)" rule: either.cases) auto

lemma matches_seq [simp]: "matches (seq r q) s \<longleftrightarrow> matches (Then r q) s"
  by (cases "(r, q)" rule: seq.cases) auto

lemma matches_Nil_Repeat:
  assumes "matches r []" and "case n of None \<Rightarrow> True | Some k \<Rightarrow> m \<le> k"
  shows "matches (Repeat r m n) []"
  using assms(2)
proof (induction m arbitrary: n)
  case 0
  show ?case by (rule Stop)
next
  case (Suc m)
  from Suc.prems have "n \<noteq> Some 0" "case less1 n of None \<Rightarrow> True | Some k \<Rightarrow> m \<le> k"
    by (auto simp: less1_def split: option.splits)
  with Suc.IH assms(1) show ?case using Again [of n r "[]" "Suc m" "[]"] by simp
qed

lemma matches_Nil_bound:
  "matches q s \<Longrightarrow> q = Repeat r m n \<Longrightarrow> s = [] \<Longrightarrow>
     m = 0 \<or> matches r [] \<and> (case n of None \<Rightarrow> True | Some k \<Rightarrow> m \<le> k)"
proof (induction arbitrary: m n rule: matches.induct)
  case (Again n' r' s m' t)
  then show ?case by (auto simp: less1_def split: option.splits)
qed auto

lemma nullable_matches: "nullable r \<longleftrightarrow> matches r []"
proof (induction r)
  case (Repeat r m n)
  then show ?case
    using matches_Nil_Repeat matches_Nil_bound [of "Repeat r m n" "[]" r m n] Stop by auto
qed auto

text \<open>A repetition that starts with a character starts with a copy that has it.\<close>

lemma Repeat_widen:
  assumes "matches r []"
  shows "matches q s \<Longrightarrow> q = Repeat r (m - 1) (less1 n) \<Longrightarrow> n \<noteq> Some 0 \<Longrightarrow> matches (Repeat r m n) s"
  using Again [OF _ assms, of n m s] by simp

lemma matches_Repeat_Cons:
  "matches q w \<Longrightarrow> q = Repeat r m n \<Longrightarrow> w = c # s \<Longrightarrow>
     n \<noteq> Some 0 \<and> (\<exists>u v. s = u @ v \<and> matches r (c # u) \<and> matches (Repeat r (m - 1) (less1 n)) v)"
proof (induction arbitrary: m n rule: matches.induct)
  case (Again n' r' s' m' t)
  show ?case
  proof (cases s')
    case Nil
    with Again.prems Again.hyps(2) have t: "t = c # s" and r: "matches r []" by simp_all
    from Again.IH(2) [OF _ t, of "m - 1" "less1 n"] Again.prems(1) obtain u v where
      uv: "less1 n \<noteq> Some 0" "s = u @ v" "matches r (c # u)"
      "matches (Repeat r (m - 1 - 1) (less1 (less1 n))) v" by auto
    from Repeat_widen [OF r uv(4), of "m - 1" "less1 n"] uv(1)
    have "matches (Repeat r (m - 1) (less1 n)) v" by simp
    with uv Again.hyps(1) Again.prems(1) show ?thesis by auto
  next
    case (Cons d u)
    with Again show ?thesis by auto
  qed
qed auto

lemma deriv_matches: "matches (deriv c r) s \<longleftrightarrow> matches r (c # s)"
proof (induction r arbitrary: s)
  case (Then r q)
  then show ?case by (auto simp: nullable_matches Cons_eq_append_conv)
next
  case (Repeat r m n)
  show ?case
  proof
    assume "matches (deriv c (Repeat r m n)) s"
    with Repeat.IH show "matches (Repeat r m n) (c # s)"
      using Again [of n r _ m] by (fastforce split: if_splits)
  next
    assume "matches (Repeat r m n) (c # s)"
    from matches_Repeat_Cons [OF this refl refl] Repeat.IH
    show "matches (deriv c (Repeat r m n)) s" by auto
  qed
qed auto

theorem fullmatch_matches: "fullmatch r s \<longleftrightarrow> matches r s"
  by (induction s arbitrary: r) (simp_all add: nullable_matches deriv_matches)


section \<open>Abbreviations of the notation\<close>

definition star :: "re \<Rightarrow> re" where "star r = Repeat r 0 None"

definition plus' :: "re \<Rightarrow> re" where "plus' r = Repeat r 1 None"

definition opt :: "re \<Rightarrow> re" where "opt r = Either r Nothing"

definition times' :: "re \<Rightarrow> nat \<Rightarrow> nat \<Rightarrow> re" where "times' r m n = Repeat r m (Some n)"

definition lit :: "string \<Rightarrow> re" where
  "lit s = foldr (\<lambda>c r. Then (One (\<lambda>x. x = c)) r) s Nothing"

text \<open>A literal under \<open>IGNORECASE\<close>.\<close>

definition lit_ci :: "string \<Rightarrow> re" where
  "lit_ci s = foldr (\<lambda>c r. Then (One (\<lambda>x. lower_char x = lower_char c)) r) s Nothing"

definition one_of :: "string \<Rightarrow> re" where "one_of cs = One (\<lambda>c. c \<in> set cs)"

definition re_seq :: "re list \<Rightarrow> re" where "re_seq rs = foldr Then rs Nothing"

definition re_alt :: "re list \<Rightarrow> re" where "re_alt rs = foldr Either rs Never"

definition dot :: re where "dot = One (\<lambda>c. c \<noteq> CHR 10)"

definition space :: re where "space = One is_space"

definition between :: "char \<Rightarrow> char \<Rightarrow> char \<Rightarrow> bool" where
  "between a b c \<longleftrightarrow> (of_char a :: nat) \<le> of_char c \<and> (of_char c :: nat) \<le> of_char b"

definition lower_alpha :: "char \<Rightarrow> bool" where "lower_alpha c = between CHR ''a'' CHR ''z'' c"

definition upper_alpha :: "char \<Rightarrow> bool" where "upper_alpha c = between CHR ''A'' CHR ''Z'' c"

definition alnum :: "char \<Rightarrow> bool" where "alnum c \<longleftrightarrow> lower_alpha c \<or> upper_alpha c \<or> is_digit c"

definition word_char :: "char \<Rightarrow> bool" where "word_char c \<longleftrightarrow> alnum c \<or> c = CHR ''_''"

definition search :: "re \<Rightarrow> string \<Rightarrow> bool" where
  "search r s = fullmatch (re_seq [star (One (\<lambda>c. True)), r, star (One (\<lambda>c. True))]) s"

definition match_prefix :: "re \<Rightarrow> string \<Rightarrow> bool" where
  "match_prefix r s = fullmatch (re_seq [r, star (One (\<lambda>c. True))]) s"

lemma matches_any: "matches (star (One (\<lambda>c. True))) s"
proof (induction s)
  case Nil
  then show ?case unfolding star_def by (rule Stop)
next
  case (Cons c s)
  then show ?case unfolding star_def
    using Again [of None "One (\<lambda>c. True)" "[c]" 0 s] by (simp add: less1_def)
qed

lemma search_iff: "search r s \<longleftrightarrow> (\<exists>a b c. s = a @ b @ c \<and> matches r b)"
  by (auto simp: search_def re_seq_def fullmatch_matches matches_any)

lemma match_prefix_iff: "match_prefix r s \<longleftrightarrow> (\<exists>b c. s = b @ c \<and> matches r b)"
  by (simp add: match_prefix_def re_seq_def fullmatch_matches matches_any)

lemma matches_star_One: "matches (Repeat (One p) m n) s \<longleftrightarrow>
    list_all p s \<and> m \<le> length s \<and> (case n of None \<Rightarrow> True | Some k \<Rightarrow> length s \<le> k)"
proof (induction s arbitrary: m n)
  case Nil
  then show ?case by (auto simp: nullable_matches [symmetric] split: option.splits)
next
  case (Cons c s)
  have "matches (Repeat (One p) m n) (c # s) \<longleftrightarrow> matches (deriv c (Repeat (One p) m n)) s"
    by (simp only: deriv_matches)
  also have "\<dots> \<longleftrightarrow> n \<noteq> Some 0 \<and> p c \<and> matches (Repeat (One p) (m - 1) (less1 n)) s" by simp
  finally show ?case using Cons by (auto simp: less1_def split: option.splits)
qed

lemmas fullmatch_class = fullmatch_matches matches_star_One star_def plus'_def times'_def

end
