(* ===== verification/Mail_Auth.thy ===== *)
theory Mail_Auth
  imports Regex
begin

text \<open>
  The evidence that a mail comes from its sender, after \<open>src/ingress.py\<close>: addresses, comments
  and segments of an \<open>Authentication-Results\<close> field, its properties and domains, and the verdict
  \<open>email_authenticates\<close>. The parsed header block is the list of its fields, in order and with
  duplicates.
\<close>

section \<open>Addresses\<close>

definition label_char :: "char \<Rightarrow> bool" where
  "label_char c \<longleftrightarrow> lower_alpha c \<or> is_digit c"

definition DOMAIN_LABEL :: re where
  "DOMAIN_LABEL = re_seq [One label_char,
     opt (re_seq [times' (One (\<lambda>c. label_char c \<or> c = CHR ''-'')) 0 61, One label_char])]"

definition EMAIL :: re where
  "EMAIL = re_seq
     [times' (One (\<lambda>c. alnum c \<or> c \<in> set (''.!#$%&*+/=?^_{|}~-'' @ [CHR 39, CHR 96]))) 1 64,
      lit ''@'', times' (One (\<lambda>c. alnum c \<or> c = CHR ''.'' \<or> c = CHR ''-'')) 1 253]"

definition valid_address :: "string \<Rightarrow> string option" where
  "valid_address value =
     (let email = lower (strip value) in
      if \<not> fullmatch EMAIL email then None
      else case split_on (CHR ''@'') email of
        [user, domain] \<Rightarrow>
          (let labels = split_on (CHR ''.'') domain in
           if starts_with user ''.'' \<or> ends_with user ''.'' \<or> search (lit ''..'') user
              \<or> length labels < 2 \<or> \<not> list_all (fullmatch DOMAIN_LABEL) labels
           then None else Some email)
      | _ \<Rightarrow> None)"

definition valid_email :: "json \<Rightarrow> string option" where
  "valid_email value = (case value of JStr s \<Rightarrow> valid_address s | _ \<Rightarrow> None)"


section \<open>Comments and segments\<close>

text \<open>The arguments are the depth of comments, inside quotes, and after a backslash.\<close>

fun strip_comments :: "nat \<Rightarrow> bool \<Rightarrow> bool \<Rightarrow> string \<Rightarrow> string option" where
  "strip_comments depth quoted escaped [] = (if depth \<noteq> 0 \<or> quoted \<or> escaped then None else Some [])"
| "strip_comments depth quoted escaped (c # s) =
     (if escaped then
        (if depth = 0 then map_option ((#) c) (strip_comments depth quoted False s)
         else strip_comments depth quoted False s)
      else if c = CHR 92 \<and> (depth > 0 \<or> quoted) then
        (if depth = 0 then map_option ((#) c) (strip_comments depth quoted True s)
         else strip_comments depth quoted True s)
      else if depth > 0 then
        strip_comments (if c = CHR ''('' then depth + 1 else if c = CHR '')'' then depth - 1 else depth)
          quoted False s
      else if quoted then
        map_option ((#) c) (strip_comments depth (c \<noteq> CHR 34) False s)
      else if c = CHR ''('' then strip_comments 1 quoted False s
      else if c = CHR '')'' then None
      else map_option ((#) c) (strip_comments depth (c = CHR 34) False s))"

definition without_comments :: "string \<Rightarrow> string option" where
  "without_comments value = strip_comments 0 False False value"

fun split_segments :: "bool \<Rightarrow> bool \<Rightarrow> string \<Rightarrow> string \<Rightarrow> string list option" where
  "split_segments quoted escaped acc [] = (if quoted \<or> escaped then None else Some [strip acc])"
| "split_segments quoted escaped acc (c # s) =
     (if escaped then split_segments quoted False (acc @ [c]) s
      else if c = CHR 92 \<and> quoted then split_segments quoted True (acc @ [c]) s
      else if c = CHR 34 then split_segments (\<not> quoted) False (acc @ [c]) s
      else if c = CHR '';'' \<and> \<not> quoted
        then map_option ((#) (strip acc)) (split_segments quoted False [] s)
      else split_segments quoted False (acc @ [c]) s)"

definition auth_segments :: "string \<Rightarrow> string list option" where
  "auth_segments value =
     (case without_comments value of None \<Rightarrow> None | Some v \<Rightarrow> split_segments False False [] v)"


section \<open>One result\<close>

definition token_char :: "char \<Rightarrow> bool" where
  "token_char c \<longleftrightarrow> alnum c \<or> c = CHR ''_'' \<or> c = CHR ''-''"

definition alpha :: "char \<Rightarrow> bool" where "alpha c \<longleftrightarrow> lower_alpha c \<or> upper_alpha c"

definition drop_version :: "string \<Rightarrow> string" where
  "drop_version s =
     (if starts_with s ''/'' \<and> takeWhile is_digit (tl s) \<noteq> [] then dropWhile is_digit (tl s) else s)"

text \<open>
  \<open>AUTH_RESULT\<close>: a method, an optional version, a result that ends at a word boundary, and the
  rest of the line.
\<close>

definition auth_result :: "string \<Rightarrow> (string \<times> string \<times> string) option" where
  "auth_result s =
     (let m = takeWhile token_char s;
          after = dropWhile is_space (drop_version (dropWhile token_char s)) in
      if m = [] \<or> \<not> alpha (hd m) \<or> \<not> starts_with after ''='' then None
      else
        let value = dropWhile is_space (tl after);
            run = takeWhile token_char value;
            result = rev (dropWhile (\<lambda>c. c = CHR ''-'') (rev run));
            rest = drop (length result) value in
        if run = [] \<or> \<not> alpha (hd run) \<or> CHR 10 \<in> set rest then None
        else Some (lower m, lower result, rest))"


section \<open>One property\<close>

fun eat_name :: "string \<Rightarrow> string \<Rightarrow> string option" where
  "eat_name [] s = Some s"
| "eat_name (n # name) s =
     (if n = CHR ''.'' then
        (case dropWhile is_space s of
           [] \<Rightarrow> None
         | c # r \<Rightarrow> if c = CHR ''.'' then eat_name name (dropWhile is_space r) else None)
      else case s of
        [] \<Rightarrow> None
      | c # r \<Rightarrow> if lower_char c = lower_char n then eat_name name r else None)"

fun eat_quoted :: "string \<Rightarrow> (string \<times> string) option" where
  "eat_quoted [] = None"
| "eat_quoted (c # s) =
     (if c = CHR 34 then Some ([c], s)
      else if c = CHR 92 then
        (case s of
           [] \<Rightarrow> None
         | d # r \<Rightarrow> if d = CHR 10 then None else map_option (apfst (\<lambda>v. c # d # v)) (eat_quoted r))
      else map_option (apfst ((#) c)) (eat_quoted s))"

definition bare_char :: "char \<Rightarrow> bool" where
  "bare_char c \<longleftrightarrow> \<not> is_space c \<and> c \<noteq> CHR '';''"

definition eat_bare :: "string \<Rightarrow> (string \<times> string) option" where
  "eat_bare s = (if takeWhile bare_char s = [] then None
                 else Some (takeWhile bare_char s, dropWhile bare_char s))"

definition eat_value :: "string \<Rightarrow> (string \<times> string) option" where
  "eat_value s =
     (if starts_with s [CHR 34] then
        (case eat_quoted (tl s) of Some (v, r) \<Rightarrow> Some (CHR 34 # v, r) | None \<Rightarrow> eat_bare s)
      else eat_bare s)"

definition property_at :: "string \<Rightarrow> string \<Rightarrow> (string \<times> string) option" where
  "property_at name s =
     (case eat_name name s of
        None \<Rightarrow> None
      | Some r \<Rightarrow>
          (let e = dropWhile is_space r in
           if starts_with e ''='' then eat_value (dropWhile is_space (tl e)) else None))"

text \<open>A property starts where no letter, digit, dot, dash or underscore precedes it.\<close>

definition fresh_start :: "char option \<Rightarrow> bool" where
  "fresh_start prev = (case prev of None \<Rightarrow> True | Some c \<Rightarrow> \<not> (token_char c \<or> c = CHR ''.''))"

lemma dropWhile_le: "length (dropWhile p s) \<le> length s"
  by (induction s) auto

lemma eat_quoted_shorter: "eat_quoted s = Some (v, r) \<Longrightarrow> length r < length s"
  by (induction s arbitrary: v r rule: eat_quoted.induct)
    (auto split: if_splits list.splits, fastforce+)

lemma eat_name_le: "eat_name name s = Some r \<Longrightarrow> length r \<le> length s"
proof (induction name s rule: eat_name.induct)
  case (2 n name s)
  show ?case
  proof (cases "n = CHR ''.''")
    case True
    with 2 obtain r' where "dropWhile is_space s = CHR ''.'' # r'"
      "length r \<le> length (dropWhile is_space r')" by (auto split: list.splits if_splits)
    with dropWhile_le [of is_space s] dropWhile_le [of is_space r'] show ?thesis by simp
  next
    case False
    with 2 show ?thesis by (fastforce split: list.splits if_splits)
  qed
qed simp

lemma eat_bare_shorter: "eat_bare s = Some (v, r) \<Longrightarrow> length r < length s \<and> v \<noteq> []"
  by (cases s) (auto simp: eat_bare_def le_imp_less_Suc [OF dropWhile_le] split: if_splits)

lemma eat_value_shorter: "eat_value s = Some (v, r) \<Longrightarrow> length r < length s \<and> v \<noteq> []"
  using eat_quoted_shorter [of "tl s"]
  by (cases s) (auto simp: eat_value_def starts_with_def less_Suc_eq dest!: eat_bare_shorter
      split: if_splits option.splits)

lemma property_at_shorter: "property_at name s = Some (v, r) \<Longrightarrow> length r < length s \<and> v \<noteq> []"
proof -
  assume "property_at name s = Some (v, r)"
  then obtain r0 where r0: "eat_name name s = Some r0"
    "eat_value (dropWhile is_space (tl (dropWhile is_space r0))) = Some (v, r)"
    by (auto simp: property_at_def Let_def split: option.splits if_splits)
  from eat_value_shorter [OF r0(2)] eat_name_le [OF r0(1)] show ?thesis
    using dropWhile_le [of is_space "tl (dropWhile is_space r0)"] dropWhile_le [of is_space r0] by auto
qed

function property_values :: "string \<Rightarrow> char option \<Rightarrow> string \<Rightarrow> string list" where
  "property_values name prev [] = []"
| "property_values name prev (c # s) =
     (case (if fresh_start prev then property_at name (c # s) else None) of
        Some (v, r) \<Rightarrow> v # property_values name (Some (last v)) r
      | None \<Rightarrow> property_values name (Some c) s)"
  by pat_completeness auto

termination
  by (relation "measure (\<lambda>(_, _, s). length s)") (auto dest: property_at_shorter split: if_splits)

fun unescape :: "string \<Rightarrow> string" where
  "unescape [] = []"
| "unescape (c # s) =
     (case s of
        [] \<Rightarrow> [c]
      | d # r \<Rightarrow> if c = CHR 92 \<and> d \<noteq> CHR 10 then d # unescape r else c # unescape s)"

definition visible_char :: "char \<Rightarrow> bool" where
  "visible_char c \<longleftrightarrow> \<not> ((of_char c :: nat) < 33 \<or> (of_char c :: nat) = 127)"

definition auth_property :: "string \<Rightarrow> string \<Rightarrow> string option" where
  "auth_property segment name =
     (case property_values name None segment of
        [v] \<Rightarrow>
          (let value = (if starts_with v [CHR 34] then unescape (butlast (tl v)) else v) in
           if value = [] \<or> \<not> list_all visible_char value then None else Some value)
      | _ \<Rightarrow> None)"


section \<open>Domains\<close>

definition auth_domain :: "bool \<Rightarrow> string \<Rightarrow> string option" where
  "auth_domain identity value =
     (let candidate = lower (strip value); parts = split_on (CHR ''@'') candidate in
      if length parts > 2 \<or> length parts = 2 \<and> \<not> identity \<and> hd parts = [] then None
      else
        let domain = last parts; labels = split_on (CHR ''.'') domain in
        if length domain > 253 \<or> length labels < 2 \<or> \<not> list_all (fullmatch DOMAIN_LABEL) labels
        then None else Some domain)"

definition aligned_domain :: "string \<Rightarrow> string \<Rightarrow> bool" where
  "aligned_domain authenticated visible \<longleftrightarrow>
     authenticated = visible \<or> ends_with authenticated (''.'' @ visible)
     \<or> ends_with visible (''.'' @ authenticated)"


section \<open>The verdict\<close>

type_synonym headers = "(string \<times> string) list option"

definition header_values :: "headers \<Rightarrow> string \<Rightarrow> string list" where
  "header_values headers name =
     (case headers of
        None \<Rightarrow> []
      | Some fields \<Rightarrow> map snd (filter (\<lambda>(n, v). lower n = lower name) fields))"

text \<open>Folded lines are joined; a line break that remains would smuggle a second field.\<close>

definition is_blank :: "char \<Rightarrow> bool" where "is_blank c \<longleftrightarrow> c = CHR '' '' \<or> c = CHR 9"

text \<open>What follows a line break at the head of a text, when a folded line does.\<close>

definition folded :: "string \<Rightarrow> string option" where
  "folded s =
     (let r = (if starts_with s [CHR 13, CHR 10] then drop 2 s
               else if starts_with s nl then tl s else []) in
      if r \<noteq> [] \<and> is_blank (hd r) then Some (dropWhile is_blank r) else None)"

lemma folded_shorter: "folded s = Some r \<Longrightarrow> length r < length s"
  using dropWhile_le [of is_blank "drop 2 s"] dropWhile_le [of is_blank "tl s"]
  by (cases s) (auto simp: folded_def Let_def starts_with_def split: if_splits)

function unfold_header :: "string \<Rightarrow> string" where
  "unfold_header [] = []"
| "unfold_header (c # s) =
     (case folded (c # s) of
        Some r \<Rightarrow> CHR '' '' # unfold_header r
      | None \<Rightarrow> c # unfold_header s)"
  by pat_completeness auto

termination
  by (relation "measure length") (auto dest: folded_shorter)

definition authentication_results :: "headers \<Rightarrow> string option" where
  "authentication_results headers =
     (case header_values headers ''Authentication-Results'' of
        [value] \<Rightarrow>
          (if value = [] \<or> CHR 0x00 \<in> set value then None
           else
             let v = unfold_header value in
             if CHR 13 \<in> set v \<or> CHR 10 \<in> set v then None else Some (strip v))
      | _ \<Rightarrow> None)"

definition TRUSTED_SERVICE :: re where
  "TRUSTED_SERVICE = re_seq [lit_ci ''amazonses.com'', opt (re_seq [plus' space, plus' (One is_digit)])]"

fun parsed_results :: "string list \<Rightarrow> (string \<times> string \<times> string) list option" where
  "parsed_results [] = Some []"
| "parsed_results (seg # segs) =
     (if seg = [] then parsed_results segs
      else case auth_result seg of
        None \<Rightarrow> None
      | Some r \<Rightarrow> map_option ((#) r) (parsed_results segs))"

definition verdicts :: "string \<Rightarrow> (string \<times> string \<times> string) list \<Rightarrow> (string \<times> string) list" where
  "verdicts method rs = map snd (filter (\<lambda>r. fst r = method) rs)"

definition domain_of :: "string \<Rightarrow> string" where
  "domain_of sender = last (split_on (CHR ''@'') sender)"

definition property_domain :: "bool \<Rightarrow> string \<Rightarrow> string \<Rightarrow> string option" where
  "property_domain identity details name =
     (case auth_property details name of None \<Rightarrow> None | Some v \<Rightarrow> auth_domain identity v)"

definition aligned_verdicts :: "string \<Rightarrow> (string \<times> string \<times> string) list \<Rightarrow> bool" where
  "aligned_verdicts sender rs =
     (case (verdicts ''dkim'' rs, verdicts ''dmarc'' rs) of
        ([(dkim, dkim_details)], [(dmarc, dmarc_details)]) \<Rightarrow>
          dkim = ''pass'' \<and> dmarc = ''pass''
          \<and> property_domain False dmarc_details ''header.from'' = Some (domain_of sender)
          \<and> (case property_domain True dkim_details ''header.i'' of
               None \<Rightarrow> False
             | Some d \<Rightarrow> aligned_domain d (domain_of sender))
      | _ \<Rightarrow> False)"

definition email_authenticates :: "headers \<Rightarrow> string \<Rightarrow> bool" where
  "email_authenticates headers sender =
     (case authentication_results headers of
        None \<Rightarrow> False
      | Some header \<Rightarrow>
          (case auth_segments header of
             Some (service # segs) \<Rightarrow>
               fullmatch TRUSTED_SERVICE service
               \<and> (case parsed_results segs of None \<Rightarrow> False | Some rs \<Rightarrow> aligned_verdicts sender rs)
           | _ \<Rightarrow> False))"


section \<open>What a verdict rests on\<close>

text \<open>A comment is no evidence: it leaves nothing behind and changes nothing around it.\<close>

lemma strip_comments_inside:
  assumes "list_all (\<lambda>x. x \<noteq> CHR ''('' \<and> x \<noteq> CHR '')'' \<and> x \<noteq> CHR 92) c"
  shows "strip_comments 1 False False (c @ CHR '')'' # b) = strip_comments 0 False False b"
  using assms by (induction c) auto

lemma append_Cons_fun: "(@) (x # xs) = (\<lambda>ys. x # xs @ ys)"
  by auto

lemma strip_comments_append:
  "strip_comments d q e a = Some a' \<Longrightarrow>
     strip_comments d q e (a @ b) = map_option ((@) a') (strip_comments 0 False False b)"
proof (induction d q e a arbitrary: a' rule: strip_comments.induct)
  case (1 d q e)
  then show ?case by (auto simp: option.map_id0 [unfolded id_def] split: if_splits)
next
  case (2 d q e c s)
  then show ?case
    by (auto simp: option.map_comp comp_def append_Cons_fun split: if_splits)
qed

lemma comment_is_no_evidence:
  assumes "without_comments a = Some a'"
    and "list_all (\<lambda>x. x \<noteq> CHR ''('' \<and> x \<noteq> CHR '')'' \<and> x \<noteq> CHR 92) c"
  shows "without_comments (a @ ''('' @ c @ '')'' @ b) = without_comments (a @ b)"
  using assms(1) strip_comments_append [of 0 False False a a'] strip_comments_inside [OF assms(2), of b]
  by (simp add: without_comments_def)

text \<open>One field, written by the trusted service, with one passing verdict of either method.\<close>

lemma pair_list_cases:
  obtains "xs = []" | a b where "xs = [(a, b)]" | a b y ys where "xs = (a, b) # y # ys"
  by (cases xs; cases "tl xs") auto

lemma aligned_verdictsD:
  assumes "aligned_verdicts sender rs"
  obtains dkim_details dmarc_details d where "verdicts ''dkim'' rs = [(''pass'', dkim_details)]"
    "verdicts ''dmarc'' rs = [(''pass'', dmarc_details)]"
    "property_domain False dmarc_details ''header.from'' = Some (domain_of sender)"
    "property_domain True dkim_details ''header.i'' = Some d" "aligned_domain d (domain_of sender)"
proof -
  from assms obtain dkim k dmarc m where
    v: "verdicts ''dkim'' rs = [(dkim, k)]" "verdicts ''dmarc'' rs = [(dmarc, m)]"
    by (cases "verdicts ''dkim'' rs" rule: pair_list_cases;
        cases "verdicts ''dmarc'' rs" rule: pair_list_cases) (auto simp: aligned_verdicts_def)
  with assms obtain d where "dkim = ''pass''" "dmarc = ''pass''"
    "property_domain False m ''header.from'' = Some (domain_of sender)"
    "property_domain True k ''header.i'' = Some d" "aligned_domain d (domain_of sender)"
    by (auto simp: aligned_verdicts_def split: option.split_asm)
  with v that show thesis by blast
qed

lemma email_authenticatesD:
  assumes "email_authenticates headers sender"
  obtains v service segs rs where
    "header_values headers ''Authentication-Results'' = [v]"
    "auth_segments (strip (unfold_header v)) = Some (service # segs)"
    "fullmatch TRUSTED_SERVICE service" "parsed_results segs = Some rs" "aligned_verdicts sender rs"
  using assms unfolding email_authenticates_def authentication_results_def
  by (auto simp: Let_def split: option.splits list.splits if_splits)

lemma property_domain_shape:
  assumes "property_domain identity details name = Some d"
  shows "length d \<le> 253 \<and> 2 \<le> length (split_on (CHR ''.'') d)
    \<and> list_all (fullmatch DOMAIN_LABEL) (split_on (CHR ''.'') d)"
  using assms unfolding property_domain_def auth_domain_def
  by (auto simp: Let_def not_less split: option.splits if_splits)

text \<open>The domain a valid address ends with.\<close>

lemma valid_address_domain:
  assumes "valid_address value = Some a"
  shows "a = lower (strip value) \<and> (\<exists>user. split_on (CHR ''@'') a = [user, domain_of a])
    \<and> 2 \<le> length (split_on (CHR ''.'') (domain_of a))
    \<and> list_all (fullmatch DOMAIN_LABEL) (split_on (CHR ''.'') (domain_of a))"
  using assms unfolding valid_address_def domain_of_def
  by (auto simp: Let_def not_less split: list.splits if_splits)

end
