(* ===== verification/Mail_Text.thy ===== *)
theory Mail_Text
  imports Mail_Auth
begin

text \<open>
  The text of a mail without its signature, footers and quotations (\<open>strip_quoted\<close> of
  \<open>src/ingress.py\<close>), and the addresses and run tags read out of it.
\<close>

section \<open>Lines\<close>

definition line_break :: "char \<Rightarrow> bool" where
  "line_break c \<longleftrightarrow> (of_char c :: nat) \<in> {10, 11, 12, 13, 28, 29, 30}"

fun splitlines_acc :: "string \<Rightarrow> string \<Rightarrow> string list" where
  "splitlines_acc acc [] = (if acc = [] then [] else [acc])"
| "splitlines_acc acc (c # s) =
     (if c = CHR 13 \<and> starts_with s nl then splitlines_acc acc s
      else if line_break c then acc # splitlines_acc [] s
      else splitlines_acc (acc @ [c]) s)"

definition splitlines :: "string \<Rightarrow> string list" where "splitlines s = splitlines_acc [] s"

definition lstrip :: "string \<Rightarrow> string" where "lstrip s = dropWhile is_space s"

definition blank_line :: "string \<Rightarrow> bool" where "blank_line l \<longleftrightarrow> strip l = []"


section \<open>Markers\<close>

definition dashes :: re where "dashes = Repeat (One (\<lambda>c. c = CHR ''-'')) 2 None"

definition spaces :: re where "spaces = star space"

text \<open>\<open>wrote\<close> starts at a word boundary, so what stands before it ends in no word character.\<close>

definition REPLY_WROTE :: re where
  "REPLY_WROTE = re_seq
     [spaces, opt (re_seq [dashes, spaces]), lit_ci ''On '', star dot,
      One (\<lambda>c. \<not> word_char c \<and> c \<noteq> CHR 10), lit_ci ''wrote'',
      Either (lit '':'') (re_seq [spaces, dashes]), spaces]"

definition ORIGINAL_MESSAGE :: re where
  "ORIGINAL_MESSAGE = re_seq [spaces, dashes, spaces, lit_ci ''Original Message'', spaces, dashes, spaces]"

definition FORWARDED_MESSAGE :: re where
  "FORWARDED_MESSAGE = re_seq [spaces, dashes, spaces, lit_ci ''Forwarded message'', spaces, dashes, spaces]"

definition MOBILE_FOOTER :: re where
  "MOBILE_FOOTER = re_seq [lit_ci ''Sent from my '', re_alt [lit_ci ''iPhone'', lit_ci ''iPad'', lit_ci ''Android'']]"

definition url_until :: "char \<Rightarrow> re" where
  "url_until close = re_seq [lit_ci ''http'', opt (lit_ci ''s''), lit ''://'',
     plus' (One (\<lambda>c. c \<noteq> close \<and> \<not> is_space c))]"

definition OUTLOOK_FOOTER :: re where
  "OUTLOOK_FOOTER = re_seq
     [lit_ci ''Get Outlook for '',
      re_alt [lit_ci ''iOS'', lit_ci ''Android'', lit_ci ''Windows'', lit_ci ''Mac''],
      opt (re_seq [spaces, re_alt [re_seq [lit ''<'', url_until CHR ''>'', lit ''>''],
        re_seq [lit ''['', url_until CHR '']'', lit '']''],
        re_seq [lit_ci ''http'', opt (lit_ci ''s''), lit ''://'', plus' (One (\<lambda>c. \<not> is_space c))]]])]"

text \<open>The typographic apostrophe is three bytes.\<close>

definition name_part :: re where
  "name_part = re_seq [One upper_alpha,
     plus' (Either (One (\<lambda>c. alnum c \<or> c \<in> {CHR ''.'', CHR 39, CHR ''-''}))
                   (lit [CHR 0xE2, CHR 0x80, CHR 0x99]))]"

definition SIGNATURE_NAME :: re where
  "SIGNATURE_NAME = re_seq [name_part, times' (re_seq [plus' space, name_part]) 1 3]"

definition SIGNATURE_EMAIL :: re where
  "SIGNATURE_EMAIL = re_seq
     [opt (lit_ci ''mailto:''),
      plus' (One (\<lambda>c. alnum c \<or> c \<in> set (''.!#$%&*+/=?^_{|}~-'' @ [CHR 39, CHR 96]))), lit ''@'',
      plus' (One (\<lambda>c. alnum c \<or> c = CHR ''.'' \<or> c = CHR ''-'')), lit ''.'', Repeat (One alpha) 2 None]"

definition SIGNATURE_PHONE :: re where
  "SIGNATURE_PHONE = re_seq
     [opt (lit ''+''), One is_digit,
      Repeat (One (\<lambda>c. is_digit c \<or> c \<in> set '' .()-'')) 7 None, One is_digit]"

definition SIGNATURE_URL :: re where
  "SIGNATURE_URL = re_seq
     [Either (re_seq [lit_ci ''http'', opt (lit_ci ''s''), lit ''://'']) (lit_ci ''www.''),
      plus' (One (\<lambda>c. \<not> is_space c))]"

definition reply_marker :: "string \<Rightarrow> bool" where
  "reply_marker line \<longleftrightarrow> fullmatch REPLY_WROTE line \<or> fullmatch ORIGINAL_MESSAGE line
     \<or> fullmatch FORWARDED_MESSAGE line"


section \<open>Signatures and footers\<close>

definition quoted_line :: "string \<Rightarrow> bool" where "quoted_line line \<longleftrightarrow> starts_with (lstrip line) ''>''"

fun footer_is_terminal :: "string list \<Rightarrow> bool" where
  "footer_is_terminal [] = True"
| "footer_is_terminal (line # rest) =
     (if blank_line line \<or> quoted_line line then footer_is_terminal rest else reply_marker line)"

definition rich_signature_at :: "string list \<Rightarrow> nat \<Rightarrow> bool" where
  "rich_signature_at lines i \<longleftrightarrow>
     \<not> blank_line (lines ! i) \<and> 2 \<le> length (takeWhile blank_line (rev (take i lines)))
     \<and> (let tail = filter (\<lambda>l. l \<noteq> []) (map strip (drop i lines)) in
        3 \<le> length tail \<and> length tail \<le> 12 \<and> fullmatch SIGNATURE_NAME (hd tail)
        \<and> 2 \<le> length (filter (\<lambda>b. b)
            [list_ex (search SIGNATURE_EMAIL) tail, list_ex (search SIGNATURE_PHONE) tail,
             list_ex (fullmatch SIGNATURE_URL) tail]))"

definition rich_signature_start :: "string list \<Rightarrow> nat option" where
  "rich_signature_start lines = find (rich_signature_at lines) [2..<length lines]"

definition mail_footer :: "string \<Rightarrow> bool" where
  "mail_footer line \<longleftrightarrow> fullmatch MOBILE_FOOTER (strip line) \<or> fullmatch OUTLOOK_FOOTER (strip line)"

text \<open>
  The lines before the rich signature, if any. A footer counts only when a line that is not blank
  has been kept (\<open>some\<close>) and nothing but quotations follows it in the whole text.
\<close>

fun keep_until :: "nat \<Rightarrow> bool \<Rightarrow> string list \<Rightarrow> string list" where
  "keep_until 0 some lines = []"
| "keep_until (Suc n) some [] = []"
| "keep_until (Suc n) some (line # rest) =
     (if line = ''-- '' \<or> line = ''--'' then []
      else if reply_marker line then []
      else if quoted_line line then keep_until n some rest
      else if some \<and> mail_footer line \<and> footer_is_terminal rest then []
      else line # keep_until n (some \<or> \<not> blank_line line) rest)"

definition strip_quoted :: "string \<Rightarrow> string" where
  "strip_quoted t =
     (let source = splitlines t in
      strip (join nl (case rich_signature_start source of
        None \<Rightarrow> keep_until (length source) False source
      | Some n \<Rightarrow> keep_until n False source)))"

lemma keep_until_lines:
  "line \<in> set (keep_until n some lines) \<Longrightarrow>
     line \<in> set lines \<and> \<not> quoted_line line \<and> \<not> reply_marker line \<and> line \<noteq> ''--'' \<and> line \<noteq> ''-- ''"
  by (induction n some lines rule: keep_until.induct) (auto split: if_splits)


section \<open>Addresses and run tags\<close>

definition local_char :: "char \<Rightarrow> bool" where
  "local_char c \<longleftrightarrow> word_char c \<or> c \<in> {CHR ''.'', CHR ''+'', CHR ''-''}"

definition domain_char :: "char \<Rightarrow> bool" where
  "domain_char c \<longleftrightarrow> word_char c \<or> c = CHR ''.'' \<or> c = CHR ''-''"

text \<open>The first match of an address in a text, from the left.\<close>

function find_address :: "string \<Rightarrow> string option" where
  "find_address [] = None"
| "find_address (c # s) =
     (let user = takeWhile local_char (c # s); rest = dropWhile local_char (c # s) in
      if user = [] then find_address s
      else if starts_with rest ''@'' \<and> takeWhile domain_char (tl rest) \<noteq> []
        then Some (user @ ''@'' @ takeWhile domain_char (tl rest))
      else find_address rest)"
  by pat_completeness auto

termination
  by (relation "measure length")
    (auto simp: Let_def le_imp_less_Suc [OF dropWhile_le] split: if_splits)

fun addresses_of :: "json list \<Rightarrow> string list res" where
  "addresses_of [] = Inr []"
| "addresses_of (v # vs) =
     (if \<not> truthy v then addresses_of vs
      else bindE (case v of
               JStr s \<Rightarrow> Inr (JStr s)
             | JObj kvs \<Rightarrow> Inr (py_or (jget ''email'' kvs) (JStr []))
             | _ \<Rightarrow> Inl AttributeError) (\<lambda>s.
           bindE (as_str s) (\<lambda>t.
           bindE (addresses_of vs) (\<lambda>out.
             Inr (case find_address t of None \<Rightarrow> out | Some a \<Rightarrow> lower a # out)))))"

definition addresses :: "json \<Rightarrow> string list res" where
  "addresses v = addresses_of (case v of JArr vs \<Rightarrow> vs | _ \<Rightarrow> [v])"

text \<open>\<open>[rally #r-...]\<close>: the identifier of the first tag.\<close>

definition tag_char :: "char \<Rightarrow> bool" where "tag_char c \<longleftrightarrow> alnum c \<or> c = CHR ''-''"

definition tag_at :: "string \<Rightarrow> string option" where
  "tag_at s =
     (if lower (take 6 s) = ''[rally'' \<and> drop 6 s \<noteq> [] \<and> is_space (hd (drop 6 s)) then
        let r = dropWhile is_space (drop 6 s); rid = takeWhile tag_char (drop 3 r) in
        if starts_with (lower r) ''#r-'' \<and> rid \<noteq> [] then Some (take 2 (tl r) @ rid) else None
      else None)"

fun run_tag :: "string \<Rightarrow> string option" where
  "run_tag [] = None"
| "run_tag (c # s) = (case tag_at (c # s) of Some r \<Rightarrow> Some r | None \<Rightarrow> run_tag s)"

end
