(* ===== verification/Ingress.thy ===== *)
theory Ingress
  imports Commission Mail_Text
begin

text \<open>
  Mail and dashboard envelopes becoming commissions and notes (\<open>src/ingress.py\<close>): the bounded
  download of a raw header block, its strict parsing, the classification of a message, and one
  poll. The HTTP client, the JSON and RFC 5322 parsers and \<open>urlsplit\<close> are fields of an
  environment; a reading of the response is the list of the chunks it returns.
\<close>

section \<open>Identifiers\<close>

definition RUN_ID :: re where
  "RUN_ID = re_seq [lit ''r-'', times' (One (\<lambda>c. label_char c \<or> c = CHR ''-'')) 3 77]"

definition WORKSPACE_ID :: re where
  "WORKSPACE_ID = re_seq [One alnum,
     times' (One (\<lambda>c. alnum c \<or> c \<in> {CHR ''.'', CHR ''_'', CHR '':'', CHR ''-''})) 0 95]"

definition USER_ID :: re where
  "USER_ID = times' (One (\<lambda>c. alnum c \<or> c \<in> {CHR ''.'', CHR ''_'', CHR '':'', CHR ''-''})) 1 255"

definition digits_re :: "nat \<Rightarrow> re" where "digits_re n = times' (One is_digit) n n"

definition TIMESTAMP :: re where
  "TIMESTAMP = re_seq
     [digits_re 4, lit ''-'', digits_re 2, lit ''-'', digits_re 2, lit ''T'', digits_re 2, lit '':'',
      digits_re 2, lit '':'', digits_re 2, opt (re_seq [lit ''.'', plus' (One is_digit)]), lit ''Z'']"

definition SHA256_HEX :: re where
  "SHA256_HEX = times' (One (\<lambda>c. is_digit c \<or> between CHR ''a'' CHR ''f'' c)) 64 64"

definition MESSAGE_ID :: re where
  "MESSAGE_ID = re_seq [lit ''<'',
     times' (One (\<lambda>c. c \<noteq> CHR ''<'' \<and> c \<noteq> CHR ''>'' \<and> \<not> is_space c \<and> 31 < (of_char c :: nat)
        \<and> (of_char c :: nat) \<noteq> 127)) 1 996, lit ''>'']"

definition find_email_id :: "json \<Rightarrow> json" where
  "find_email_id payload =
     (case payload of
        JObj kvs \<Rightarrow>
          (if truthy (jget ''email_id'' kvs) then jget ''email_id'' kvs
           else case jget ''data'' kvs of
             JObj data \<Rightarrow>
               (if truthy (jget ''email_id'' data) then jget ''email_id'' data
                else if truthy (jget ''id'' data) then jget ''id'' data
                else jget ''id'' kvs)
           | _ \<Rightarrow> jget ''id'' kvs)
      | _ \<Rightarrow> JNull)"

definition message_id_of :: "string \<Rightarrow> string option" where
  "message_id_of v = (if fullmatch MESSAGE_ID (strip v) then Some (strip v) else None)"

fun first_message_id :: "(string \<times> json) list \<Rightarrow> string option" where
  "first_message_id [] = None"
| "first_message_id ((k, v) # hs) =
     (case (if lower k = ''message-id'' then v else JNull) of
        JStr s \<Rightarrow> (case message_id_of s of Some m \<Rightarrow> Some m | None \<Rightarrow> first_message_id hs)
      | _ \<Rightarrow> first_message_id hs)"

definition find_message_id :: "json \<Rightarrow> string option" where
  "find_message_id msg =
     (case msg of
        JObj kvs \<Rightarrow>
          (case (case jget ''message_id'' kvs of JStr s \<Rightarrow> message_id_of s | _ \<Rightarrow> None) of
             Some m \<Rightarrow> Some m
           | None \<Rightarrow> (case jget ''headers'' kvs of JObj hs \<Rightarrow> first_message_id hs | _ \<Rightarrow> None))
      | _ \<Rightarrow> None)"

definition original_message_id :: "json \<Rightarrow> headers \<Rightarrow> string option" where
  "original_message_id msg raw =
     (case (case header_values raw ''Message-ID'' of [v] \<Rightarrow> message_id_of v | _ \<Rightarrow> None) of
        Some m \<Rightarrow> Some m
      | None \<Rightarrow> find_message_id msg)"


section \<open>The raw header block\<close>

text \<open>A failure says whether another poll may fix it.\<close>

datatype raw_error = Raw_Error string bool

definition MAX_HEADER :: nat where "MAX_HEADER = 64 * 1024"

lemma MAX_HEADER_code [code_unfold]: "(n \<le> MAX_HEADER) = (int n \<le> 65536)" "(MAX_HEADER < n) = (65536 < int n)"
  by (auto simp: MAX_HEADER_def)

fun find_sub :: "string \<Rightarrow> string \<Rightarrow> nat option" where
  "find_sub pat [] = (if pat = [] then Some 0 else None)"
| "find_sub pat (c # s) =
     (if starts_with (c # s) pat then Some 0 else map_option Suc (find_sub pat s))"

definition header_end :: "string \<Rightarrow> nat option" where
  "header_end data =
     (case (find_sub [CHR 13, CHR 10, CHR 13, CHR 10] data, find_sub [CHR 10, CHR 10] data) of
        (None, e) \<Rightarrow> e
      | (Some i, None) \<Rightarrow> Some i
      | (Some i, Some j) \<Rightarrow> Some (min i j))"

definition header_missing :: raw_error where
  "header_missing = Raw_Error (''raw email header block is missing or exceeds '' @ show_nat MAX_HEADER @ '' bytes'') False"

fun raw_header_block :: "string \<Rightarrow> string option list \<Rightarrow> raw_error + string" where
  "raw_header_block data chunks =
     (if length data > MAX_HEADER + 4 then Inl header_missing
      else case chunks of
        [] \<Rightarrow> Inl header_missing
      | None # cs \<Rightarrow> Inl (Raw_Error ''Resend raw email returned non-byte content'' False)
      | Some [] # cs \<Rightarrow> Inl header_missing
      | Some c # cs \<Rightarrow>
          (case header_end (data @ c) of
             None \<Rightarrow> raw_header_block (data @ c) cs
           | Some e \<Rightarrow> (if e > MAX_HEADER then Inl header_missing else Inr (take e (data @ c)))))"

declare raw_header_block.simps [simp del]

text \<open>What the RFC 5322 parser reports.\<close>

record parsed_mail =
  pm_fields :: "(string \<times> string) list"
  pm_defective_field :: bool
  pm_defects :: "string list"
  pm_multipart :: bool
  pm_boundary :: bool

fun normalize_crlf :: "string \<Rightarrow> string" where
  "normalize_crlf [] = []"
| "normalize_crlf (c # s) =
     (if c = CHR 13 \<and> starts_with s nl then normalize_crlf s else c # normalize_crlf s)"

definition bad_byte :: "char \<Rightarrow> bool" where
  "bad_byte c \<longleftrightarrow> (of_char c :: nat) < 32 \<and> (of_char c :: nat) \<noteq> 9 \<or> (of_char c :: nat) = 127"

text \<open>The first complaint about the lines, with the number of fields so far.\<close>

fun check_lines :: "nat \<Rightarrow> string list \<Rightarrow> string option" where
  "check_lines n [] = None"
| "check_lines n (line # lines) =
     (if length line > 998 then Some ''raw email header line exceeds 998 bytes''
      else if list_ex bad_byte line then Some ''raw email headers contain control characters''
      else if line \<noteq> [] \<and> is_blank (hd line) then
        (if n = 0 then Some ''raw email begins with an orphan folded header''
         else check_lines n lines)
      else
        let name = takeWhile (\<lambda>c. c \<noteq> CHR '':'') line in
        if name = line \<or> name = [] \<or> \<not> list_all (\<lambda>c. alnum c \<or> c = CHR ''-'') name
        then Some ''raw email contains a malformed header field''
        else if n + 1 > 256 then Some ''raw email headers exceed the 256-field limit''
        else check_lines (n + 1) lines)"

definition parse_raw_headers ::
    "(string \<Rightarrow> string + parsed_mail) \<Rightarrow> string \<Rightarrow> raw_error + headers" where
  "parse_raw_headers parser block =
     (if length block > MAX_HEADER
      then Inl (Raw_Error ''raw email header block exceeds the allowed size'' False)
      else
        let normalized = normalize_crlf block in
        if CHR 13 \<in> set normalized \<or> CHR 0x00 \<in> set normalized
        then Inl (Raw_Error ''raw email headers contain invalid line endings or NUL'' False)
        else
          let lines = (if normalized = [] then [] else split_on (CHR 10) normalized) in
          if length lines > 512
          then Inl (Raw_Error ''raw email headers exceed the 512-line limit'' False)
          else case check_lines 0 lines of
            Some why \<Rightarrow> Inl (Raw_Error why False)
          | None \<Rightarrow>
              (case parser (normalized @ nl @ nl) of
                 Inl exc \<Rightarrow> Inl (Raw_Error (''raw email headers could not be parsed: '' @ exc) False)
               | Inr p \<Rightarrow>
                   (if pm_defective_field p
                    then Inl (Raw_Error ''raw email contains a defective header field'' False)
                    else if pm_defects p \<noteq> []
                       \<and> \<not> (pm_defects p = [''MultipartInvariantViolationDefect'']
                            \<and> pm_multipart p \<and> pm_boundary p)
                    then Inl (Raw_Error ''raw email headers contain parser defects'' False)
                    else Inr (Some (pm_fields p)))))"


section \<open>The download\<close>

record url_parts =
  up_scheme :: string
  up_host :: "string option"
  up_port :: "int option"
  up_username :: "string option"
  up_password :: "string option"
  up_path :: string
  up_fragment :: string

datatype raw_reply = Raw_Response "int option" "string option list" | Raw_Http int | Raw_Down string

definition provider_host :: "string \<Rightarrow> bool" where
  "provider_host host \<longleftrightarrow> host = ''resend.com'' \<or> host = ''resend.app''
     \<or> list_ex (ends_with host) [''.resend.com'', ''.resend.app'']"

definition validated_raw_url :: "(string \<Rightarrow> url_parts option) \<Rightarrow> json \<Rightarrow> raw_error + string" where
  "validated_raw_url split msg =
     (case (case msg of JObj kvs \<Rightarrow> jget ''raw'' kvs | _ \<Rightarrow> JNull) of
        JObj raw \<Rightarrow>
          (case jget ''download_url'' raw of
             JStr url \<Rightarrow>
               (if url = [] then Inl (Raw_Error ''Resend raw email is not available yet'' True)
                else if \<not> list_all visible_char url
                then Inl (Raw_Error ''Resend raw download URL contains unsafe characters'' False)
                else case split url of
                  None \<Rightarrow> Inl (Raw_Error ''Resend raw download URL is malformed'' False)
                | Some p \<Rightarrow>
                    (let host = (case up_host p of None \<Rightarrow> [] | Some h \<Rightarrow> lower h) in
                     if lower (up_scheme p) \<noteq> ''https'' \<or> host = [] \<or> \<not> provider_host host
                        \<or> up_username p \<noteq> None \<or> up_password p \<noteq> None
                        \<or> up_port p \<notin> {None, Some 443} \<or> up_fragment p \<noteq> [] \<or> up_path p = []
                     then Inl (Raw_Error ''Resend raw download URL failed safety validation'' False)
                     else Inr url))
           | _ \<Rightarrow> Inl (Raw_Error ''Resend raw email is not available yet'' True))
      | _ \<Rightarrow> Inl (Raw_Error ''Resend raw email is not available yet'' True))"

definition retry_status :: "int \<Rightarrow> bool" where
  "retry_status n \<longleftrightarrow> n \<in> {401, 403, 404, 408, 409, 425, 429} \<or> 500 \<le> n \<and> n < 600"

definition http_error :: "int \<Rightarrow> raw_error" where
  "http_error n = Raw_Error (''Resend raw email download returned HTTP '' @ show_int n) (retry_status n)"

text \<open>
  How a fetch ends: a message, the status of an error, no answer, or an exception the poll lets
  through.
\<close>

datatype fetch_reply = Fetched json | Fetch_Http int | Fetch_Down string | Fetch_Raised exn

record ingress_env =
  in_pending :: "(string \<times> json) list res"
  in_key :: "string res"
  in_fetch :: "json \<Rightarrow> fetch_reply"
  in_open :: "string \<Rightarrow> raw_reply"
  in_split :: "string \<Rightarrow> url_parts option"
  in_parser :: "string \<Rightarrow> string + parsed_mail"
  in_getaddresses :: "string list \<Rightarrow> (string \<times> string) list option"

definition download_raw_headers :: "ingress_env \<Rightarrow> json \<Rightarrow> raw_error + headers" where
  "download_raw_headers env msg =
     bindE (validated_raw_url (in_split env) msg) (\<lambda>url.
       case in_open env url of
         Raw_Http n \<Rightarrow> Inl (http_error n)
       | Raw_Down exc \<Rightarrow> Inl (Raw_Error (''Resend raw email download failed: '' @ exc) True)
       | Raw_Response status chunks \<Rightarrow>
           (case status of
              Some n \<Rightarrow>
                (if n \<notin> {200, 206} then Inl (http_error n)
                 else bindE (raw_header_block [] chunks) (parse_raw_headers (in_parser env)))
            | None \<Rightarrow> bindE (raw_header_block [] chunks) (parse_raw_headers (in_parser env))))"



section \<open>Classification\<close>

fun field_values :: "json list \<Rightarrow> string list option" where
  "field_values [] = Some []"
| "field_values (v # vs) =
     (case v of
        JStr s \<Rightarrow> map_option ((#) s) (field_values vs)
      | JObj kvs \<Rightarrow>
          (case jget ''email'' kvs of JStr s \<Rightarrow> map_option ((#) s) (field_values vs) | _ \<Rightarrow> None)
      | JNull \<Rightarrow> field_values vs
      | _ \<Rightarrow> None)"

definition visible_sender :: "ingress_env \<Rightarrow> json \<Rightarrow> string option" where
  "visible_sender env v =
     (case field_values (case v of JArr vs \<Rightarrow> vs | _ \<Rightarrow> [v]) of
        None \<Rightarrow> None
      | Some values \<Rightarrow>
          (case in_getaddresses env values of
             Some [(name, a)] \<Rightarrow> valid_address a
           | _ \<Rightarrow> None))"

record ingress_cfg =
  ic_owners :: "string list"
  ic_address :: string
  ic_worker_url :: string

definition text_field :: "string \<Rightarrow> (string \<times> json) list \<Rightarrow> string" where
  "text_field k kvs = (case jget k kvs of JStr s \<Rightarrow> s | _ \<Rightarrow> [])"

definition mail_task :: "string \<Rightarrow> string \<Rightarrow> string" where
  "mail_task title body =
     (if title \<noteq> [] \<and> body \<noteq> [] \<and> lower title \<noteq> lower body then title @ nl @ nl @ body
      else if title \<noteq> [] then title else body)"

definition mail_commission :: "string \<Rightarrow> string \<Rightarrow> string option \<Rightarrow> commission" where
  "mail_commission req sender mid =
     \<lparr>co_task = req, co_sender = sender, co_message_id = (case mid of None \<Rightarrow> [] | Some m \<Rightarrow> m),
      co_request_key = [], co_run_id = [], co_source_run_id = [], co_second_wind = None,
      co_workspace_id = None\<rparr>"

definition MAX_MAIL :: nat where "MAX_MAIL = 6000"

definition addressed_body ::
    "headers \<Rightarrow> string \<Rightarrow> string option \<Rightarrow> string \<Rightarrow> string option \<Rightarrow> string \<Rightarrow> message_body" where
  "addressed_body raw sender tagged body mid title =
     (if \<not> email_authenticates raw sender
      then M_Other (''email authentication failed: require one amazonses.com ''
             @ ''Authentication-Results header with aligned DKIM and DMARC passes'')
      else if length body > MAX_MAIL
      then M_Other (''normalized email body is '' @ show_nat (length body)
             @ '' characters; maximum is 6000; shorten it and resend'')
      else case tagged of
        Some rid \<Rightarrow>
          M_Note \<lparr>n_run_id = rid, n_text = body,
                  n_message_id = (case mid of None \<Rightarrow> [] | Some m \<Rightarrow> m), n_sender = sender,
                  n_request_key = []\<rparr>
      | None \<Rightarrow>
          (let req = mail_task title body in
           if req = [] then M_Other ''empty commission subject and body''
           else if length req > MAX_MAIL
           then M_Other (''normalized email subject and body are '' @ show_nat (length req)
                  @ '' characters; maximum is 6000; shorten them and resend'')
           else M_Commission (mail_commission req sender mid)))"

definition raw_sender :: "ingress_env \<Rightarrow> headers \<Rightarrow> string option" where
  "raw_sender env raw =
     (case header_values raw ''From'' of [v] \<Rightarrow> visible_sender env (JStr v) | _ \<Rightarrow> None)"

definition mail_verdict ::
    "ingress_env \<Rightarrow> ingress_cfg \<Rightarrow> (string \<times> json) list \<Rightarrow> headers \<Rightarrow> string list \<Rightarrow> message_body" where
  "mail_verdict env cfg msg raw recipients =
     (let subject = text_field ''subject'' msg; body = strip_quoted (text_field ''text'' msg);
          sender = raw_sender env raw in
      if sender = None \<or> visible_sender env (jget ''from'' msg) \<noteq> sender
      then M_Other ''original email From must contain exactly one address matching Resend''
      else if the sender \<notin> set (map lower (ic_owners cfg))
      then M_Other (''sender '' @ the sender @ '' is not an owner'')
      else if run_tag subject \<noteq> None \<or> lower (ic_address cfg) \<in> set recipients
      then addressed_body raw (the sender) (run_tag subject) body
             (original_message_id (JObj msg) raw) (join '' '' (split_ws subject))
      else M_Other ''not addressed to the commission address'')"

definition classify_mail ::
    "ingress_env \<Rightarrow> ingress_cfg \<Rightarrow> (string \<times> json) list \<Rightarrow> headers \<Rightarrow> message_body res" where
  "classify_mail env cfg msg raw =
     bindE (addresses (jget ''to'' msg)) (\<lambda>to.
     bindE (addresses (jget ''cc'' msg)) (\<lambda>cc. Inr (mail_verdict env cfg msg raw (to @ cc))))"


section \<open>The dashboard envelope\<close>

text \<open>The keys of an object are distinct, as the JSON parser leaves them.\<close>

definition keys_are :: "string list \<Rightarrow> (string \<times> json) list \<Rightarrow> bool" where
  "keys_are ks kvs \<longleftrightarrow> set (map fst kvs) = set ks"

definition text_ok :: "bool \<Rightarrow> nat \<Rightarrow> string \<Rightarrow> bool" where
  "text_ok multiline limit s \<longleftrightarrow> s \<noteq> [] \<and> s = strip s \<and> length s \<le> limit
     \<and> list_all (\<lambda>c. (31 < (of_char c :: nat) \<or> multiline \<and> (c = CHR 10 \<or> c = CHR 9))
                     \<and> (of_char c :: nat) \<noteq> 127) s"

text \<open>A field that is absent or null, or a text that matches.\<close>

definition optional_run :: "json \<Rightarrow> bool" where
  "optional_run v \<longleftrightarrow> (case v of JNull \<Rightarrow> True | JStr s \<Rightarrow> fullmatch RUN_ID s | _ \<Rightarrow> False)"

definition optional_bool :: "json \<Rightarrow> bool" where
  "optional_bool v \<longleftrightarrow> (case v of JNull \<Rightarrow> True | JBool b \<Rightarrow> True | _ \<Rightarrow> False)"

definition dashboard_task :: "string \<Rightarrow> string \<Rightarrow> json \<Rightarrow> string" where
  "dashboard_task title goal source =
     title @ nl @ nl @ ''Goal:'' @ nl @ goal
       @ (case source of JStr r \<Rightarrow> nl @ nl @ ''Continue from Rally run '' @ r @ ''.'' | _ \<Rightarrow> [])"

definition dashboard_commission ::
    "string \<Rightarrow> string \<Rightarrow> string \<Rightarrow> json \<Rightarrow> json \<Rightarrow> string \<Rightarrow> string \<Rightarrow> commission" where
  "dashboard_commission rid title goal source wind sender ws =
     \<lparr>co_task = dashboard_task title goal source, co_sender = sender, co_message_id = [],
      co_request_key = rid, co_run_id = rid,
      co_source_run_id = (case source of JStr r \<Rightarrow> r | _ \<Rightarrow> []),
      co_second_wind = (case wind of JBool b \<Rightarrow> Some b | _ \<Rightarrow> None), co_workspace_id = Some ws\<rparr>"

definition dashboard_fields ::
    "(string \<times> json) list \<Rightarrow> (json \<times> json \<times> json \<times> json \<times> json) option" where
  "dashboard_fields p =
     (if keys_are [''source'', ''schema_version'', ''run_id'', ''accepted_at'', ''request_fingerprint'',
                   ''job'', ''authority''] p
         \<and> jget ''source'' p = JStr ''dashboard'' \<and> jget ''schema_version'' p = JInt 1
      then Some (jget ''run_id'' p, jget ''accepted_at'' p, jget ''request_fingerprint'' p,
                 jget ''job'' p, jget ''authority'' p)
      else None)"

definition job_fields :: "(string \<times> json) list \<Rightarrow> (string \<times> string \<times> json \<times> json) option" where
  "job_fields job =
     (if \<not> keys_are [''title'', ''goal'', ''source_run_id'', ''second_wind''] job then None
      else case (jget ''title'' job, jget ''goal'' job) of
        (JStr title, JStr goal) \<Rightarrow>
          (if text_ok False 160 title \<and> text_ok True 6000 goal
              \<and> optional_run (jget ''source_run_id'' job) \<and> optional_bool (jget ''second_wind'' job)
           then Some (title, goal, jget ''source_run_id'' job, jget ''second_wind'' job) else None)
      | _ \<Rightarrow> None)"

definition authority_fields :: "(string \<times> json) list \<Rightarrow> (string \<times> string) option" where
  "authority_fields a =
     (if \<not> keys_are [''user_id'', ''email'', ''workspace_id''] a then None
      else case (jget ''user_id'' a, jget ''workspace_id'' a, valid_email (jget ''email'' a)) of
        (JStr user, JStr ws, Some sender) \<Rightarrow>
          (if fullmatch USER_ID user \<and> fullmatch WORKSPACE_ID ws then Some (sender, ws) else None)
      | _ \<Rightarrow> None)"

definition invalid_dashboard :: message_body where
  "invalid_dashboard = M_Other ''invalid dashboard commission envelope''"

definition classify_dashboard :: "json \<Rightarrow> message_body" where
  "classify_dashboard payload =
     (case payload of
        JObj p \<Rightarrow>
          (case dashboard_fields p of
             Some (JStr rid, JStr stamp, JStr fingerprint, JObj job, JObj authority) \<Rightarrow>
               (if \<not> fullmatch RUN_ID rid \<or> \<not> fullmatch TIMESTAMP stamp
                   \<or> \<not> fullmatch SHA256_HEX fingerprint then invalid_dashboard
                else case (job_fields job, authority_fields authority) of
                  (Some (title, goal, source, wind), Some (sender, ws)) \<Rightarrow>
                    M_Commission (dashboard_commission rid title goal source wind sender ws)
                | _ \<Rightarrow> invalid_dashboard)
           | _ \<Rightarrow> invalid_dashboard)
      | _ \<Rightarrow> invalid_dashboard)"


section \<open>One poll\<close>

definition other :: "string \<Rightarrow> bool \<Rightarrow> string \<Rightarrow> message" where
  "other i retry why = \<lparr>m_id = i, m_retryable = retry, m_body = M_Other why\<rparr>"

definition fetch_retry :: "int \<Rightarrow> bool" where
  "fetch_retry n \<longleftrightarrow> n \<in> {404, 408, 409, 425, 429} \<or> 500 \<le> n \<and> n < 600"

definition fetched ::
    "ingress_env \<Rightarrow> ingress_cfg \<Rightarrow> string \<Rightarrow> json \<Rightarrow> message res" where
  "fetched env cfg i msg =
     (case download_raw_headers env msg of
        Inl (Raw_Error why retry) \<Rightarrow>
          Inr (other i retry (if retry then why else ''raw email rejected: '' @ why))
      | Inr raw \<Rightarrow>
          (case msg of
             JObj kvs \<Rightarrow>
               bindE (classify_mail env cfg kvs raw) (\<lambda>b.
                 Inr \<lparr>m_id = i, m_retryable = False, m_body = b\<rparr>)
           | _ \<Rightarrow> Inl AttributeError))"

definition collect_mail :: "ingress_env \<Rightarrow> ingress_cfg \<Rightarrow> string \<Rightarrow> json \<Rightarrow> message res" where
  "collect_mail env cfg i payload =
     (let eid = find_email_id payload in
      if \<not> truthy eid then Inr (other i False ''no email_id in payload'')
      else bindE (in_key env) (\<lambda>key.
        case in_fetch env eid of
          Fetched msg \<Rightarrow> fetched env cfg i msg
        | Fetch_Http n \<Rightarrow> Inr (other i (fetch_retry n) (''resend '' @ show_int n))
        | Fetch_Down exc \<Rightarrow> Inr (other i True (''resend hydration failed: '' @ exc))
        | Fetch_Raised e \<Rightarrow> Inl e))"

definition collect_one :: "ingress_env \<Rightarrow> ingress_cfg \<Rightarrow> string \<times> json \<Rightarrow> message res" where
  "collect_one env cfg rec =
     (let (i, raw) = rec; payload = py_or raw (JObj []) in
      case payload of
        JObj p \<Rightarrow>
          (if ''type'' \<in> fst ` set p then
             (if jget ''type'' p \<noteq> JStr ''email.received''
              then Inr (other i False (''unsupported Resend event ''
                     @ take 80 (py_str (py_or (jget ''type'' p) (JStr ''unknown'')))))
              else collect_mail env cfg i payload)
           else if jget ''source'' p = JStr ''dashboard''
           then Inr \<lparr>m_id = i, m_retryable = False, m_body = classify_dashboard payload\<rparr>
           else Inr (other i False ''unsupported ingress envelope''))
      | _ \<Rightarrow> Inr (other i False ''unsupported ingress envelope''))"

definition collect :: "ingress_env \<Rightarrow> ingress_cfg \<Rightarrow> message list res" where
  "collect env cfg =
     (if strip_slash (ic_worker_url cfg) = [] then Inl (RuntimeError ''ingress.worker_url is not configured'')
      else bindE (in_pending env) (\<lambda>pending. mapE (collect_one env cfg) pending))"

end
