(* ===== verification/Ingress_Correct.thy ===== *)
theory Ingress_Correct
  imports Commission_Correct Ingress
begin

text \<open>
  What a poll lets in: the reading of a header block does not depend on how the network cut it,
  every pending record gives exactly one message, a mail becomes a commission or a note only on
  the evidence of its raw headers, and the runs of a site stay commissioned by authorised people.
\<close>

section \<open>The header block\<close>

text \<open>The specification: what precedes the first blank line of the whole stream.\<close>

fun blank_at :: "string \<Rightarrow> nat option" where
  "blank_at s =
     (if starts_with s [CHR 13, CHR 10, CHR 13, CHR 10] \<or> starts_with s [CHR 10, CHR 10] then Some 0
      else case s of [] \<Rightarrow> None | c # r \<Rightarrow> map_option Suc (blank_at r))"

declare blank_at.simps [simp del]

definition header_spec :: "string \<Rightarrow> string option" where
  "header_spec s = (case blank_at s of
     None \<Rightarrow> None | Some e \<Rightarrow> (if e > MAX_HEADER then None else Some (take e s)))"

lemma header_end_blank_at: "header_end s = blank_at s"
proof (induction s)
  case Nil
  show ?case by (subst blank_at.simps) (simp add: header_end_def)
next
  case (Cons c s)
  show ?case
    by (subst blank_at.simps) (auto simp: Cons [symmetric] header_end_def split: option.splits)
qed

text \<open>More data does not move a blank line that was found.\<close>

lemma starts_with_more: "starts_with s p \<Longrightarrow> starts_with (s @ t) p"
  by (auto simp: starts_with_def dest: arg_cong [where f = length])

lemma blank_at_short: "blank_at [] = None" "blank_at [c] = None" "blank_at [CHR 10, CHR 13] = None"
  by (simp_all add: blank_at.simps starts_with_def)

lemma blank_at_append: "blank_at s = Some e \<Longrightarrow> blank_at (s @ t) = Some e"
proof (induction s arbitrary: e)
  case Nil
  then show ?case by (simp add: blank_at.simps starts_with_def)
next
  case (Cons c s)
  show ?case
  proof (cases "starts_with (c # s) [CHR 13, CHR 10, CHR 13, CHR 10] \<or> starts_with (c # s) [CHR 10, CHR 10]")
    case True
    with Cons.prems starts_with_more show ?thesis by (subst blank_at.simps) (auto simp: blank_at.simps)
  next
    case False
    with Cons.prems obtain d where d: "blank_at s = Some d" "e = Suc d"
      by (auto simp: blank_at.simps [of "c # s"])
    then have long: "s \<noteq> []" "s \<noteq> [x]" "s \<noteq> [CHR 10, CHR 13]" for x by (auto simp: blank_at_short)
    then obtain x y r where s: "s = x # y # r" by (metis list.exhaust)
    have "\<not> starts_with (c # s @ t) [CHR 10, CHR 10]" using False s by (simp add: starts_with_def)
    moreover have "\<not> starts_with (c # s @ t) [CHR 13, CHR 10, CHR 13, CHR 10]"
      using False s long(3) by (cases r) (auto simp: starts_with_def)
    ultimately show ?thesis using Cons.IH [OF d(1)] d(2) by (subst blank_at.simps) simp
  qed
qed


lemma blank_at_bound: "blank_at s = Some e \<Longrightarrow> e \<le> length s"
proof (induction s arbitrary: e)
  case Nil
  then show ?case by (simp add: blank_at_short)
next
  case (Cons c s)
  then show ?case by (force simp: blank_at.simps [of "c # s"] split: if_splits)
qed

lemma blank_at_late: "blank_at (s @ t) = Some e \<Longrightarrow> blank_at s = None \<Longrightarrow> length s \<le> e + 3"
proof (induction s arbitrary: e)
  case (Cons c s)
  show ?case
  proof (cases "starts_with (c # s @ t) [CHR 13, CHR 10, CHR 13, CHR 10] \<or> starts_with (c # s @ t) [CHR 10, CHR 10]")
    case True
    with Cons.prems have "length s \<le> 2"
      by (cases s; cases "tl s"; cases "tl (tl s)") (auto simp: starts_with_def blank_at.simps)
    then show ?thesis by simp
  next
    case False
    with Cons.prems obtain d where "blank_at (s @ t) = Some d" "e = Suc d" "blank_at s = None"
      by (auto simp: blank_at.simps [of "c # s"] blank_at.simps [of "c # s @ t"] split: if_splits)
    with Cons.IH show ?thesis by force
  qed
qed simp

lemma raw_header_block_spec:
  assumes "list_all (\<lambda>c. c \<noteq> []) chunks" and "blank_at data = None"
  shows "raw_header_block data (map Some chunks) =
    (case header_spec (data @ concat chunks) of None \<Rightarrow> Inl header_missing | Some h \<Rightarrow> Inr h)"
  using assms
proof (induction chunks arbitrary: data)
  case Nil
  then show ?case by (subst raw_header_block.simps) (simp add: header_spec_def)
next
  case (Cons c cs)
  show ?case
  proof (cases "length data > MAX_HEADER + 4")
    case True
    with blank_at_late [of data "concat (c # cs)"] Cons.prems(2)
    show ?thesis by (subst raw_header_block.simps) (auto simp: header_spec_def split: option.split)
  next
    case False
    from Cons.prems(1) obtain x xs where c: "c = x # xs" by (cases c) auto
    show ?thesis
    proof (cases "blank_at (data @ c)")
      case None
      with Cons.IH [of "data @ c"] Cons.prems(1) False c show ?thesis
        by (subst raw_header_block.simps) (simp add: header_end_blank_at)
    next
      case (Some e)
      from blank_at_append [OF this, of "concat cs"] have "blank_at (data @ concat (c # cs)) = Some e" by simp
      moreover have "take e (data @ concat (c # cs)) = take e (data @ c)"
        using blank_at_bound [OF Some] by simp
      ultimately show ?thesis using Some False c
        by (subst raw_header_block.simps) (simp add: header_end_blank_at header_spec_def del: take_append)
    qed
  qed
qed



section \<open>What makes a message a commission or a note\<close>

definition authorised_mail ::
    "ingress_env \<Rightarrow> ingress_cfg \<Rightarrow> (string \<times> json) list \<Rightarrow> headers \<Rightarrow> string \<Rightarrow> bool" where
  "authorised_mail env cfg msg raw sender \<longleftrightarrow>
     raw_sender env raw = Some sender \<and> visible_sender env (jget ''from'' msg) = Some sender
     \<and> sender \<in> set (map lower (ic_owners cfg)) \<and> email_authenticates raw sender"

lemma addressed_body_cases:
  "addressed_body raw sender tagged body mid title = M_Commission c \<Longrightarrow>
     email_authenticates raw sender \<and> co_sender c = sender \<and> co_task c \<noteq> []
     \<and> length (co_task c) \<le> MAX_MAIL \<and> tagged = None"
  "addressed_body raw sender tagged body mid title = M_Note n \<Longrightarrow>
     email_authenticates raw sender \<and> n_sender n = sender \<and> tagged = Some (n_run_id n)
     \<and> length (n_text n) \<le> MAX_MAIL"
  by (auto simp: addressed_body_def mail_commission_def Let_def split: if_splits option.splits)

lemma mail_verdict_authorised:
  "mail_verdict env cfg msg raw recipients = M_Commission c \<Longrightarrow>
     authorised_mail env cfg msg raw (co_sender c) \<and> co_task c \<noteq> [] \<and> length (co_task c) \<le> MAX_MAIL"
  "mail_verdict env cfg msg raw recipients = M_Note n \<Longrightarrow>
     authorised_mail env cfg msg raw (n_sender n) \<and> length (n_text n) \<le> MAX_MAIL"
  by (auto simp: mail_verdict_def authorised_mail_def Let_def dest!: addressed_body_cases split: if_splits)

lemma classify_mail_authorised:
  "classify_mail env cfg msg raw = Inr (M_Commission c) \<Longrightarrow>
     authorised_mail env cfg msg raw (co_sender c) \<and> co_task c \<noteq> [] \<and> length (co_task c) \<le> MAX_MAIL"
  "classify_mail env cfg msg raw = Inr (M_Note n) \<Longrightarrow>
     authorised_mail env cfg msg raw (n_sender n) \<and> length (n_text n) \<le> MAX_MAIL"
  by (auto simp: classify_mail_def returns dest!: mail_verdict_authorised)


section \<open>What makes a dashboard envelope a commission\<close>

definition envelope_sender :: "json \<Rightarrow> string option" where
  "envelope_sender payload =
     (case payload of
        JObj p \<Rightarrow> (case jget ''authority'' p of JObj a \<Rightarrow> valid_email (jget ''email'' a) | _ \<Rightarrow> None)
      | _ \<Rightarrow> None)"

lemma job_fieldsD:
  assumes "job_fields job = Some (title, goal, source, wind)"
  shows "text_ok False 160 title \<and> text_ok True 6000 goal \<and> optional_run source \<and> optional_bool wind"
  using assms unfolding job_fields_def by (auto split: if_splits json.splits)

lemma authority_fieldsD:
  assumes "authority_fields a = Some (sender, ws)"
  shows "valid_email (jget ''email'' a) = Some sender \<and> fullmatch WORKSPACE_ID ws"
  using assms unfolding authority_fields_def by (auto split: if_splits json.splits option.splits)

lemma dashboard_cases:
  assumes "classify_dashboard payload = M_Commission c"
  obtains p rid job authority title goal source wind sender ws where "payload = JObj p"
    "jget ''authority'' p = JObj authority" "fullmatch RUN_ID rid"
    "job_fields job = Some (title, goal, source, wind)" "authority_fields authority = Some (sender, ws)"
    "c = dashboard_commission rid title goal source wind sender ws"
proof -
  from assms obtain p where p: "payload = JObj p"
    by (cases payload) (auto simp: classify_dashboard_def invalid_dashboard_def)
  with assms obtain rid stamp fp job authority where
    f: "dashboard_fields p = Some (JStr rid, JStr stamp, JStr fp, JObj job, JObj authority)"
    by (auto simp: classify_dashboard_def invalid_dashboard_def split: option.splits prod.splits json.splits)
  then have "jget ''authority'' p = JObj authority" by (simp add: dashboard_fields_def split: if_splits)
  with assms p f that show thesis
    by (auto simp: classify_dashboard_def invalid_dashboard_def split: if_splits option.splits prod.splits)
qed

lemma dashboard_sender:
  "classify_dashboard payload = M_Commission c \<Longrightarrow> envelope_sender payload = Some (co_sender c)"
  by (erule dashboard_cases)
    (auto simp: envelope_sender_def dashboard_commission_def dest: authority_fieldsD)

lemma no_dashboard_note: "classify_dashboard payload \<noteq> M_Note n"
  by (auto simp: classify_dashboard_def invalid_dashboard_def split: if_splits option.splits prod.splits json.splits)



section \<open>One poll\<close>

text \<open>The evidence on which a person may commission or steer a run.\<close>

definition may_commission :: "ingress_env \<Rightarrow> ingress_cfg \<Rightarrow> (string \<times> json) list \<Rightarrow> string \<Rightarrow> bool" where
  "may_commission env cfg pending a \<longleftrightarrow>
     (\<exists>msg raw. download_raw_headers env (JObj msg) = Inr raw \<and> authorised_mail env cfg msg raw a)
     \<or> (\<exists>p \<in> set pending. envelope_sender (snd p) = Some a)"

lemma may_commission_mail:
  "download_raw_headers env (JObj msg) = Inr raw \<Longrightarrow> authorised_mail env cfg msg raw a \<Longrightarrow>
     may_commission env cfg pending a"
  unfolding may_commission_def by blast

lemma may_commission_dashboard:
  "p \<in> set pending \<Longrightarrow> envelope_sender (snd p) = Some a \<Longrightarrow> may_commission env cfg pending a"
  unfolding may_commission_def by blast

text \<open>A message is what a person who may commission asked for, or is set aside.\<close>

definition entitled :: "(string \<Rightarrow> bool) \<Rightarrow> message \<Rightarrow> bool" where
  "entitled P m \<longleftrightarrow> (case m_body m of
     M_Commission c \<Rightarrow> P (co_sender c) | M_Note n \<Rightarrow> P (n_sender n) | M_Other why \<Rightarrow> True)"

lemma classify_mail_entitled:
  assumes "classify_mail env cfg msg raw = Inr b" and "download_raw_headers env (JObj msg) = Inr raw"
  shows "entitled (may_commission env cfg pending) \<lparr>m_id = i, m_retryable = False, m_body = b\<rparr>"
  using assms classify_mail_authorised [of env cfg msg raw] may_commission_mail [OF assms(2)]
  by (auto simp: entitled_def split: message_body.split)

lemma fetched_body:
  assumes "fetched env cfg i msg = Inr m"
  shows "m_id m = i \<and> entitled (may_commission env cfg pending) m"
proof (cases "download_raw_headers env msg")
  case (Inl e)
  with assms show ?thesis by (cases e) (auto simp: fetched_def other_def entitled_def)
next
  case (Inr raw)
  with assms obtain kvs b where "msg = JObj kvs" "classify_mail env cfg kvs raw = Inr b"
    "m = \<lparr>m_id = i, m_retryable = False, m_body = b\<rparr>"
    by (auto simp: fetched_def returns split: json.splits)
  with Inr classify_mail_entitled show ?thesis by auto
qed

lemma dashboard_entitled:
  assumes "p \<in> set pending" and "payload = py_or (snd p) (JObj [])"
  shows "entitled (may_commission env cfg pending) \<lparr>m_id = i, m_retryable = False, m_body = classify_dashboard payload\<rparr>"
proof (cases "truthy (snd p)")
  case True
  with assms(2) have "payload = snd p" by (simp add: py_or_def)
  with assms(1) dashboard_sender [of payload] no_dashboard_note [of payload] show ?thesis
    by (auto simp: entitled_def intro: may_commission_dashboard split: message_body.split)
next
  case False
  with assms(2) have "payload = JObj []" by (simp add: py_or_def)
  then have "classify_dashboard payload = invalid_dashboard"
    by (simp add: classify_dashboard_def dashboard_fields_def keys_are_def)
  then show ?thesis by (simp add: entitled_def invalid_dashboard_def)
qed

lemma collect_one_body:
  assumes "collect_one env cfg p = Inr m" and "p \<in> set pending"
  shows "m_id m = fst p \<and> entitled (may_commission env cfg pending) m"
proof -
  obtain i raw where p: "p = (i, raw)" by (cases p)
  let ?payload = "py_or raw (JObj [])"
  from assms(1) p consider (Other) retry why where "m = other i retry why"
    | (Dashboard) "m = \<lparr>m_id = i, m_retryable = False, m_body = classify_dashboard ?payload\<rparr>"
    | (Mail) msg where "fetched env cfg i msg = Inr m"
    by (auto simp: collect_one_def collect_mail_def Let_def returns split: json.splits if_splits fetch_reply.splits)
  then show ?thesis
  proof cases
    case Other
    with p show ?thesis by (simp add: other_def entitled_def)
  next
    case Dashboard
    with p dashboard_entitled [OF assms(2)] show ?thesis by simp
  next
    case Mail
    with p fetched_body show ?thesis by simp
  qed
qed

lemma mapE_keys: "mapE f xs = Inr ys \<Longrightarrow> (\<And>x y. x \<in> set xs \<Longrightarrow> f x = Inr y \<Longrightarrow> g y = h x) \<Longrightarrow> map g ys = map h xs"
  by (induction xs arbitrary: ys) (auto simp: returns)

lemma collect_messages:
  assumes "collect env cfg = Inr ms"
  shows "\<exists>pending. in_pending env = Inr pending \<and> map m_id ms = map fst pending
    \<and> list_all (entitled (may_commission env cfg pending)) ms"
proof -
  from assms obtain pending where p: "in_pending env = Inr pending" "mapE (collect_one env cfg) pending = Inr ms"
    by (auto simp: collect_def returns split: if_splits)
  from mapE_keys [OF p(2), of m_id fst] collect_one_body have "map m_id ms = map fst pending" by blast
  with p(1) mapE_set [OF p(2)] collect_one_body show ?thesis by (fastforce simp: list_all_iff)
qed


section \<open>Who a site's runs belong to\<close>

definition owned :: "(string \<Rightarrow> bool) \<Rightarrow> site \<Rightarrow> bool" where
  "owned P w \<longleftrightarrow> (\<forall>p \<in> set (runs w). P (commissioned_by (snd p)))"

lemma ident_owner: "ident t = ident s \<Longrightarrow> commissioned_by t = commissioned_by s"
  by (simp add: ident_def)

lemma owned_stored: "owned P w \<Longrightarrow> map_of (runs w) rid = Some s \<Longrightarrow> P (commissioned_by s)"
  by (fastforce simp: owned_def dest: map_of_SomeD)

lemma on_run_owned:
  assumes "keeps (is_run s) m" and "on_run rid s m w = (res, w')" and "owned P w" "P (commissioned_by s)"
  shows "owned P w'"
proof -
  obtain res1 r where r: "m \<lparr>cur = s, disk = s, ledger = sends w, trace = history w\<rparr> = (res1, r)"
    by fastforce
  have "is_run s \<lparr>cur = s, disk = s, ledger = sends w, trace = history w\<rparr>" by (simp add: is_run_def)
  from keepsD [OF assms(1) this] r have "ident (disk r) = ident s" by (simp add: is_run_def)
  with ident_owner assms(4) have new: "P (commissioned_by (disk r))" by metis
  from assms(2) r have "runs w' = AList.update rid (disk r) (runs w)" by (auto simp: on_run_def)
  with new assms(3) show ?thesis unfolding owned_def using set_update by fastforce
qed

lemma create_run_owned:
  assumes "create_run cfg env c w = (res, w')" and "owned P w" "P (co_sender c)"
  shows "owned P w'"
proof -
  let ?rid = "chosen_run_id env c"
  let ?s = "\<lambda>ws. new_state cfg (se_now env) (se_cwd env) ?rid (c\<lparr>co_workspace_id := ws\<rparr>)"
  let ?m = "bindA (lift (se_prepare env ?rid (co_sender c))) (\<lambda>authority.
                      bindA (upd (\<lambda>s. s\<lparr>connector_authority := Some authority\<rparr>)) (\<lambda>_.
                      bindA save (\<lambda>_. ret ?rid)))"
  from assms(1) have "w' = w \<or> (\<exists>ws. on_run ?rid (?s ws) ?m (publish_run ?rid (?s ws) w) = (res, w'))"
    by (auto simp: create_run_def Let_def split: sum.splits if_splits)
  then show ?thesis
  proof
    assume "\<exists>ws. on_run ?rid (?s ws) ?m (publish_run ?rid (?s ws) w) = (res, w')"
    then obtain ws where o: "on_run ?rid (?s ws) ?m (publish_run ?rid (?s ws) w) = (res, w')" by blast
    have sender: "commissioned_by (?s ws) = co_sender c" by (simp add: new_state_def Let_def)
    have "keeps (is_run (?s ws)) ?m" by (intro frame_intros identity.frame_upd) (simp add: ident_def)
    from on_run_owned [OF this o, of P] show ?thesis
      using assms(2,3) sender by (simp add: owned_def publish_run_def)
  qed (use assms(2) in simp)
qed

lemma handle_commission_owned:
  assumes "handle_commission cfg env c w = (res, w')" and "owned P w" "P (co_sender c)"
  shows "owned P w'"
proof (cases "validate_workspace_id (co_workspace_id c)")
  case (Inl e)
  with assms show ?thesis by (simp add: handle_commission_def)
next
  case (Inr ws)
  let ?c = "c\<lparr>co_workspace_id := ws\<rparr>"
  show ?thesis
  proof (cases "find_commission (durable_key c) (co_message_id c) w")
    case None
    with Inr assms(1) have b: "begin_commission cfg env ?c w = (res, w')" by (simp add: handle_commission_def)
    obtain res1 w1 where c: "create_run cfg env (?c\<lparr>co_request_key := durable_key ?c\<rparr>) w = (res1, w1)" by fastforce
    from create_run_owned [OF this assms(2)] assms(3) have w1: "owned P w1" by simp
    from b c consider "w' = w1" | rid s where "stored_run w1 rid = Some s"
        "on_run rid s (bindA (start_run cfg env (co_sender ?c) (co_message_id ?c)) (\<lambda>_. ret rid)) w1 = (res, w')"
      by (auto simp: begin_commission_def bind_site_def split: sum.splits option.splits)
    then show ?thesis
    proof cases
      case (2 rid s)
      have "keeps (is_run s) (bindA (start_run cfg env (co_sender ?c) (co_message_id ?c)) (\<lambda>_. ret rid))"
        by (intro frame_intros)
      from on_run_owned [OF this 2(2) w1] owned_stored [OF w1] 2(1) show ?thesis by (simp add: stored_run_def)
    qed (use w1 in simp)
  next
    case (Some p)
    obtain rid s where p: "p = (rid, s)" by (cases p)
    from find_commission_Some Some p have s: "(rid, s) \<in> set (runs w)" by blast
    from Inr Some p assms(1) have r: "resume_commission cfg env ?c rid s w = (res, w')"
      by (simp add: handle_commission_def)
    have "keeps (is_run s) (bindA (recover_run cfg env ?c) (\<lambda>_. ret (run_id s)))" by (intro frame_intros)
    note resumed = on_run_owned [OF this _ assms(2)]
    have "P (commissioned_by s)" using assms(2) s by (fastforce simp: owned_def)
    with resumed r assms(2) show ?thesis by (auto simp: resume_commission_def split: if_splits)
  qed
qed

lemma handle_note_owned:
  assumes "handle_note cfg env n w = (res, w')" and "owned P w"
  shows "owned P w'"
proof (cases "stored_run w (n_run_id n)")
  case (Some s)
  with assms(1) have "on_run (n_run_id n) s (note_body cfg env n) w = (res, w')" by (simp add: handle_note_def)
  from on_run_owned [OF identity_note_body this assms(2)] owned_stored [OF assms(2)] Some
  show ?thesis by (simp add: stored_run_def)
qed (use assms in \<open>simp add: handle_note_def\<close>)

lemma serve_message_owned:
  assumes "serve_message cfg env m w = (ok, w')" and "owned P w"
    and "\<And>c. m_body m = M_Commission c \<Longrightarrow> P (co_sender c)"
  shows "owned P w'"
proof -
  have q: "owned P (quarantine m r w) = owned P w" for r w by (simp add: owned_def quarantine_def)
  from assms(1) consider "w' = w" | r where "w' = quarantine m r w"
    | c res w1 where "m_body m = M_Commission c" "handle_commission cfg env (keyed_commission m c) w = (res, w1)"
        "w' = w1 \<or> (\<exists>r. w' = quarantine m r w1)"
    | n res w1 where "handle_note cfg env (keyed_note m n) w = (res, w1)"
        "w' = w1 \<or> (\<exists>r. w' = quarantine m r w1)"
    by (fastforce simp: serve_message_def split: if_splits message_body.splits sum.splits exn.splits prod.splits)
  then show ?thesis
  proof cases
    case (3 c res w1)
    have "P (co_sender (keyed_commission m c))" using assms(3) [OF 3(1)] by (simp add: keyed_commission_def)
    from handle_commission_owned [OF 3(2) assms(2) this] 3(3) q show ?thesis by auto
  next
    case (4 n res w1)
    from handle_note_owned [OF 4(1) assms(2)] 4(2) q show ?thesis by auto
  qed (use assms(2) q in auto)
qed

lemma serve_pass_owned:
  assumes "serve_pass cfg envs i ms w = (acks, w')" and "owned P w"
    and "\<And>m c. m \<in> set ms \<Longrightarrow> m_body m = M_Commission c \<Longrightarrow> P (co_sender c)"
  shows "owned P w'"
  using assms
proof (induction ms arbitrary: i w acks)
  case (Cons m ms)
  obtain ok w1 where m: "serve_message cfg (envs i) m w = (ok, w1)" by fastforce
  have "owned P w1" by (rule serve_message_owned [OF m Cons.prems(2)]) (rule Cons.prems(3), simp_all)
  with Cons.IH [of "Suc i" w1] Cons.prems m show ?case by (fastforce split: prod.splits)
qed simp



section \<open>Downstream of the dashboard\<close>

lemma RUN_ID_valid: "fullmatch RUN_ID s \<Longrightarrow> valid_run_id s"
  by (auto simp: RUN_ID_def re_seq_def lit_def fullmatch_class valid_run_id_def starts_with_def list_all_iff
      run_id_char_def label_char_def lower_alpha_def between_def)

lemma strip_id: "list_all (\<lambda>c. \<not> is_space c) s \<Longrightarrow> strip s = s"
proof -
  have "list_all (\<lambda>c. \<not> is_space c) t \<Longrightarrow> dropWhile is_space t = t" for t by (cases t) auto
  moreover assume "list_all (\<lambda>c. \<not> is_space c) s"
  ultimately show ?thesis by (simp add: strip_def)
qed

lemma WORKSPACE_ID_valid: "fullmatch WORKSPACE_ID s \<Longrightarrow> validate_workspace_id (Some s) = Inr (Some s)"
proof -
  assume ok: "fullmatch WORKSPACE_ID s"
  then obtain c r where s: "s = c # r" "alnum c" "length r \<le> 95"
    "list_all (\<lambda>c. alnum c \<or> c \<in> {CHR ''.'', CHR ''_'', CHR '':'', CHR ''-''}) r"
    by (auto simp: WORKSPACE_ID_def re_seq_def fullmatch_class)
  have start: "alnum x \<Longrightarrow> workspace_start x \<and> \<not> is_space x" for x
    by (auto simp: alnum_def lower_alpha_def upper_alpha_def between_def workspace_start_def is_digit_def is_space_def)
  with s have "list_all (\<lambda>c. \<not> is_space c) s" by (auto simp: list_all_iff is_space_def)
  from strip_id [OF this] s start show ?thesis
    by (auto simp: validate_workspace_id_def Let_def list_all_iff)
qed

lemma dashboard_downstream:
  assumes "classify_dashboard payload = M_Commission c"
  shows "valid_run_id (co_run_id c) \<and> co_request_key c = co_run_id c
    \<and> validate_workspace_id (co_workspace_id c) = Inr (co_workspace_id c)
    \<and> co_task c \<noteq> [] \<and> length (co_task c) \<le> 6300"
  using assms
proof (cases rule: dashboard_cases)
  case (1 p rid job authority title goal source wind sender ws)
  have "length r \<le> 79" if "source = JStr r" for r
    using job_fieldsD [OF 1(4)] RUN_ID_valid [of r] that by (simp add: optional_run_def valid_run_id_def)
  with job_fieldsD [OF 1(4)] have "length (co_task c) \<le> 6300"
    by (auto simp: 1(6) dashboard_commission_def dashboard_task_def text_ok_def split: json.split)
  with 1 RUN_ID_valid WORKSPACE_ID_valid authority_fieldsD [OF 1(5)] show ?thesis
    by (auto simp: dashboard_commission_def dashboard_task_def)
qed

end
