(* ===== verification/Ingress_Samples.thy ===== *)
theory Ingress_Samples
  imports Ingress_Correct
begin

text \<open>A dashboard envelope, an authenticated mail and a poll that delivers the envelope.\<close>

definition demo_dashboard :: json where
  "demo_dashboard = JObj
     [(''source'', JStr ''dashboard''), (''schema_version'', JInt 1), (''run_id'', JStr ''r-abc''),
      (''accepted_at'', JStr ''2026-01-01T00:00:00Z''), (''request_fingerprint'', JStr (replicate 64 CHR ''0'')),
      (''job'', JObj [(''title'', JStr ''t''), (''goal'', JStr ''g''), (''source_run_id'', JNull),
                      (''second_wind'', JBool True)]),
      (''authority'', JObj [(''user_id'', JStr ''u''), (''email'', JStr ''a@b.co''), (''workspace_id'', JStr ''w'')])]"

definition demo_poll :: ingress_env where
  "demo_poll =
     \<lparr>in_pending = Inr [(''e1'', demo_dashboard)], in_key = Inr ''key'',
      in_fetch = (\<lambda>i. Fetch_Http 404), in_open = (\<lambda>u. Raw_Http 404), in_split = (\<lambda>u. None),
      in_parser = (\<lambda>b. Inl ''down''), in_getaddresses = (\<lambda>vs. Some (map (\<lambda>v. ([], v)) vs))\<rparr>"

definition demo_icfg :: ingress_cfg where
  "demo_icfg = \<lparr>ic_owners = [''A@b.co''], ic_address = ''rally@b.co'', ic_worker_url = ''https://w''\<rparr>"

definition demo_mail :: "(string \<times> json) list" where
  "demo_mail = [(''from'', JStr ''a@b.co''), (''to'', JArr [JStr ''Rally <rally@b.co>'']),
     (''subject'', JStr ''do it''), (''text'', JStr [])]"

definition demo_headers :: "(string \<times> string) list" where
  "demo_headers = [(''From'', ''a@b.co''),
     (''Authentication-Results'', ''amazonses.com; dkim=pass (2048 bit) header.i=@b.co; dmarc=pass header.from=b.co'')]"

lemma demo_dashboard_accepted: "\<exists>c. classify_dashboard demo_dashboard = M_Commission c \<and> co_run_id c = ''r-abc''"
proof -
  have "classify_dashboard demo_dashboard
      = M_Commission (dashboard_commission ''r-abc'' ''t'' ''g'' JNull (JBool True) ''a@b.co'' ''w'')"
    by code_simp
  then show ?thesis by (simp add: dashboard_commission_def)
qed

lemma demo_dashboard_sender: "envelope_sender demo_dashboard = Some ''a@b.co''"
  by code_simp

end
