(* ===== verification/Urls.thy ===== *)
theory Urls
  imports Rally_Prelude
begin

text \<open>
  What the code uses of \<open>urllib.parse\<close>: \<open>urlsplit\<close>, the parts of a network location, and
  \<open>urlunsplit\<close> for a URL with a network location. The check of an address in square brackets
  (\<open>ipaddress\<close>) is an argument.
\<close>

section \<open>Partitions\<close>

text \<open>\<open>s.partition(c)\<close> and \<open>s.rpartition(c)\<close>; the flag says whether the separator occurs.\<close>

definition partition_at :: "char \<Rightarrow> string \<Rightarrow> string \<times> bool \<times> string" where
  "partition_at c s =
     (case dropWhile (\<lambda>d. d \<noteq> c) s of
        [] \<Rightarrow> (s, False, [])
      | _ # rest \<Rightarrow> (takeWhile (\<lambda>d. d \<noteq> c) s, True, rest))"

definition rpartition_at :: "char \<Rightarrow> string \<Rightarrow> string \<times> bool \<times> string" where
  "rpartition_at c s =
     (case partition_at c (rev s) of
        (_, False, _) \<Rightarrow> ([], False, s)
      | (back, True, front) \<Rightarrow> (rev front, True, rev back))"

lemma partition_at_absent: "c \<notin> set s \<Longrightarrow> partition_at c s = (s, False, [])"
proof (induction s)
  case (Cons d s)
  have "dropWhile (\<lambda>d. d \<noteq> c) (d # s) = []" using Cons.prems by (auto simp: dropWhile_eq_Nil_conv)
  then show ?case unfolding partition_at_def by (simp only: list.case)
qed (simp add: partition_at_def)

lemma partition_at_present: "c \<notin> set a \<Longrightarrow> partition_at c (a @ c # b) = (a, True, b)"
  by (induction a) (auto simp: partition_at_def split: list.splits)

lemma partition_at_cases:
  obtains "c \<notin> set s" "partition_at c s = (s, False, [])"
  | a b where "s = a @ c # b" "c \<notin> set a" "partition_at c s = (a, True, b)"
proof (cases "c \<in> set s")
  case True
  with split_list_first [OF this] partition_at_present that(2) show thesis by metis
qed (use that(1) partition_at_absent in blast)

lemma rpartition_at_absent: "c \<notin> set s \<Longrightarrow> rpartition_at c s = ([], False, s)"
  by (simp add: rpartition_at_def partition_at_absent)


section \<open>Splitting a URL\<close>

record split_url =
  su_scheme :: string
  su_netloc :: string
  su_path :: string
  su_query :: string
  su_fragment :: string

definition control_or_space :: "char \<Rightarrow> bool" where
  "control_or_space c \<longleftrightarrow> (of_char c :: nat) \<le> 32"

definition ascii_letter :: "char \<Rightarrow> bool" where
  "ascii_letter c \<longleftrightarrow> (let n = of_char c :: nat in 65 \<le> n \<and> n \<le> 90 \<or> 97 \<le> n \<and> n \<le> 122)"

definition scheme_char :: "char \<Rightarrow> bool" where
  "scheme_char c \<longleftrightarrow> ascii_letter c \<or> is_digit c \<or> c \<in> {CHR ''+'', CHR ''-'', CHR ''.''}"

definition url_clean :: "string \<Rightarrow> string" where
  "url_clean s = filter (\<lambda>c. c \<notin> {CHR 9, CHR 10, CHR 13}) (dropWhile control_or_space s)"

definition split_scheme :: "string \<Rightarrow> string \<times> string" where
  "split_scheme s =
     (case partition_at (CHR '':'') s of
        (front, True, rest) \<Rightarrow>
          (if front \<noteq> [] \<and> ascii_letter (hd front) \<and> list_all scheme_char front
           then (lower front, rest) else ([], s))
      | _ \<Rightarrow> ([], s))"

definition netloc_end :: "char \<Rightarrow> bool" where
  "netloc_end c \<longleftrightarrow> c = CHR ''/'' \<or> c = CHR ''?'' \<or> c = CHR ''#''"

definition brackets_ok :: "(string \<Rightarrow> bool) \<Rightarrow> string \<Rightarrow> bool" where
  "brackets_ok address n \<longleftrightarrow>
     (CHR ''['' \<in> set n) = (CHR '']'' \<in> set n) \<and> (CHR ''['' \<in> set n \<longrightarrow> address n)"

definition urlsplit :: "(string \<Rightarrow> bool) \<Rightarrow> string \<Rightarrow> split_url option" where
  "urlsplit address s =
     (let (scheme, s1) = split_scheme (url_clean s);
          (netloc, s2) = (if starts_with s1 ''//''
             then (takeWhile (\<lambda>c. \<not> netloc_end c) (drop 2 s1), dropWhile (\<lambda>c. \<not> netloc_end c) (drop 2 s1))
             else ([], s1))
      in if \<not> brackets_ok address netloc then None
         else
           let (s3, _, fragment) = partition_at (CHR ''#'') s2;
               (path, _, query) = partition_at (CHR ''?'') s3
           in Some \<lparr>su_scheme = scheme, su_netloc = netloc, su_path = path, su_query = query,
                    su_fragment = fragment\<rparr>)"

text \<open>The parts of the network location. An empty port counts as none.\<close>

definition host_info :: "string \<Rightarrow> string \<times> string" where
  "host_info n =
     (let (_, _, info) = rpartition_at (CHR ''@'') n in
      case partition_at (CHR ''['') info of
        (_, True, bracketed) \<Rightarrow>
          (let (host, _, rest) = partition_at (CHR '']'') bracketed;
               (_, _, port) = partition_at (CHR '':'') rest in (host, port))
      | (_, False, _) \<Rightarrow> (let (host, _, port) = partition_at (CHR '':'') info in (host, port)))"

definition url_hostname :: "split_url \<Rightarrow> string" where
  "url_hostname u =
     (case partition_at (CHR ''%'') (fst (host_info (su_netloc u))) of
        (host, True, zone) \<Rightarrow> lower host @ CHR ''%'' # zone
      | (host, False, _) \<Rightarrow> lower host)"

text \<open>\<open>None\<close> is the \<open>ValueError\<close> of a port that is not a number or out of range.\<close>

definition url_port :: "split_url \<Rightarrow> int option option" where
  "url_port u =
     (let port = snd (host_info (su_netloc u)) in
      if port = [] then Some None
      else if \<not> list_all is_digit port then None
      else if read_nat port \<le> 65535 then Some (Some (int (read_nat port))) else None)"

text \<open>\<open>parsed.username or parsed.password\<close>, as a truth value, and whether either is present.\<close>

definition user_info :: "split_url \<Rightarrow> (string \<times> string option) option" where
  "user_info u =
     (case rpartition_at (CHR ''@'') (su_netloc u) of
        (_, False, _) \<Rightarrow> None
      | (info, True, _) \<Rightarrow>
          (case partition_at (CHR '':'') info of
             (user, False, _) \<Rightarrow> Some (user, None)
           | (user, True, password) \<Rightarrow> Some (user, Some password)))"

definition has_credentials :: "split_url \<Rightarrow> bool" where
  "has_credentials u =
     (case user_info u of
        None \<Rightarrow> False
      | Some (user, password) \<Rightarrow> user \<noteq> [] \<or> (case password of None \<Rightarrow> False | Some p \<Rightarrow> p \<noteq> []))"

text \<open>
  \<open>urlunsplit\<close> without query and fragment, for a network location that is not empty.
\<close>

definition urlunsplit :: "string \<Rightarrow> string \<Rightarrow> string \<Rightarrow> string" where
  "urlunsplit scheme netloc path =
     scheme @ '':'' @ ''//'' @ netloc @ (if path \<noteq> [] \<and> hd path \<noteq> CHR ''/'' then CHR ''/'' # path else path)"


section \<open>A URL in canonical form\<close>

text \<open>A network location and a path with none of the characters that separate or vanish.\<close>

definition plain_netloc :: "string \<Rightarrow> bool" where
  "plain_netloc n \<longleftrightarrow> n \<noteq> [] \<and> list_all (\<lambda>c. \<not> netloc_end c \<and> c \<notin> {CHR 9, CHR 10, CHR 13}) n"

definition plain_path :: "string \<Rightarrow> bool" where
  "plain_path p \<longleftrightarrow> (p = [] \<or> hd p = CHR ''/'')
     \<and> list_all (\<lambda>c. c \<notin> {CHR ''?'', CHR ''#'', CHR 9, CHR 10, CHR 13}) p"

lemma url_clean_no_breaks: "c \<in> set (url_clean s) \<Longrightarrow> c \<notin> {CHR 9, CHR 10, CHR 13}"
  by (simp add: url_clean_def)

lemma split_scheme_rest: "split_scheme s = (scheme, r) \<Longrightarrow> set r \<subseteq> set s"
  by (cases rule: partition_at_cases [of "CHR '':''" s]) (auto simp: split_scheme_def split: if_splits)

lemma partition_at_parts:
  assumes "partition_at c s = (a, f, b)"
  shows "set a \<subseteq> set s" "c \<notin> set a" "set b \<subseteq> set s" "s = [] \<Longrightarrow> a = []" "a \<noteq> [] \<Longrightarrow> hd a = hd s"
  using assms by (cases rule: partition_at_cases [of c s]; auto)+

text \<open>What \<open>urlsplit\<close> returns is plain, so putting it together and splitting it again gives it back.\<close>

lemma urlsplit_plain:
  assumes "urlsplit address s = Some u" and "su_netloc u \<noteq> []"
  shows "plain_netloc (su_netloc u)" "plain_path (su_path u)" "brackets_ok address (su_netloc u)"
proof -
  obtain scheme s1 where s1: "split_scheme (url_clean s) = (scheme, s1)" by fastforce
  have clean: "c \<notin> {CHR 9, CHR 10, CHR 13}" if "c \<in> set s1" for c
    using that split_scheme_rest [OF s1] url_clean_no_breaks by blast
  let ?t = "drop 2 s1"
  have slashes: "starts_with s1 ''//''"
    using assms s1 by (auto simp: urlsplit_def Let_def case_prod_beta split: if_splits)
  let ?n = "takeWhile (\<lambda>c. \<not> netloc_end c) ?t" and ?r = "dropWhile (\<lambda>c. \<not> netloc_end c) ?t"
  obtain s3 f1 fragment where s3: "partition_at (CHR ''#'') ?r = (s3, f1, fragment)" using prod_cases3 .
  obtain path f2 query where p: "partition_at (CHR ''?'') s3 = (path, f2, query)" using prod_cases3 .
  have u: "su_netloc u = ?n" "su_path u = path" and b: "brackets_ok address ?n"
    using assms(1) s1 slashes s3 p by (auto simp: urlsplit_def Let_def split: if_splits)
  have sub: "set ?t \<subseteq> set s1" by (rule set_drop_subset)
  have "list_all (\<lambda>c. \<not> netloc_end c \<and> c \<notin> {CHR 9, CHR 10, CHR 13}) ?n"
    using sub clean by (fastforce simp: list_all_iff dest: set_takeWhileD)
  with assms(2) u(1) show "plain_netloc (su_netloc u)" by (simp add: plain_netloc_def)
  show "brackets_ok address (su_netloc u)" using u(1) b by simp
  have r: "?r = [] \<or> netloc_end (hd ?r)" using hd_dropWhile by blast
  have "set path \<subseteq> set ?r"
    using partition_at_parts(1) [OF s3] partition_at_parts(1) [OF p] by blast
  then have chars: "set path \<subseteq> set s1" using sub by (auto dest!: set_dropWhileD)
  have no: "CHR ''?'' \<notin> set path" "CHR ''#'' \<notin> set path"
    using partition_at_parts(1,2) [OF s3] partition_at_parts(1,2) [OF p] by blast+
  have "path = [] \<or> hd path = CHR ''/''"
  proof (cases "path = []")
    case False
    then have "hd path = hd s3" "s3 \<noteq> []" using partition_at_parts(4,5) [OF p] by auto
    then have "hd path = hd ?r" "?r \<noteq> []" using partition_at_parts(4,5) [OF s3] by auto
    with r no False show ?thesis by (metis hd_in_set netloc_end_def)
  qed simp
  with no chars clean show "plain_path (su_path u)" by (fastforce simp: plain_path_def u(2) list_all_iff)
qed

lemma split_https: "split_scheme (''https:'' @ s) = (''https'', s)"
proof -
  have "''https:'' @ s = ''https'' @ CHR '':'' # s" by simp
  then have "partition_at (CHR '':'') (''https:'' @ s) = (''https'', True, s)"
    using partition_at_present [of "CHR '':''" "''https''" s] by simp
  moreover have "list_all scheme_char ''https''" "ascii_letter (CHR ''h'')" "lower ''https'' = ''https''"
    by code_simp+
  ultimately show ?thesis by (simp add: split_scheme_def)
qed

lemma urlsplit_urlunsplit:
  assumes "plain_netloc n" "plain_path p" "brackets_ok address n"
  shows "urlsplit address (urlunsplit ''https'' n p) =
    Some \<lparr>su_scheme = ''https'', su_netloc = n, su_path = p, su_query = [], su_fragment = []\<rparr>"
proof -
  have url: "urlunsplit ''https'' n p = ''https:'' @ ''//'' @ n @ p"
    using assms(2) by (auto simp: urlunsplit_def plain_path_def)
  have "filter (\<lambda>c. c \<notin> {CHR 9, CHR 10, CHR 13}) xs = xs"
    if "list_all (\<lambda>c. c \<notin> {CHR 9, CHR 10, CHR 13}) xs" for xs :: string
    using that by (auto simp: filter_id_conv list_all_iff)
  moreover have "list_all (\<lambda>c. c \<notin> {CHR 9, CHR 10, CHR 13}) (''https:'' @ ''//'' @ n @ p)"
    using assms(1,2) by (auto simp: plain_netloc_def plain_path_def list_all_iff)
  ultimately have clean: "url_clean (urlunsplit ''https'' n p) = ''https:'' @ ''//'' @ n @ p"
    by (simp add: url url_clean_def control_or_space_def)
  have stop: "p = [] \<or> netloc_end (hd p)" using assms(2) by (auto simp: plain_path_def netloc_end_def)
  have n: "takeWhile (\<lambda>c. \<not> netloc_end c) (n @ p) = n" "dropWhile (\<lambda>c. \<not> netloc_end c) (n @ p) = p"
    using assms(1) stop by (cases p; auto simp: plain_netloc_def list_all_iff takeWhile_append dropWhile_append)+
  have "partition_at (CHR ''#'') p = (p, False, [])" "partition_at (CHR ''?'') p = (p, False, [])"
    using assms(2) by (auto simp: plain_path_def list_all_iff intro!: partition_at_absent)
  with clean n assms(3) show ?thesis by (simp add: urlsplit_def split_https [simplified])
qed

end
