(* ===== verification/Credentials.thy ===== *)
theory Credentials
  imports Connectors
begin

text \<open>
  The credentials of one connector user in the macOS keychain and the headers a provider may be
  sent (\<^verbatim>\<open>cloud/connector_credentials.py\<close>). The keychain maps a service and an account to a
  secret; whether a run of \<^verbatim>\<open>security\<close> succeeds is an argument, as are the JSON encoder and
  parser. A point of time is a whole number here.
\<close>

section \<open>Validation\<close>

type_synonym 'a cred = "string + 'a"

definition identifier_ok :: "string \<Rightarrow> bool" where "identifier_ok = keychain_service_ok"

definition validate_identifier :: "string \<Rightarrow> string \<Rightarrow> string cred" where
  "validate_identifier v label = (if identifier_ok v then Inr v else Inl (''invalid '' @ label))"

definition utf8_length :: "string \<Rightarrow> nat" where
  "utf8_length s = sum_list (map (\<lambda>c. if (of_char c :: nat) < 128 then 1 else 2) s)"

definition control_char :: "char \<Rightarrow> bool" where
  "control_char c \<longleftrightarrow> (let n = of_char c :: nat in n < 32 \<or> n = 127)"

definition validate_secret :: "json \<Rightarrow> string \<Rightarrow> int \<Rightarrow> string cred" where
  "validate_secret v label limit =
     (case v of
        JStr s \<Rightarrow>
          (if s = [] \<or> list_ex control_char s \<or> int (utf8_length s) > limit then Inl (''invalid '' @ label)
           else Inr s)
      | _ \<Rightarrow> Inl (''invalid '' @ label))"

definition optional_secret :: "json \<Rightarrow> string \<Rightarrow> int \<Rightarrow> string option cred" where
  "optional_secret v label limit =
     (if v = JNull then Inr None else bindE (validate_secret v label limit) (\<lambda>s. Inr (Some s)))"

record oauth_client =
  oc_id :: string
  oc_secret :: "string option"

record oauth_token =
  ot_access :: string
  ot_refresh :: "string option"
  ot_type :: string
  ot_expires :: "int option"
  ot_scope :: "string option"

definition make_client :: "json \<Rightarrow> json \<Rightarrow> oauth_client cred" where
  "make_client i secret =
     bindE (validate_secret i ''OAuth client ID'' 4096) (\<lambda>i.
     bindE (optional_secret secret ''OAuth client secret'' 16384) (\<lambda>secret.
       Inr \<lparr>oc_id = i, oc_secret = secret\<rparr>))"

definition token_type :: "json \<Rightarrow> string cred" where
  "token_type kind =
     (case kind of
        JStr k \<Rightarrow> (if lower k \<noteq> ''bearer'' then Inl ''unsupported OAuth token type'' else Inr k)
      | _ \<Rightarrow> Inl ''unsupported OAuth token type'')"

definition token_expiry :: "json \<Rightarrow> int option cred" where
  "token_expiry expires =
     (case expires of JNull \<Rightarrow> Inr None | JInt t \<Rightarrow> Inr (Some t) | _ \<Rightarrow> Inl ''invalid OAuth token expiry'')"

definition make_token :: "json \<Rightarrow> json \<Rightarrow> json \<Rightarrow> json \<Rightarrow> json \<Rightarrow> oauth_token cred" where
  "make_token access refresh kind expires scope =
     bindE (validate_secret access ''OAuth access token'' 65536) (\<lambda>access.
     bindE (optional_secret refresh ''OAuth refresh token'' 65536) (\<lambda>refresh.
     bindE (token_type kind) (\<lambda>kind.
     bindE (token_expiry expires) (\<lambda>expires.
     bindE (optional_secret scope ''OAuth scope'' 16384) (\<lambda>scope.
       Inr \<lparr>ot_access = access, ot_refresh = refresh, ot_type = kind, ot_expires = expires,
            ot_scope = scope\<rparr>)))))"


section \<open>The keychain\<close>

type_synonym keychain = "string \<times> string \<Rightarrow> string option"

datatype kc_run = Find string string | Add string string | Drop string string

record vault_tools =
  vt_works :: "kc_run \<Rightarrow> bool"
  vt_dumps :: "json \<Rightarrow> string"
  vt_loads :: "string \<Rightarrow> json option"

definition CREDENTIAL_ACCOUNTS :: "string list" where
  "CREDENTIAL_ACCOUNTS = [''oauth-client'', ''oauth-token'', ''client'', ''tokens'']"

definition rstrip_breaks :: "string \<Rightarrow> string" where
  "rstrip_breaks s = rev (dropWhile (\<lambda>c. c = CHR 10 \<or> c = CHR 13) (rev s))"

definition kc_read :: "vault_tools \<Rightarrow> string \<Rightarrow> string \<Rightarrow> keychain \<Rightarrow> string option cred" where
  "kc_read t service account k =
     (if \<not> vt_works t (Find service account) then Inl ''could not read connector credentials''
      else
        (case k (service, account) of
           None \<Rightarrow> Inr None
         | Some s \<Rightarrow> (let r = rstrip_breaks s in Inr (if r = [] then None else Some r))))"

definition kc_write ::
    "vault_tools \<Rightarrow> string \<Rightarrow> string \<Rightarrow> string \<Rightarrow> keychain \<Rightarrow> unit cred \<times> keychain" where
  "kc_write t service account s k =
     (if vt_works t (Add service account) then (Inr (), k((service, account) \<mapsto> s))
      else (Inl ''could not store connector credentials'', k))"

definition kc_delete ::
    "vault_tools \<Rightarrow> string \<Rightarrow> string \<Rightarrow> keychain \<Rightarrow> bool cred \<times> keychain" where
  "kc_delete t service account k =
     (if \<not> vt_works t (Drop service account) then (Inl ''could not delete connector credentials'', k)
      else (Inr (k (service, account) \<noteq> None), k((service, account) := None)))"

definition profile_service :: "string \<Rightarrow> string \<Rightarrow> string cred" where
  "profile_service service profile =
     bindE (validate_identifier service ''Keychain service'') (\<lambda>base.
     bindE (validate_identifier profile ''credential profile'') (\<lambda>profile.
       Inr (base @ ''-'' @ profile)))"

definition namespaced_service :: "string \<Rightarrow> string cred" where
  "namespaced_service service = validate_identifier service ''Keychain service''"

definition opt_field :: "string \<Rightarrow> ('a \<Rightarrow> json) \<Rightarrow> 'a option \<Rightarrow> obj" where
  "opt_field k f v = (case v of None \<Rightarrow> [] | Some x \<Rightarrow> [(k, f x)])"

definition client_payload :: "oauth_client \<Rightarrow> json" where
  "client_payload c =
     JObj ((''client_id'', JStr (oc_id c)) # opt_field ''client_secret'' JStr (oc_secret c))"

definition save_client ::
    "vault_tools \<Rightarrow> string \<Rightarrow> oauth_client \<Rightarrow> keychain \<Rightarrow> unit cred \<times> keychain" where
  "save_client t service c k = kc_write t service ''oauth-client'' (vt_dumps t (client_payload c)) k"

definition load_client :: "vault_tools \<Rightarrow> string \<Rightarrow> keychain \<Rightarrow> oauth_client option cred" where
  "load_client t service k =
     bindE (kc_read t service ''oauth-client'' k) (\<lambda>v.
       case v of
         None \<Rightarrow> Inr None
       | Some s \<Rightarrow>
           (case vt_loads t s of
              Some (JObj payload) \<Rightarrow>
                (if \<not> set (map fst payload) \<subseteq> {''client_id'', ''client_secret''}
                    \<or> map_of payload ''client_id'' = None
                 then Inl ''stored OAuth client credentials are invalid''
                 else
                   (case make_client (jget ''client_id'' payload) (jget ''client_secret'' payload) of
                      Inl _ \<Rightarrow> Inl ''stored OAuth client credentials are invalid''
                    | Inr c \<Rightarrow> Inr (Some c)))
            | _ \<Rightarrow> Inl ''stored OAuth client credentials are invalid''))"

definition token_payload :: "oauth_token \<Rightarrow> json" where
  "token_payload tok =
     JObj ([(''access_token'', JStr (ot_access tok)), (''token_type'', JStr ''Bearer'')]
       @ opt_field ''refresh_token'' JStr (ot_refresh tok) @ opt_field ''expires_at'' JInt (ot_expires tok)
       @ opt_field ''scope'' JStr (ot_scope tok))"

definition save_tokens ::
    "vault_tools \<Rightarrow> string \<Rightarrow> oauth_token \<Rightarrow> keychain \<Rightarrow> unit cred \<times> keychain" where
  "save_tokens t service tok k = kc_write t service ''oauth-token'' (vt_dumps t (token_payload tok)) k"

definition load_tokens :: "vault_tools \<Rightarrow> string \<Rightarrow> keychain \<Rightarrow> oauth_token option cred" where
  "load_tokens t service k =
     bindE (kc_read t service ''oauth-token'' k) (\<lambda>v.
       case v of
         None \<Rightarrow> Inr None
       | Some s \<Rightarrow>
           (case vt_loads t s of
              Some (JObj payload) \<Rightarrow>
                (if \<not> set (map fst payload)
                      \<subseteq> {''access_token'', ''refresh_token'', ''token_type'', ''expires_at'', ''scope''}
                    \<or> map_of payload ''access_token'' = None
                 then Inl ''stored OAuth token material is invalid''
                 else
                   (case make_token (jget ''access_token'' payload) (jget ''refresh_token'' payload)
                           (get_or ''token_type'' (JStr ''Bearer'') payload) (jget ''expires_at'' payload)
                           (jget ''scope'' payload) of
                      Inl _ \<Rightarrow> Inl ''stored OAuth token material is invalid''
                    | Inr tok \<Rightarrow> Inr (Some tok)))
            | _ \<Rightarrow> Inl ''stored OAuth token material is invalid''))"

text \<open>Every account is tried; one failure makes the whole a failure.\<close>

fun delete_accounts ::
    "vault_tools \<Rightarrow> string \<Rightarrow> string list \<Rightarrow> bool \<Rightarrow> bool \<Rightarrow> keychain \<Rightarrow> bool cred \<times> keychain" where
  "delete_accounts t service [] deleted failed k =
     (if failed then Inl ''could not delete connector credentials'' else Inr deleted, k)"
| "delete_accounts t service (a # as) deleted failed k =
     (case kc_delete t service a k of
        (Inl e, k1) \<Rightarrow> delete_accounts t service as deleted True k1
      | (Inr d, k1) \<Rightarrow> delete_accounts t service as (d \<or> deleted) failed k1)"

definition delete_profile_credentials ::
    "vault_tools \<Rightarrow> string \<Rightarrow> keychain \<Rightarrow> bool cred \<times> keychain" where
  "delete_profile_credentials t service k = delete_accounts t service CREDENTIAL_ACCOUNTS False False k"


section \<open>Headers\<close>

definition header_name_char :: "char \<Rightarrow> bool" where
  "header_name_char c \<longleftrightarrow> ascii_letter c \<or> is_digit c \<or> c = CHR 39 \<or> c \<in> set ''!#$%&*+.^_|~-'' \<or> c = CHR 96"

definition toolset_ok :: "string \<Rightarrow> bool" where
  "toolset_ok s \<longleftrightarrow>
     (case s of [] \<Rightarrow> False
      | c # cs \<Rightarrow> (lower_letter c \<or> is_digit c)
          \<and> list_all (\<lambda>d. lower_letter d \<or> is_digit d \<or> d = CHR ''_'' \<or> d = CHR ''-'') cs
          \<and> length cs \<le> 63)"

definition GITHUB_HEADERS :: "(string \<times> string) list" where
  "GITHUB_HEADERS = [(''x-mcp-toolsets'', ''X-MCP-Toolsets''), (''x-mcp-readonly'', ''X-MCP-Readonly''),
     (''x-mcp-lockdown'', ''X-MCP-Lockdown'')]"

definition header_value :: "string \<Rightarrow> string \<Rightarrow> string \<Rightarrow> string cred" where
  "header_value lowered canonical v =
     (if v = [] \<or> list_ex control_char v then Inl ''invalid external credential header value''
      else if (lowered = ''x-mcp-readonly'' \<or> lowered = ''x-mcp-lockdown'') \<and> lower v \<noteq> ''true''
      then Inl (canonical @ '' cannot weaken Rally'' @ [CHR 39] @ ''s safety posture'')
      else if lowered = ''x-mcp-toolsets''
      then
        let parts = split_on (CHR '','') v in
        if \<not> list_all toolset_ok parts then Inl ''invalid GitHub MCP toolsets header''
        else if \<not> distinct parts then Inl ''duplicate GitHub MCP toolset''
        else Inr (join '','' parts)
      else Inr v)"

fun safe_headers_loop ::
    "(string \<times> string) list \<Rightarrow> string list \<Rightarrow> (string \<times> string) list \<Rightarrow> (string \<times> string) list cred" where
  "safe_headers_loop [] seen out = Inr out"
| "safe_headers_loop ((name, v) # hs) seen out =
     (if name = [] \<or> \<not> list_all header_name_char name then Inl ''invalid external credential header name''
      else
        let lowered = lower name in
        if lowered = ''authorization'' then Inl ''Authorization header overrides are forbidden''
        else
          case map_of GITHUB_HEADERS lowered of
            None \<Rightarrow> Inl ''arbitrary external credential headers are forbidden''
          | Some canonical \<Rightarrow>
              (if lowered \<in> set seen then Inl ''duplicate external credential header''
               else bindE (header_value lowered canonical v) (\<lambda>v.
                 safe_headers_loop hs (lowered # seen) (AList.update canonical v out))))"

definition validate_safe_headers :: "(string \<times> string) list \<Rightarrow> (string \<times> string) list cred" where
  "validate_safe_headers hs = safe_headers_loop hs [] []"

fun normal_toolsets :: "json list \<Rightarrow> string list \<Rightarrow> string list cred" where
  "normal_toolsets [] seen = Inr seen"
| "normal_toolsets (v # vs) seen =
     (case v of
        JStr s \<Rightarrow>
          (if \<not> toolset_ok s then Inl ''invalid GitHub MCP toolset''
           else if s \<in> set seen then Inl ''duplicate GitHub MCP toolset''
           else normal_toolsets vs (seen @ [s]))
      | _ \<Rightarrow> Inl ''invalid GitHub MCP toolset'')"

definition github_read_only_headers :: "json list \<Rightarrow> (string \<times> string) list cred" where
  "github_read_only_headers toolsets =
     (if toolsets = [] then Inl ''GitHub toolsets cannot be empty''
      else
        bindE (normal_toolsets toolsets []) (\<lambda>normalized.
          validate_safe_headers [(''X-MCP-Toolsets'', join '','' normalized), (''X-MCP-Readonly'', ''true''),
            (''X-MCP-Lockdown'', ''true'')]))"

text \<open>
  The headers of one request: those it had, the bearer token, and the provider's headers. The
  header object of the client replaces a header whatever the case of its name; none of the added
  ones occurs before.
\<close>

definition auth_flow ::
    "vault_tools \<Rightarrow> string \<Rightarrow> (string \<times> string) list \<Rightarrow> keychain \<Rightarrow> (string \<times> string) list
       \<Rightarrow> (string \<times> string) list cred" where
  "auth_flow t service safe k request =
     (let occupied = map (lower \<circ> fst) request in
      if ''authorization'' \<in> set occupied then Inl ''Authorization header overrides are forbidden''
      else if list_ex (\<lambda>(n, _). lower n \<in> set occupied) safe
      then Inl ''provider safety header overrides are forbidden''
      else
        bindE (load_tokens t service k) (\<lambda>tok.
          case tok of
            None \<Rightarrow> Inl ''connector OAuth token is not available''
          | Some tok \<Rightarrow> Inr (request @ (''Authorization'', ''Bearer '' @ ot_access tok) # safe)))"


section \<open>Facts\<close>

text \<open>What the constructors accept, they accept again.\<close>

lemma validate_secret_again: "validate_secret v label n = Inr s \<Longrightarrow> validate_secret (JStr s) label n = Inr s"
  by (auto simp: validate_secret_def split: json.splits if_splits)

lemma optional_secret_again:
  "optional_secret v label n = Inr s \<Longrightarrow>
     optional_secret (case s of None \<Rightarrow> JNull | Some x \<Rightarrow> JStr x) label n = Inr s"
  by (auto simp: optional_secret_def returns validate_secret_again split: if_splits)

lemma make_client_again:
  assumes "make_client i secret = Inr c"
  shows "make_client (JStr (oc_id c)) (case oc_secret c of None \<Rightarrow> JNull | Some s \<Rightarrow> JStr s) = Inr c"
  using assms by (auto simp: make_client_def returns validate_secret_again optional_secret_again)

lemma make_token_again:
  assumes "make_token access refresh kind expires scope = Inr tok"
  shows "make_token (JStr (ot_access tok)) (case ot_refresh tok of None \<Rightarrow> JNull | Some s \<Rightarrow> JStr s)
    (JStr ''Bearer'') (case ot_expires tok of None \<Rightarrow> JNull | Some n \<Rightarrow> JInt n)
    (case ot_scope tok of None \<Rightarrow> JNull | Some s \<Rightarrow> JStr s) = Inr (tok\<lparr>ot_type := ''Bearer''\<rparr>)"
proof -
  have "token_type (JStr ''Bearer'') = Inr ''Bearer''" by code_simp
  moreover have "token_expiry (case e of None \<Rightarrow> JNull | Some n \<Rightarrow> JInt n) = Inr e" for e
    by (simp add: token_expiry_def split: option.split)
  ultimately show ?thesis
    using assms by (auto simp: make_token_def returns validate_secret_again optional_secret_again)
qed

definition codec_ok :: "vault_tools \<Rightarrow> json \<Rightarrow> bool" where
  "codec_ok t v \<longleftrightarrow> vt_loads t (rstrip_breaks (vt_dumps t v)) = Some v \<and> rstrip_breaks (vt_dumps t v) \<noteq> []"

lemma map_of_opt_field [simp]:
  "map_of (opt_field k f v) = (case v of None \<Rightarrow> Map.empty | Some x \<Rightarrow> [k \<mapsto> f x])"
  by (simp add: opt_field_def split: option.split)

lemma fst_opt_field: "p \<in> set (opt_field k f v) \<Longrightarrow> fst p = k"
  by (auto simp: opt_field_def split: option.splits)

lemma client_round_trip:
  assumes "codec_ok t (client_payload c)" "make_client i secret = Inr c" "save_client t service c k = (Inr (), k')"
    and "vt_works t (Find service ''oauth-client'')"
  shows "load_client t service k' = Inr (Some c)"
proof -
  let ?p = "(''client_id'', JStr (oc_id c)) # opt_field ''client_secret'' JStr (oc_secret c)"
  have "k' (service, ''oauth-client'') = Some (vt_dumps t (JObj ?p))"
    using assms(3) by (auto simp: save_client_def client_payload_def kc_write_def split: if_splits)
  moreover have "jget ''client_id'' ?p = JStr (oc_id c)" by (simp add: jget_def)
  moreover have "jget ''client_secret'' ?p = (case oc_secret c of None \<Rightarrow> JNull | Some s \<Rightarrow> JStr s)"
    by (simp add: jget_def split: option.split)
  moreover have "set (map fst ?p) \<subseteq> {''client_id'', ''client_secret''}" "map_of ?p ''client_id'' \<noteq> None"
    by (auto dest: fst_opt_field)
  ultimately show ?thesis
    using assms(1,4) make_client_again [OF assms(2)]
    by (simp add: load_client_def client_payload_def kc_read_def codec_ok_def Let_def)
qed

lemma token_round_trip:
  assumes "codec_ok t (token_payload tok)" "make_token access refresh kind expires scope = Inr tok"
    and "save_tokens t service tok k = (Inr (), k')" "vt_works t (Find service ''oauth-token'')"
  shows "load_tokens t service k' = Inr (Some (tok\<lparr>ot_type := ''Bearer''\<rparr>))"
proof -
  obtain p where payload: "token_payload tok = JObj p"
    and p: "p = [(''access_token'', JStr (ot_access tok)), (''token_type'', JStr ''Bearer'')]
      @ opt_field ''refresh_token'' JStr (ot_refresh tok) @ opt_field ''expires_at'' JInt (ot_expires tok)
      @ opt_field ''scope'' JStr (ot_scope tok)" by (simp add: token_payload_def)
  have stored: "k' (service, ''oauth-token'') = Some (vt_dumps t (JObj p))"
    using assms(3) by (auto simp: save_tokens_def kc_write_def payload split: if_splits)
  have fields: "jget ''refresh_token'' p = (case ot_refresh tok of None \<Rightarrow> JNull | Some s \<Rightarrow> JStr s)"
    "jget ''expires_at'' p = (case ot_expires tok of None \<Rightarrow> JNull | Some n \<Rightarrow> JInt n)"
    "jget ''scope'' p = (case ot_scope tok of None \<Rightarrow> JNull | Some s \<Rightarrow> JStr s)"
    "jget ''access_token'' p = JStr (ot_access tok)" "map_of p ''access_token'' \<noteq> None"
    "get_or ''token_type'' (JStr ''Bearer'') p = JStr ''Bearer''"
    unfolding p by (auto simp: jget_def get_or_def map_add_def split: option.split)
  have keys: "set (map fst p) \<subseteq> {''access_token'', ''refresh_token'', ''token_type'', ''expires_at'', ''scope''}"
    unfolding p by (auto dest: fst_opt_field)
  show ?thesis
    using assms(1,4) make_token_again [OF assms(2)] stored fields keys
    by (simp add: load_tokens_def kc_read_def codec_ok_def payload Let_def)
qed

lemma save_other:
  "save_client t service c k = (Inr (), k') \<Longrightarrow> k' (service, ''oauth-token'') = k (service, ''oauth-token'')"
  by (auto simp: save_client_def kc_write_def split: if_splits)

lemma load_tokens_cong:
  "k' (service, ''oauth-token'') = k (service, ''oauth-token'') \<Longrightarrow> load_tokens t service k' = load_tokens t service k"
  by (simp add: load_tokens_def kc_read_def)

lemma credentials_return:
  assumes "codec_ok t (token_payload tok)" "codec_ok t (client_payload c)"
    and "make_token access refresh kind expires scope = Inr tok" "make_client i secret = Inr c"
    and "save_tokens t service tok k = (Inr (), k1)" "save_client t service c k1 = (Inr (), k2)"
    and "vt_works t (Find service ''oauth-token'')" "vt_works t (Find service ''oauth-client'')"
  shows "load_tokens t service k2 = Inr (Some (tok\<lparr>ot_type := ''Bearer''\<rparr>)) \<and> load_client t service k2 = Inr (Some c)"
proof -
  from token_round_trip [OF assms(1,3,5,7)] have "load_tokens t service k1 = Inr (Some (tok\<lparr>ot_type := ''Bearer''\<rparr>))" .
  then have "load_tokens t service k2 = Inr (Some (tok\<lparr>ot_type := ''Bearer''\<rparr>))"
    using load_tokens_cong [where k = k1 and k' = k2, OF save_other [OF assms(6)]] by simp
  with client_round_trip [OF assms(2,4,6,8)] show ?thesis by simp
qed

text \<open>Disconnecting.\<close>

lemma delete_accounts_outcome:
  assumes "delete_accounts t service as deleted failed k = (res, k')"
  shows "k' = (\<lambda>(s, a). if s = service \<and> a \<in> set as \<and> vt_works t (Drop service a) then None else k (s, a))"
    and "res = (if failed \<or> (\<exists>a \<in> set as. \<not> vt_works t (Drop service a))
      then Inl ''could not delete connector credentials''
      else Inr (deleted \<or> (\<exists>a \<in> set as. k (service, a) \<noteq> None)))"
  using assms
proof (induction as arbitrary: deleted failed k)
  case (Cons a as)
  {
    case 1
    with Cons.IH(1) show ?case by (fastforce simp: kc_delete_def split: if_splits)
  next
    case 2
    with Cons.IH(2) show ?case by (fastforce simp: kc_delete_def split: if_splits)
  }
qed auto

text \<open>
  The headers a provider gets for GitHub: the toolsets and the two switches that only restrict.
\<close>

lemma safe_headers_value:
  assumes "header_value lowered canonical v = Inr w" "lowered = ''x-mcp-readonly'' \<or> lowered = ''x-mcp-lockdown''"
  shows "w = v \<and> lower v = ''true''"
  using assms by (auto simp: header_value_def split: if_splits)

definition restricting :: "string \<times> string \<Rightarrow> bool" where
  "restricting p \<longleftrightarrow> fst p \<in> set (map snd GITHUB_HEADERS) \<and> (fst p \<noteq> ''X-MCP-Toolsets'' \<longrightarrow> lower (snd p) = ''true'')"

lemma update_all:
  assumes "\<And>p. p \<in> set xs \<Longrightarrow> P p" and "P (k, v)"
  shows "\<forall>p \<in> set (AList.update k v xs). P p"
  using assms by (induction xs) auto

lemma header_value_restricting:
  assumes "map_of GITHUB_HEADERS lowered = Some canonical" "header_value lowered canonical v = Inr w"
  shows "restricting (canonical, w)"
proof -
  have "canonical \<in> set (map snd GITHUB_HEADERS)" using map_of_SomeD [OF assms(1)] by force
  moreover have "lowered = ''x-mcp-toolsets'' \<and> canonical = ''X-MCP-Toolsets''
      \<or> lowered = ''x-mcp-readonly'' \<or> lowered = ''x-mcp-lockdown''"
    using assms(1) by (simp add: GITHUB_HEADERS_def split: if_splits)
  ultimately show ?thesis using safe_headers_value [OF assms(2)] by (auto simp: restricting_def)
qed

lemma safe_headers_loop_restricting:
  "safe_headers_loop hs seen out = Inr res \<Longrightarrow> (\<And>p. p \<in> set out \<Longrightarrow> restricting p) \<Longrightarrow> p \<in> set res \<Longrightarrow> restricting p"
proof (induction hs seen out rule: safe_headers_loop.induct)
  case (2 name v hs seen out)
  let ?l = "lower name"
  from 2(2) obtain canonical w where s: "map_of GITHUB_HEADERS ?l = Some canonical"
    "header_value ?l canonical v = Inr w" "safe_headers_loop hs (?l # seen) (AList.update canonical w out) = Inr res"
    and c: "\<not> (name = [] \<or> \<not> list_all header_name_char name)" "?l \<noteq> ''authorization''" "?l \<notin> set seen"
    by (auto simp: Let_def returns split: if_splits option.splits)
  have "restricting q" if "q \<in> set (AList.update canonical w out)" for q
    using update_all [where P = restricting, OF 2(3) header_value_restricting [OF s(1,2)]] that by blast
  with 2(1) [OF c(1) refl c(2) s(1) c(3) s(3)] 2(4) show ?case by blast
qed simp

lemma validate_safe_headers_restrict:
  assumes "validate_safe_headers hs = Inr res" and "p \<in> set res"
  shows "restricting p"
  using safe_headers_loop_restricting [OF assms(1) [unfolded validate_safe_headers_def] _ assms(2)] by simp

end
