(* ===== verification/Approvals.thy ===== *)
theory Approvals
  imports Rally_Prelude
begin

text \<open>
  The private, single-use ledger of approvals for connector calls (\<open>cloud/connector_approvals.py\<close>).
  Points of time are microseconds. \<open>canon\<close> is the canonical JSON text of a value, \<open>None\<close> where
  the encoder refuses it, \<open>loads\<close> the JSON parser and \<open>sha\<close> the digest; the identifiers drawn at
  random are an argument. An operation holds the lock from its reading of the file to its write.
\<close>

section \<open>Records\<close>

record approval =
  ap_id :: string
  ap_status :: string
  ap_run :: string
  ap_connector :: string
  ap_tool :: string
  ap_sha :: string
  ap_arguments :: json
  ap_created :: int
  ap_expires :: int
  ap_approved :: "int option"
  ap_approver :: "string option"
  ap_consumed :: "int option"
  ap_expired :: "int option"

datatype approval_error =
    InputError string
  | NotFound string
  | StateError string
  | Expired string
  | Replay string
  | Mismatch string
  | LimitError string
  | LedgerCorrupt string
  | Drawing

text \<open>\<open>Drawing\<close> stands for a call that is still drawing identifiers when its supply ends.\<close>

record coders =
  cd_canon :: "json \<Rightarrow> string option"
  cd_loads :: "string \<Rightarrow> json"
  cd_sha :: "string \<Rightarrow> string"

definition STATUSES :: "string list" where
  "STATUSES = [''pending'', ''approved'', ''consumed'', ''expired'']"

definition MAX_TTL :: int where "MAX_TTL = 3600"

definition MAX_RECORDS :: nat where "MAX_RECORDS = 1024"

definition MAX_ARGUMENT_BYTES :: int where "MAX_ARGUMENT_BYTES = 256 * 1024"

definition is_object :: "json \<Rightarrow> bool" where
  "is_object v \<longleftrightarrow> (case v of JObj kvs \<Rightarrow> True | _ \<Rightarrow> False)"

definition canonical_json :: "coders \<Rightarrow> json \<Rightarrow> approval_error + string" where
  "canonical_json cd v =
     (case cd_canon cd v of
        None \<Rightarrow> Inl (InputError ''connector arguments must be finite JSON data'')
      | Some t \<Rightarrow> Inr t)"

definition bounded_json :: "coders \<Rightarrow> json \<Rightarrow> approval_error + string" where
  "bounded_json cd v =
     bindE (canonical_json cd v) (\<lambda>t.
       if int (length t) > MAX_ARGUMENT_BYTES
       then Inl (InputError ''connector arguments exceed the 262144-byte approval limit'') else Inr t)"

definition arguments_sha :: "coders \<Rightarrow> json \<Rightarrow> approval_error + string" where
  "arguments_sha cd v =
     (if \<not> is_object v then Inl (InputError ''connector arguments must be a JSON object'')
      else bindE (bounded_json cd v) (\<lambda>t. Inr (cd_sha cd t)))"

definition private_arguments :: "coders \<Rightarrow> json \<Rightarrow> approval_error + json" where
  "private_arguments cd v = bindE (bounded_json cd v) (\<lambda>t. Inr (cd_loads cd t))"

definition checked_id :: "string \<Rightarrow> string \<Rightarrow> approval_error + string" where
  "checked_id v label =
     (let n = strip v in
      if n = [] \<or> length n > 256 \<or> CHR 0x00 \<in> set n
      then Inl (InputError (label @ '' is empty or too long'')) else Inr n)"


section \<open>The file\<close>

text \<open>The records in the order of the dictionary; anything else is refused by the loader.\<close>

type_synonym ledger = "(string \<times> approval) list"

datatype ledger_file = No_File | Unusable string | Ledger ledger

definition record_ok :: "coders \<Rightarrow> string \<times> approval \<Rightarrow> bool" where
  "record_ok cd p \<longleftrightarrow> ap_id (snd p) = fst p \<and> ap_status (snd p) \<in> set STATUSES
     \<and> arguments_sha cd (ap_arguments (snd p)) = Inr (ap_sha (snd p))"

definition load_ledger :: "coders \<Rightarrow> ledger_file \<Rightarrow> approval_error + ledger" where
  "load_ledger cd f =
     (case f of
        No_File \<Rightarrow> Inr []
      | Unusable why \<Rightarrow> Inl (LedgerCorrupt why)
      | Ledger l \<Rightarrow> (if list_all (record_ok cd) l then Inr l else Inl (LedgerCorrupt ''record'')))"

definition overdue :: "int \<Rightarrow> approval \<Rightarrow> bool" where
  "overdue now r \<longleftrightarrow> (ap_status r = ''pending'' \<or> ap_status r = ''approved'') \<and> ap_expires r \<le> now"

definition expire_record :: "int \<Rightarrow> approval \<Rightarrow> approval" where
  "expire_record now r =
     (if overdue now r then r\<lparr>ap_status := ''expired'', ap_expired := Some now\<rparr> else r)"

definition expire :: "int \<Rightarrow> ledger \<Rightarrow> bool \<times> ledger" where
  "expire now l = (list_ex (overdue now \<circ> snd) l, map (\<lambda>(i, r). (i, expire_record now r)) l)"

definition terminal_time :: "approval \<Rightarrow> int" where
  "terminal_time r =
     (case ap_consumed r of Some t \<Rightarrow> t
      | None \<Rightarrow> (case ap_expired r of Some t \<Rightarrow> t | None \<Rightarrow> ap_expires r))"

definition terminal :: "approval \<Rightarrow> bool" where
  "terminal r \<longleftrightarrow> ap_status r = ''consumed'' \<or> ap_status r = ''expired''"

definition oldest_terminal :: "ledger \<Rightarrow> string list" where
  "oldest_terminal l =
     map fst (sort_key (\<lambda>p. (terminal_time (snd p), fst p)) (filter (terminal \<circ> snd) l))"

text \<open>Room for one more record: the oldest finished ones go first. The flag is success.\<close>

definition make_space :: "ledger \<Rightarrow> bool \<times> ledger" where
  "make_space l =
     (if length l < MAX_RECORDS then (True, l)
      else
        let gone = take (length l + 1 - MAX_RECORDS) (oldest_terminal l);
            kept = filter (\<lambda>p. fst p \<notin> set gone) l
        in (length kept < MAX_RECORDS, kept))"

text \<open>
  An operation returns its outcome and the ledger it left in memory. When it fails, that ledger
  is written only if something expired before; when it succeeds, if anything changed.
\<close>

definition transaction ::
    "coders \<Rightarrow> int \<Rightarrow> (ledger \<Rightarrow> (approval_error + 'a \<times> bool) \<times> ledger) \<Rightarrow> ledger_file
       \<Rightarrow> (approval_error + 'a) \<times> ledger_file" where
  "transaction cd now operation f =
     (case load_ledger cd f of
        Inl e \<Rightarrow> (Inl e, f)
      | Inr l \<Rightarrow>
          (let (changed, l1) = expire now l in
           case operation l1 of
             (Inl e, l2) \<Rightarrow> (Inl e, if changed then Ledger l2 else f)
           | (Inr (x, written), l2) \<Rightarrow> (Inr x, if changed \<or> written then Ledger l2 else f)))"


section \<open>Receipts\<close>

text \<open>What leaves the ledger: everything but the arguments.\<close>

record receipt =
  rc_id :: string
  rc_status :: string
  rc_run :: string
  rc_connector :: string
  rc_tool :: string
  rc_sha :: string
  rc_created :: int
  rc_expires :: int
  rc_approved :: "int option"
  rc_approver :: "string option"
  rc_consumed :: "int option"
  rc_expired :: "int option"

definition public_receipt :: "approval \<Rightarrow> receipt" where
  "public_receipt r =
     \<lparr>rc_id = ap_id r, rc_status = ap_status r, rc_run = ap_run r, rc_connector = ap_connector r,
      rc_tool = ap_tool r, rc_sha = ap_sha r, rc_created = ap_created r, rc_expires = ap_expires r,
      rc_approved = ap_approved r, rc_approver = ap_approver r, rc_consumed = ap_consumed r,
      rc_expired = ap_expired r\<rparr>"


section \<open>Operations\<close>

definition new_approval ::
    "string \<Rightarrow> string \<Rightarrow> string \<Rightarrow> string \<Rightarrow> json \<Rightarrow> int \<Rightarrow> int \<Rightarrow> approval" where
  "new_approval run connector tool digest arguments now ttl =
     \<lparr>ap_id = [], ap_status = ''pending'', ap_run = run, ap_connector = connector, ap_tool = tool,
      ap_sha = digest, ap_arguments = arguments, ap_created = now, ap_expires = now + ttl * 1000000,
      ap_approved = None, ap_approver = None, ap_consumed = None, ap_expired = None\<rparr>"

definition create_approval ::
    "string list \<Rightarrow> approval \<Rightarrow> ledger \<Rightarrow> (approval_error + receipt \<times> bool) \<times> ledger" where
  "create_approval draws r l =
     (case make_space l of
        (False, l1) \<Rightarrow> (Inl (LimitError ''approval ledger already contains 1024 active requests''), l1)
      | (True, l1) \<Rightarrow>
          (case dropWhile (\<lambda>i. i \<in> fst ` set l1) draws of
             [] \<Rightarrow> (Inl Drawing, l1)
           | i # rest \<Rightarrow>
               (let r1 = r\<lparr>ap_id := i\<rparr> in (Inr (public_receipt r1, True), l1 @ [(i, r1)]))))"

definition request_approval ::
    "coders \<Rightarrow> string list \<Rightarrow> string \<Rightarrow> string \<Rightarrow> string \<Rightarrow> json \<Rightarrow> int \<Rightarrow> int \<Rightarrow> ledger_file
       \<Rightarrow> (approval_error + receipt) \<times> ledger_file" where
  "request_approval cd draws run connector tool arguments ttl now f =
     (if ttl < 1 \<or> ttl > MAX_TTL
      then (Inl (InputError ''approval TTL must be between 1 and 3600 seconds''), f)
      else
        case bindE (private_arguments cd arguments) (\<lambda>private.
             bindE (arguments_sha cd private) (\<lambda>digest.
             bindE (checked_id run ''run_id'') (\<lambda>run.
             bindE (checked_id connector ''connector_id'') (\<lambda>connector.
             bindE (checked_id tool ''tool_name'') (\<lambda>tool.
               Inr (new_approval run connector tool digest private now ttl)))))) of
          Inl e \<Rightarrow> (Inl e, f)
        | Inr r \<Rightarrow> transaction cd now (create_approval draws r) f)"

definition review_record :: "string \<Rightarrow> ledger \<Rightarrow> (approval_error + approval \<times> bool) \<times> ledger" where
  "review_record i l =
     (case map_of l i of
        None \<Rightarrow> (Inl (NotFound (''approval '' @ i @ '' does not exist'')), l)
      | Some r \<Rightarrow> (Inr (r, False), l))"

definition get_for_review ::
    "coders \<Rightarrow> string \<Rightarrow> int \<Rightarrow> ledger_file \<Rightarrow> (approval_error + approval) \<times> ledger_file" where
  "get_for_review cd i now f =
     (case checked_id i ''approval_id'' of
        Inl e \<Rightarrow> (Inl e, f)
      | Inr i \<Rightarrow> transaction cd now (review_record i) f)"

definition list_receipts ::
    "string option \<Rightarrow> ledger \<Rightarrow> (approval_error + receipt list \<times> bool) \<times> ledger" where
  "list_receipts status l =
     (Inr (sort_key (\<lambda>r. (rc_created r, rc_id r))
             (map (public_receipt \<circ> snd)
               (filter (\<lambda>p. status = None \<or> status = Some (ap_status (snd p))) l)), False), l)"

definition list_public ::
    "coders \<Rightarrow> string option \<Rightarrow> int \<Rightarrow> ledger_file \<Rightarrow> (approval_error + receipt list) \<times> ledger_file" where
  "list_public cd status now f =
     (if (case status of None \<Rightarrow> False | Some st \<Rightarrow> st \<notin> set STATUSES)
      then (Inl (InputError ''invalid approval status filter''), f)
      else transaction cd now (list_receipts status) f)"

text \<open>The refusals that approving and consuming share: nothing, or a record that is finished.\<close>

definition reviewable :: "string \<Rightarrow> ledger \<Rightarrow> approval_error + approval" where
  "reviewable i l =
     (case map_of l i of
        None \<Rightarrow> Inl (NotFound (''approval '' @ i @ '' does not exist''))
      | Some r \<Rightarrow>
          (if ap_status r = ''expired'' then Inl (Expired (''approval '' @ i @ '' has expired''))
           else if ap_status r = ''consumed'' then Inl (Replay (''approval '' @ i @ '' was already consumed''))
           else Inr r))"

definition approve_record ::
    "string \<Rightarrow> string \<Rightarrow> int \<Rightarrow> ledger \<Rightarrow> (approval_error + receipt \<times> bool) \<times> ledger" where
  "approve_record i human now l =
     (case reviewable i l of
        Inl e \<Rightarrow> (Inl e, l)
      | Inr r \<Rightarrow>
          (if ap_status r \<noteq> ''pending''
           then (Inl (StateError (''approval '' @ i @ '' is already '' @ ap_status r)), l)
           else
             let r1 = r\<lparr>ap_status := ''approved'', ap_approved := Some now, ap_approver := Some human\<rparr>
             in (Inr (public_receipt r1, True), AList.update i r1 l)))"

definition approve ::
    "coders \<Rightarrow> string \<Rightarrow> string \<Rightarrow> int \<Rightarrow> ledger_file \<Rightarrow> (approval_error + receipt) \<times> ledger_file" where
  "approve cd i human now f =
     (case bindE (checked_id i ''approval_id'') (\<lambda>i.
           bindE (checked_id human ''human_identity'') (\<lambda>h. Inr (i, h))) of
        Inl e \<Rightarrow> (Inl e, f)
      | Inr (i, h) \<Rightarrow> transaction cd now (approve_record i h now) f)"

definition mismatch :: "string \<Rightarrow> string \<Rightarrow> string \<Rightarrow> approval \<Rightarrow> string option" where
  "mismatch run connector tool r =
     (if ap_run r \<noteq> run then Some ''run_id''
      else if ap_connector r \<noteq> connector then Some ''connector_id''
      else if ap_tool r \<noteq> tool then Some ''tool_name'' else None)"

definition consume_record ::
    "coders \<Rightarrow> string \<Rightarrow> string \<Rightarrow> string \<Rightarrow> string \<Rightarrow> json \<Rightarrow> string \<Rightarrow> int \<Rightarrow> ledger
       \<Rightarrow> (approval_error + receipt \<times> bool) \<times> ledger" where
  "consume_record cd i run connector tool arguments digest now l =
     (case reviewable i l of
        Inl e \<Rightarrow> (Inl e, l)
      | Inr r \<Rightarrow>
          (if ap_status r \<noteq> ''approved''
           then (Inl (StateError (''approval '' @ i @ '' is not approved'')), l)
           else case mismatch run connector tool r of
             Some field \<Rightarrow> (Inl (Mismatch (''approval '' @ i @ '' '' @ field @ '' does not match'')), l)
           | None \<Rightarrow>
               (if ap_sha r \<noteq> digest
                then (Inl (Mismatch (''approval '' @ i @ '' argument hash does not match'')), l)
                else case bindE (canonical_json cd (ap_arguments r)) (\<lambda>a.
                          bindE (canonical_json cd arguments) (\<lambda>b. Inr (a = b))) of
                  Inl e \<Rightarrow> (Inl e, l)
                | Inr same \<Rightarrow>
                    (if \<not> same then (Inl (Mismatch (''approval '' @ i @ '' arguments do not match'')), l)
                     else
                       let r1 = r\<lparr>ap_status := ''consumed'', ap_consumed := Some now\<rparr>
                       in (Inr (public_receipt r1, True), AList.update i r1 l)))))"

definition consume ::
    "coders \<Rightarrow> string \<Rightarrow> string \<Rightarrow> string \<Rightarrow> string \<Rightarrow> json \<Rightarrow> int \<Rightarrow> ledger_file
       \<Rightarrow> (approval_error + receipt) \<times> ledger_file" where
  "consume cd i run connector tool arguments now f =
     (case bindE (checked_id i ''approval_id'') (\<lambda>i.
           bindE (checked_id run ''run_id'') (\<lambda>run.
           bindE (checked_id connector ''connector_id'') (\<lambda>connector.
           bindE (checked_id tool ''tool_name'') (\<lambda>tool.
           bindE (private_arguments cd arguments) (\<lambda>private.
           bindE (arguments_sha cd private) (\<lambda>digest.
             Inr (consume_record cd i run connector tool private digest now))))))) of
        Inl e \<Rightarrow> (Inl e, f)
      | Inr operation \<Rightarrow> transaction cd now operation f)"

end
