(* ===== verification/Gateway.thy ===== *)
theory Gateway
  imports Credentials Approvals
begin

text \<open>
  The gateway that every call of a worker to a connector goes through
  (\<^verbatim>\<open>cloud/connector_gateway.py\<close>): the frozen authority, the discovery of the tools, and
  \<open>call_allowed_tool\<close>. The provider, the clock, the digest and the identifiers of new approvals
  are a \<open>gate_env\<close>; the file of approvals, the receipts and the calls that reached a provider
  are the state.
\<close>

section \<open>JSON text\<close>

text \<open>
  \<open>json.dumps\<close> with its two separators and, on request, sorted keys: what is not printable ASCII
  is escaped.
\<close>

definition hex4 :: "nat \<Rightarrow> string" where
  "hex4 n = [CHR ''0'', CHR ''0'', hex_char (n div 16), hex_char (n mod 16)]"

definition json_char :: "char \<Rightarrow> string" where
  "json_char c =
     (let n = of_char c :: nat in
      if c = CHR 34 \<or> c = CHR 0x5C then [CHR 0x5C, c]
      else if n = 8 then [CHR 0x5C, CHR ''b'']
      else if n = 9 then [CHR 0x5C, CHR ''t'']
      else if n = 10 then [CHR 0x5C, CHR ''n'']
      else if n = 12 then [CHR 0x5C, CHR ''f'']
      else if n = 13 then [CHR 0x5C, CHR ''r'']
      else if n < 32 \<or> 126 < n then [CHR 0x5C, CHR ''u''] @ hex4 n
      else [c])"

definition json_str :: "string \<Rightarrow> string" where
  "json_str s = CHR 34 # concat (map json_char s) @ [CHR 34]"

fun json_dumps :: "string \<Rightarrow> string \<Rightarrow> bool \<Rightarrow> json \<Rightarrow> string" where
  "json_dumps comma colon srt JNull = ''null''"
| "json_dumps comma colon srt (JBool b) = (if b then ''true'' else ''false'')"
| "json_dumps comma colon srt (JInt i) = show_int i"
| "json_dumps comma colon srt (JStr s) = json_str s"
| "json_dumps comma colon srt (JArr xs) = ''['' @ join comma (map (json_dumps comma colon srt) xs) @ '']''"
| "json_dumps comma colon srt (JObj kvs) =
     (let members = map (\<lambda>(k, v). (k, json_dumps comma colon srt v)) kvs in
      ''{'' @ join comma (map (\<lambda>(k, t). json_str k @ colon @ t)
        (if srt then sort_key fst members else members)) @ ''}'')"

definition compact_size :: "bool \<Rightarrow> json \<Rightarrow> nat" where
  "compact_size srt v = length (json_dumps '','' '':'' srt v)"

definition argument_size :: "json \<Rightarrow> nat" where
  "argument_size v = length (json_dumps '', '' '': '' True v)"


section \<open>Errors, environment and state\<close>

datatype gate_error =
    GatewayError string
  | CredentialError string
  | Python exn
  | Unfinished

fun error_type :: "gate_error \<Rightarrow> string" where
  "error_type (GatewayError m) = ''ConnectorGatewayError''"
| "error_type (CredentialError m) = ''ConnectorCredentialError''"
| "error_type (Python e) =
     (case e of AttributeError \<Rightarrow> ''AttributeError'' | KeyError \<Rightarrow> ''KeyError'' | ValueError \<Rightarrow> ''ValueError''
      | _ \<Rightarrow> ''TypeError'')"
| "error_type Unfinished = []"

type_synonym 'a gate = "gate_error + 'a"

definition py :: "'a res \<Rightarrow> 'a gate" where
  "py m = (case m of Inl e \<Rightarrow> Inl (Python e) | Inr x \<Rightarrow> Inr x)"

definition cred :: "'a cred \<Rightarrow> 'a gate" where
  "cred m = (case m of Inl e \<Rightarrow> Inl (CredentialError e) | Inr x \<Rightarrow> Inr x)"

text \<open>How a session authenticates: with a Google credential, OAuth, or a stored bearer token.\<close>

datatype session_auth =
    Adc obj
  | OAuth bool string "string option"
  | Bearer string "(string \<times> string) list"

text \<open>
  A call that never reached the provider, one that failed there, and one that was answered. A
  listing of tools has pages.
\<close>

datatype provider_answer = Not_Reached gate_error | Call_Failed string | Answer json bool

record remote_tool =
  rt_name :: string
  rt_title :: json
  rt_description :: string
  rt_schema :: json

type_synonym page = "remote_tool list \<times> string"

record gate_env =
  ge_coders :: coders
  ge_now :: int
  ge_at :: string
  ge_draws :: "string list"
  ge_actor :: string
  ge_ms :: int
  ge_call :: "string \<Rightarrow> session_auth \<Rightarrow> string \<Rightarrow> obj \<Rightarrow> provider_answer"
  ge_page :: "string \<Rightarrow> session_auth \<Rightarrow> string \<Rightarrow> gate_error + page"

record gateway =
  gw_ledger :: ledger_file
  gw_receipts :: "obj list"
  gw_calls :: "(string \<times> session_auth \<times> string \<times> obj) list"

definition MAX_DISCOVERY_PAGES :: nat where "MAX_DISCOVERY_PAGES = 20"
definition MAX_TOOLS :: nat where "MAX_TOOLS = 128"
definition MAX_DISCOVERY_BYTES :: int where "MAX_DISCOVERY_BYTES = 524288"
definition MAX_TOOL_SCHEMA_BYTES :: int where "MAX_TOOL_SCHEMA_BYTES = 65536"
definition MAX_TOOL_DESCRIPTION_BYTES :: int where "MAX_TOOL_DESCRIPTION_BYTES = 4096"
definition GATE_ARGUMENT_BYTES :: int where "GATE_ARGUMENT_BYTES = 262144"
definition MAX_RESULT_BYTES :: int where "MAX_RESULT_BYTES = 1048576"

definition tool_name_char :: "char \<Rightarrow> bool" where
  "tool_name_char c \<longleftrightarrow> ascii_letter c \<or> is_digit c \<or> c \<in> set ''_.:/-''"

definition tool_name_ok :: "string \<Rightarrow> bool" where
  "tool_name_ok s \<longleftrightarrow> s \<noteq> [] \<and> length s \<le> 160 \<and> list_all tool_name_char s"


section \<open>The authority\<close>

text \<open>The file named by the argument or the environment.\<close>

definition load_authority :: "host \<Rightarrow> string \<Rightarrow> obj gate" where
  "load_authority h path =
     (let path1 = (if path \<noteq> [] then path
           else (case ch_env h ''RALLY_CONNECTOR_POLICY'' of None \<Rightarrow> [] | Some p \<Rightarrow> p)) in
      if path1 = [] then Inl (GatewayError ''RALLY_CONNECTOR_POLICY is not set'')
      else
        case ch_files h path1 of
          Some (Some v) \<Rightarrow>
            bindE (py (obj_of v)) (\<lambda>authority.
              if jget ''schema_version'' authority \<noteq> JStr ''rally.connector-authority/v1''
              then Inl (GatewayError ''unsupported connector authority schema'')
              else if jget ''default_decision'' authority \<noteq> JStr ''deny''
              then Inl (GatewayError ''connector authority must default to deny'')
              else Inr authority)
        | _ \<Rightarrow> Inl (GatewayError ''cannot read connector authority''))"

fun find_connector :: "json list \<Rightarrow> string \<Rightarrow> obj gate" where
  "find_connector [] i = Inl (GatewayError (''connector '' @ i @ '' is not enabled for this run''))"
| "find_connector (v # vs) i =
     bindE (py (obj_of v)) (\<lambda>c. if jget ''id'' c = JStr i then Inr c else find_connector vs i)"

definition list_or_empty :: "json \<Rightarrow> json" where
  "list_or_empty v = (if truthy v then v else JArr [])"

definition connector_by_id :: "obj \<Rightarrow> string \<Rightarrow> obj gate" where
  "connector_by_id authority i =
     bindE (py (py_iter (list_or_empty (jget ''connectors'' authority)))) (\<lambda>cs. find_connector cs i)"

definition DEFAULT_GITHUB_TOOLSETS :: "json list" where
  "DEFAULT_GITHUB_TOOLSETS = map JStr GITHUB_TOOLSETS"

definition joined_scopes :: "obj \<Rightarrow> string option res" where
  "joined_scopes auth =
     bindE (py_iter (list_or_empty (jget ''scopes'' auth))) (\<lambda>xs.
     bindE (join_json '' '' xs) (\<lambda>s. Inr (if s = [] then None else Some s)))"

text \<open>\<open>remote_session\<close> up to the connection: the pinned endpoint and how it authenticates.\<close>

definition open_session :: "obj \<Rightarrow> (string \<times> session_auth) gate" where
  "open_session c =
     (if \<not> truthy (jget ''endpoint'' c)
      then Inl (GatewayError (py_str (get_or ''id'' (JStr ''connector'') c)
             @ '' needs an endpoint before it can connect''))
      else
        let endpoint = py_str (jget ''endpoint'' c); name = py_str (jget ''id'' c) in
        bindE (py (obj_of (or_empty (jget ''auth'' c)))) (\<lambda>auth.
        let kind = jget ''type'' auth; service = jget ''keychain_service'' auth in
          if kind = JStr ''google_adc'' then Inr (endpoint, Adc auth)
          else if kind = JStr ''oauth_2_1''
          then
            (if \<not> truthy service then Inl (GatewayError (name @ '' has no OAuth Keychain service''))
             else
               bindE (py (joined_scopes auth)) (\<lambda>scope.
                 if jget ''registration'' auth = JStr ''pre_registered''
                 then bindE (cred (case service of JStr s \<Rightarrow> namespaced_service s
                                   | _ \<Rightarrow> Inl ''invalid Keychain service''))
                        (\<lambda>s. Inr (endpoint, OAuth True s scope))
                 else Inr (endpoint, OAuth False (py_str service) scope)))
          else if kind = JStr ''external_bearer''
          then
            (if \<not> truthy service then Inl (GatewayError (name @ '' has no credential service''))
             else
               bindE (cred (case service of JStr s \<Rightarrow> namespaced_service s
                            | _ \<Rightarrow> Inl ''invalid Keychain service'')) (\<lambda>s.
                 if jget ''id'' c = JStr ''github''
                 then
                   bindE (py (py_iter (list_or_empty (jget ''toolsets'' auth)))) (\<lambda>toolsets.
                   bindE (cred (github_read_only_headers
                       (if toolsets = [] then DEFAULT_GITHUB_TOOLSETS else toolsets))) (\<lambda>headers.
                     Inr (endpoint, Bearer s headers)))
                 else Inr (endpoint, Bearer s [])))
          else Inl (GatewayError (''unsupported auth type for '' @ name))))"


section \<open>Discovery\<close>

definition tool_item :: "remote_tool \<Rightarrow> obj" where
  "tool_item t =
     [(''name'', JStr (rt_name t)), (''title'', rt_title t), (''description'', JStr (rt_description t)),
      (''input_schema'', rt_schema t)]"

text \<open>One page: the tools so far with their names, and their size.\<close>

fun add_tools ::
    "string \<Rightarrow> remote_tool list \<Rightarrow> (string \<times> obj) list \<times> nat \<Rightarrow> ((string \<times> obj) list \<times> nat) gate" where
  "add_tools c [] acc = Inr acc"
| "add_tools c (t # ts) (tools, bytes) =
     (let name = rt_name t; item = tool_item t; bytes1 = bytes + compact_size True (JObj item) in
      if \<not> tool_name_ok name then Inl (GatewayError (c @ '' returned an invalid tool name''))
      else if name \<in> fst ` set tools then Inl (GatewayError (c @ '' returned duplicate tool '' @ name))
      else if int (utf8_length (rt_description t)) > MAX_TOOL_DESCRIPTION_BYTES
      then Inl (GatewayError (c @ ''.'' @ name @ '' description exceeds Rally'' @ [CHR 39] @ ''s limit''))
      else if int (compact_size False (rt_schema t)) > MAX_TOOL_SCHEMA_BYTES
      then Inl (GatewayError (c @ ''.'' @ name @ '' schema exceeds Rally'' @ [CHR 39] @ ''s limit''))
      else if int bytes1 > MAX_DISCOVERY_BYTES
      then Inl (GatewayError (c @ '' tool catalog exceeds Rally'' @ [CHR 39] @ ''s size limit''))
      else if length tools + 1 > MAX_TOOLS
      then Inl (GatewayError (c @ '' returned more than 128 tools''))
      else add_tools c ts (tools @ [(name, item)], bytes1))"

function discover_pages ::
    "gate_env \<Rightarrow> string \<Rightarrow> string \<Rightarrow> session_auth \<Rightarrow> nat \<Rightarrow> string \<Rightarrow> (string \<times> obj) list \<times> nat
       \<Rightarrow> (string \<times> obj) list gate" where
  "discover_pages env c endpoint auth pages cursor acc =
     (if pages \<ge> MAX_DISCOVERY_PAGES
      then Inl (GatewayError (c @ '' exceeded Rally'' @ [CHR 39] @ ''s discovery page limit''))
      else
        case ge_page env endpoint auth cursor of
          Inl e \<Rightarrow> Inl e
        | Inr (ts, next_cursor) \<Rightarrow>
            (case add_tools c ts acc of
               Inl e \<Rightarrow> Inl e
             | Inr acc1 \<Rightarrow>
                 (if next_cursor = [] then Inr (fst acc1)
                  else discover_pages env c endpoint auth (pages + 1) next_cursor acc1)))"
  by pat_completeness auto
termination by (relation "measure (\<lambda>(env, c, endpoint, auth, pages, cursor, acc). MAX_DISCOVERY_PAGES - pages)") auto

declare discover_pages.simps [simp del]

definition discover_endpoint :: "gate_env \<Rightarrow> obj \<Rightarrow> (string \<times> obj) list gate" where
  "discover_endpoint env c =
     bindE (open_session c) (\<lambda>(endpoint, auth).
       discover_pages env (py_str (jget ''id'' c)) endpoint auth 0 [] ([], 0))"

text \<open>A service of a bundle: the connector with that endpoint, without a dispatch of its own.\<close>

definition service_target :: "obj \<Rightarrow> json \<Rightarrow> obj" where
  "service_target c endpoint =
     AList.update ''dispatch'' (JObj [(''strategy'', JStr ''single'')])
       (AList.update ''endpoint'' endpoint c)"

fun add_bundled ::
    "string \<Rightarrow> string \<Rightarrow> (string \<times> obj) list \<Rightarrow> (string \<times> obj) list \<times> nat
       \<Rightarrow> ((string \<times> obj) list \<times> nat) gate" where
  "add_bundled c service [] acc = Inr acc"
| "add_bundled c service ((name, item) # ts) (tools, bytes) =
     (let public = service @ ''.'' @ name;
          item1 = AList.update ''name'' (JStr public) item;
          bytes1 = bytes + compact_size True (JObj item1) in
      if public \<in> fst ` set tools \<or> \<not> tool_name_ok public
      then Inl (GatewayError (c @ '' returned an invalid or duplicate bundled tool''))
      else if int bytes1 > MAX_DISCOVERY_BYTES \<or> length tools \<ge> MAX_TOOLS
      then Inl (GatewayError (c @ '' bundled tool catalog exceeds Rally'' @ [CHR 39] @ ''s limit''))
      else add_bundled c service ts (tools @ [(public, item1)], bytes1))"

fun discover_services ::
    "gate_env \<Rightarrow> obj \<Rightarrow> obj \<Rightarrow> (string \<times> obj) list \<times> nat \<Rightarrow> (string \<times> obj) list gate" where
  "discover_services env c [] acc = Inr (fst acc)"
| "discover_services env c ((service, endpoint) # ss) acc =
     (if \<not> tool_name_ok service
      then Inl (GatewayError (py_str (jget ''id'' c) @ '' has an invalid service name''))
      else
        bindE (discover_endpoint env (service_target c endpoint)) (\<lambda>found.
        bindE (add_bundled (py_str (jget ''id'' c)) service found acc) (\<lambda>acc1.
          discover_services env c ss acc1)))"

definition discover_tools :: "gate_env \<Rightarrow> obj \<Rightarrow> (string \<times> obj) list gate" where
  "discover_tools env c =
     bindE (py (obj_of (or_empty (jget ''dispatch'' c)))) (\<lambda>dispatch.
       if jget ''strategy'' dispatch \<noteq> JStr ''tool_prefix'' then discover_endpoint env c
       else
         (case or_empty (jget ''services'' dispatch) of
            JObj services \<Rightarrow>
              (if services = [] \<or> length services > 16
               then Inl (GatewayError (py_str (jget ''id'' c) @ '' has an invalid service bundle''))
               else if get_or ''separator'' (JStr ''.'') dispatch \<noteq> JStr ''.''
               then Inl (GatewayError (py_str (jget ''id'' c) @ '' has an invalid dispatch separator''))
               else discover_services env c services ([], 0))
          | _ \<Rightarrow> Inl (GatewayError (py_str (jget ''id'' c) @ '' has an invalid service bundle''))))"

definition dispatch_tool :: "obj \<Rightarrow> string \<Rightarrow> (obj \<times> string) gate" where
  "dispatch_tool c public =
     bindE (py (obj_of (or_empty (jget ''dispatch'' c)))) (\<lambda>dispatch.
       if jget ''strategy'' dispatch \<noteq> JStr ''tool_prefix'' then Inr (c, public)
       else
         (case partition_at (CHR ''.'') public of (service, found, remote) \<Rightarrow>
            bindE (py (obj_of (or_empty (jget ''services'' dispatch)))) (\<lambda>services.
              let endpoint = jget service services in
              if \<not> found \<or> \<not> truthy endpoint \<or> remote = []
              then Inl (GatewayError (py_str (jget ''id'' c) @ ''.'' @ public @ '' has no pinned service route''))
              else Inr (service_target c endpoint, remote))))"


section \<open>One call\<close>

text \<open>\<open>value in container\<close> and \<open>len(value) > bound\<close>.\<close>

definition is_infix :: "string \<Rightarrow> string \<Rightarrow> bool" where
  "is_infix s t = list_ex (\<lambda>i. starts_with (drop i t) s) [0..<length t + 1]"

definition py_in :: "json \<Rightarrow> json \<Rightarrow> bool res" where
  "py_in v box =
     (case box of
        JArr xs \<Rightarrow> Inr (mem_py v xs)
      | JStr t \<Rightarrow> (case v of JStr s \<Rightarrow> Inr (is_infix s t) | _ \<Rightarrow> Inl TypeError)
      | JObj kvs \<Rightarrow> (if hashable v then Inr (v \<in> JStr ` set (map fst kvs)) else Inl TypeError)
      | _ \<Rightarrow> Inl TypeError)"

definition py_length :: "json \<Rightarrow> nat option" where
  "py_length v =
     (case v of JStr s \<Rightarrow> Some (length s) | JArr xs \<Rightarrow> Some (length xs) | JObj kvs \<Rightarrow> Some (length kvs)
      | _ \<Rightarrow> None)"

definition too_long :: "json \<Rightarrow> json \<Rightarrow> bool res" where
  "too_long v bound =
     (case py_length v of
        None \<Rightarrow> Inr True
      | Some n \<Rightarrow>
          (case bound of JInt b \<Rightarrow> Inr (b < int n) | JBool b \<Rightarrow> Inr ((if b then 1 else 0) < n)
           | _ \<Rightarrow> Inl TypeError))"

definition argument_failure :: "obj \<Rightarrow> string \<times> json \<Rightarrow> string option res" where
  "argument_failure args rule =
     (case rule of (name, c) \<Rightarrow>
        bindE (obj_of c) (\<lambda>c.
          case map_of args name of
            None \<Rightarrow> Inr (if truthy (jget ''required'' c) then Some ''required_argument_missing'' else None)
          | Some v \<Rightarrow>
              bindE (case map_of c ''allowed_values'' of None \<Rightarrow> Inr True | Some box \<Rightarrow> py_in v box) (\<lambda>inside.
                if \<not> inside then Inr (Some ''argument_outside_allowlist'')
                else
                  bindE (case map_of c ''max_length'' of None \<Rightarrow> Inr False | Some n \<Rightarrow> too_long v n) (\<lambda>long.
                    Inr (if long then Some ''argument_too_long'' else None)))))"

fun arguments_failure :: "obj \<Rightarrow> obj \<Rightarrow> string option res" where
  "arguments_failure args [] = Inr None"
| "arguments_failure args (r # rs) =
     bindE (argument_failure args r) (\<lambda>f.
       case f of Some reason \<Rightarrow> Inr (Some reason) | None \<Rightarrow> arguments_failure args rs)"

definition constraint_failure :: "obj \<Rightarrow> obj \<Rightarrow> string option res" where
  "constraint_failure rule args =
     bindE (obj_of (or_empty (jget ''constraints'' rule))) (\<lambda>constraints.
     bindE (obj_of (or_empty (jget ''arguments'' constraints))) (\<lambda>rules.
       arguments_failure args rules))"

definition json_hash :: "gate_env \<Rightarrow> json \<Rightarrow> string" where
  "json_hash env v = cd_sha (ge_coders env) (json_dumps '','' '':'' True v)"

text \<open>A receipt holds hashes and decisions, never the arguments or the result.\<close>

definition write_receipt :: "gate_env \<Rightarrow> obj \<Rightarrow> obj \<Rightarrow> gateway \<Rightarrow> gateway" where
  "write_receipt env authority content g =
     (if \<not> truthy (jget ''receipt_path'' authority) then g
      else g\<lparr>gw_receipts := gw_receipts g
        @ [[(''at'', JStr (ge_at env)), (''run_id'', jget ''run_id'' authority),
            (''actor'', JStr (ge_actor env))] @ content]\<rparr>)"

definition decision :: "gate_env \<Rightarrow> string \<Rightarrow> string \<Rightarrow> json \<Rightarrow> string \<Rightarrow> obj \<Rightarrow> obj \<Rightarrow> obj" where
  "decision env c tool risk verdict args rest =
     [(''connector_id'', JStr c), (''tool'', JStr tool), (''risk'', risk), (''decision'', JStr verdict),
      (''arguments_sha256'', JStr (json_hash env (JObj args)))] @ rest"

definition byte_bound :: "string \<Rightarrow> int \<Rightarrow> obj \<Rightarrow> int res" where
  "byte_bound name cap constraints =
     bindE (py_int (get_or name (JInt cap) constraints)) (\<lambda>n. Inr (min n cap))"

fun approval_name :: "approval_error \<Rightarrow> string" where
  "approval_name (InputError m) = ''ApprovalInputError''"
| "approval_name (NotFound m) = ''ApprovalNotFound''"
| "approval_name (StateError m) = ''ApprovalStateError''"
| "approval_name (Expired m) = ''ApprovalExpired''"
| "approval_name (Replay m) = ''ApprovalReplay''"
| "approval_name (Mismatch m) = ''ApprovalMismatch''"
| "approval_name (LimitError m) = ''ApprovalLimitError''"
| "approval_name (LedgerCorrupt m) = ''ApprovalLedgerCorrupt''"
| "approval_name Drawing = []"

fun approval_text :: "approval_error \<Rightarrow> string" where
  "approval_text (InputError m) = m"
| "approval_text (NotFound m) = m"
| "approval_text (StateError m) = m"
| "approval_text (Expired m) = m"
| "approval_text (Replay m) = m"
| "approval_text (Mismatch m) = m"
| "approval_text (LimitError m) = m"
| "approval_text (LedgerCorrupt m) = m"
| "approval_text Drawing = []"

text \<open>Asking the ledger and consuming, for the run of the authority.\<close>

type_synonym ledger_answer = "(approval_error + receipt) gate"

definition ask_ledger ::
    "gate_env \<Rightarrow> obj \<Rightarrow> string \<Rightarrow> string \<Rightarrow> obj \<Rightarrow> ledger_file \<Rightarrow> ledger_answer \<times> ledger_file" where
  "ask_ledger env authority c tool args f =
     (let cd = ge_coders env in
      case map_of authority ''run_id'' of
        None \<Rightarrow> (Inl (Python KeyError), f)
      | Some (JStr run) \<Rightarrow>
          apfst Inr (request_approval cd (ge_draws env) run c tool (JObj args) 300 (ge_now env) f)
      | Some _ \<Rightarrow>
          (Inr (bindE (private_arguments cd (JObj args)) (\<lambda>p. bindE (arguments_sha cd p) (\<lambda>_.
             Inl (InputError ''run_id must be a string'')))), f))"

definition spend_approval ::
    "gate_env \<Rightarrow> obj \<Rightarrow> string \<Rightarrow> string \<Rightarrow> obj \<Rightarrow> string \<Rightarrow> ledger_file \<Rightarrow> ledger_answer \<times> ledger_file" where
  "spend_approval env authority c tool args approval f =
     (let cd = ge_coders env in
      case map_of authority ''run_id'' of
        None \<Rightarrow> (Inl (Python KeyError), f)
      | Some (JStr run) \<Rightarrow> apfst Inr (consume cd approval run c tool (JObj args) (ge_now env) f)
      | Some _ \<Rightarrow>
          (Inr (bindE (checked_id approval ''approval_id'') (\<lambda>_.
             Inl (InputError ''run_id must be a string''))), f))"

definition perform_call ::
    "gate_env \<Rightarrow> obj \<Rightarrow> obj \<Rightarrow> string \<Rightarrow> string \<Rightarrow> json \<Rightarrow> obj \<Rightarrow> obj \<Rightarrow> string option \<Rightarrow> gateway
       \<Rightarrow> json gate \<times> gateway" where
  "perform_call env authority c cid tool risk args constraints approval g =
     (let fail = (\<lambda>e g1. (Inl e, write_receipt env authority (decision env cid tool risk ''failed'' args
            [(''error_type'', JStr (error_type e)), (''duration_ms'', JInt (ge_ms env))]) g1)) in
      case bindE (dispatch_tool c tool) (\<lambda>(target, remote).
           bindE (open_session target) (\<lambda>(endpoint, auth). Inr (endpoint, auth, remote))) of
        Inl e \<Rightarrow> fail e g
      | Inr (endpoint, auth, remote) \<Rightarrow>
          (let g1 = g\<lparr>gw_calls := gw_calls g @ [(endpoint, auth, remote, args)]\<rparr> in
           case ge_call env endpoint auth remote args of
             Not_Reached e \<Rightarrow> fail e g
           | Call_Failed m \<Rightarrow>
               fail (GatewayError (py_str (jget ''id'' c) @ '' connection failed: '' @ take 500 m)) g1
           | Answer payload is_error \<Rightarrow>
               (case py (byte_bound ''max_result_bytes'' MAX_RESULT_BYTES constraints) of
                  Inl e \<Rightarrow> fail e g1
                | Inr limit \<Rightarrow>
                    (let size = compact_size False payload in
                     if limit < int size
                     then fail (GatewayError (cid @ ''.'' @ tool @ '' result exceeds Rally'' @ [CHR 39]
                            @ ''s size limit'')) g1
                     else
                       (Inr payload, write_receipt env authority (decision env cid tool risk ''allowed'' args
                          ([(''result_sha256'', JStr (json_hash env payload)),
                            (''result_is_error'', JBool is_error),
                            (''argument_bytes'', JInt (int (argument_size (JObj args)))),
                            (''result_bytes'', JInt (int size)), (''duration_ms'', JInt (ge_ms env))]
                           @ opt_field ''approval_id'' JStr approval)) g1)))))"

definition approved_call ::
    "gate_env \<Rightarrow> obj \<Rightarrow> obj \<Rightarrow> string \<Rightarrow> string \<Rightarrow> json \<Rightarrow> obj \<Rightarrow> obj \<Rightarrow> string option \<Rightarrow> gateway
       \<Rightarrow> json gate \<times> gateway" where
  "approved_call env authority c cid tool risk args constraints approval g =
     (let refuse = (\<lambda>e g1.
            (Inl (GatewayError (cid @ ''.'' @ tool @ '' approval was refused: '' @ approval_text e)),
             write_receipt env authority (decision env cid tool risk ''denied'' args
               [(''approval_id'', case approval of None \<Rightarrow> JNull | Some i \<Rightarrow> JStr i),
                (''reason'', JStr (approval_name e))]) g1)) in
      case (if truthy (jget ''approval_path'' authority)
            then bindE (py (obj_of (or_empty (jget ''policy'' authority)))) (\<lambda>policy.
              Inr (truthy (jget ''human_approval_tools_enabled'' policy)))
            else Inr False) of
        Inl e \<Rightarrow> (Inl e, g)
      | Inr False \<Rightarrow> (Inl (GatewayError ''human approval is not enabled for this run''), g)
      | Inr True \<Rightarrow>
          (case approval of
             None \<Rightarrow>
               (case ask_ledger env authority cid tool args (gw_ledger g) of
                  (Inl e, f) \<Rightarrow> (Inl e, g\<lparr>gw_ledger := f\<rparr>)
                | (Inr (Inl Drawing), f) \<Rightarrow> (Inl Unfinished, g\<lparr>gw_ledger := f\<rparr>)
                | (Inr (Inl e), f) \<Rightarrow> refuse e (g\<lparr>gw_ledger := f\<rparr>)
                | (Inr (Inr pending), f) \<Rightarrow>
                    (Inl (GatewayError (cid @ ''.'' @ tool @ '' requires human approval '' @ rc_id pending
                       @ '' before execution'')),
                     write_receipt env authority (decision env cid tool risk ''pending_approval'' args
                       [(''approval_id'', JStr (rc_id pending)),
                        (''reason'', JStr ''human_approval_required'')]) (g\<lparr>gw_ledger := f\<rparr>)))
           | Some i \<Rightarrow>
               (case spend_approval env authority cid tool args i (gw_ledger g) of
                  (Inl e, f) \<Rightarrow> (Inl e, g\<lparr>gw_ledger := f\<rparr>)
                | (Inr (Inl e), f) \<Rightarrow> refuse e (g\<lparr>gw_ledger := f\<rparr>)
                | (Inr (Inr spent), f) \<Rightarrow>
                    perform_call env authority c cid tool risk args constraints (Some (rc_id spent))
                      (g\<lparr>gw_ledger := f\<rparr>))))"

definition guarded_call ::
    "gate_env \<Rightarrow> obj \<Rightarrow> obj \<Rightarrow> string \<Rightarrow> string \<Rightarrow> obj \<Rightarrow> obj \<Rightarrow> string option \<Rightarrow> gateway
       \<Rightarrow> json gate \<times> gateway" where
  "guarded_call env authority c cid tool rule args approval g =
     (let risk = jget ''risk'' rule; size = argument_size (JObj args) in
      case py (bindE (obj_of (or_empty (jget ''constraints'' rule))) (\<lambda>constraints.
               bindE (byte_bound ''max_argument_bytes'' GATE_ARGUMENT_BYTES constraints) (\<lambda>limit.
               bindE (constraint_failure rule args) (\<lambda>failure. Inr (constraints, limit, failure))))) of
        Inl e \<Rightarrow> (Inl e, g)
      | Inr (constraints, limit, failure) \<Rightarrow>
          (if limit < int size \<or> failure \<noteq> None
           then
             let reason = (case failure of None \<Rightarrow> ''arguments_too_large'' | Some r \<Rightarrow> r) in
             (Inl (GatewayError (cid @ ''.'' @ tool @ '' arguments violate Rally policy: '' @ reason)),
              write_receipt env authority (decision env cid tool risk ''denied'' args
                [(''argument_bytes'', JInt (int size)), (''reason'', JStr reason)]) g)
           else if risk = JStr ''verify_first''
           then
             (Inl (GatewayError (cid @ ''.'' @ tool @ '' requires independent pre-execution verification'')),
              write_receipt env authority (decision env cid tool risk ''denied'' args
                [(''reason'', JStr ''independent_pre_execution_verifier_unavailable'')]) g)
           else if risk = JStr ''human_approval''
           then approved_call env authority c cid tool risk args constraints approval g
           else perform_call env authority c cid tool risk args constraints None g))"

definition policy_rule :: "obj \<Rightarrow> string \<Rightarrow> (bool \<times> obj) gate" where
  "policy_rule c tool =
     bindE (py (obj_of (or_empty (jget ''tool_policy'' c)))) (\<lambda>policy.
       if truthy (jget tool policy)
       then bindE (py (obj_of (jget tool policy))) (\<lambda>rule. Inr (jget ''risk'' rule \<noteq> JStr ''deny'', rule))
       else Inr (False, []))"

definition call_allowed_tool ::
    "gate_env \<Rightarrow> obj \<Rightarrow> string \<Rightarrow> string \<Rightarrow> obj option \<Rightarrow> string option \<Rightarrow> gateway
       \<Rightarrow> json gate \<times> gateway" where
  "call_allowed_tool env authority cid tool arguments approval g =
     (let args = (case arguments of None \<Rightarrow> [] | Some a \<Rightarrow> a) in
      case bindE (connector_by_id authority cid) (\<lambda>c. bindE (policy_rule c tool) (\<lambda>r. Inr (c, r))) of
        Inl e \<Rightarrow> (Inl e, g)
      | Inr (c, False, rule) \<Rightarrow>
          (Inl (GatewayError (cid @ ''.'' @ tool @ '' is not on this run'' @ [CHR 39] @ ''s tool allowlist'')),
           write_receipt env authority (decision env cid tool (get_or ''risk'' (JStr ''deny'') rule) ''denied''
             args [(''reason'', JStr ''not_allowlisted'')]) g)
      | Inr (c, True, rule) \<Rightarrow> guarded_call env authority c cid tool rule args approval g)"

text \<open>The three tools the gateway offers.\<close>

definition gateway_call ::
    "gate_env \<Rightarrow> host \<Rightarrow> string \<Rightarrow> string \<Rightarrow> obj option \<Rightarrow> string option \<Rightarrow> gateway
       \<Rightarrow> json gate \<times> gateway" where
  "gateway_call env h cid tool arguments approval g =
     (case load_authority h [] of
        Inl e \<Rightarrow> (Inl e, g)
      | Inr authority \<Rightarrow> call_allowed_tool env authority cid tool arguments approval g)"

definition readable_tools :: "obj \<Rightarrow> string list res" where
  "readable_tools policy =
     bindE (mapE (\<lambda>(name, rule). bindE (obj_of rule) (\<lambda>r. Inr (name, jget ''risk'' r = JStr ''read''))) policy)
       (\<lambda>rows. Inr (sort (map fst (filter snd rows))))"

definition public_row :: "json \<Rightarrow> json res" where
  "public_row v =
     bindE (obj_of v) (\<lambda>c.
       if map_of c ''id'' = None \<or> map_of c ''name'' = None then Inl KeyError
       else
         bindE (obj_of (or_empty (jget ''tool_policy'' c))) (\<lambda>policy.
         bindE (readable_tools policy) (\<lambda>tools.
           Inr (JObj [(''id'', jget ''id'' c), (''name'', jget ''name'' c),
             (''ready'', JBool (truthy (jget ''endpoint'' c) \<or> truthy (jget ''dispatch'' c))),
             (''allowed_tools'', strs tools)]))))"

definition public_connector_list :: "obj \<Rightarrow> obj res" where
  "public_connector_list authority =
     (case map_of authority ''default_decision'' of
        None \<Rightarrow> Inl KeyError
      | Some d \<Rightarrow>
          bindE (py_iter (list_or_empty (jget ''connectors'' authority))) (\<lambda>cs.
          bindE (mapE public_row cs) (\<lambda>rows.
            Inr [(''default_decision'', d), (''connectors'', JArr rows)])))"

definition gateway_list :: "host \<Rightarrow> obj gate" where
  "gateway_list h = bindE (load_authority h []) (\<lambda>authority. py (public_connector_list authority))"

definition gateway_tools :: "gate_env \<Rightarrow> host \<Rightarrow> string \<Rightarrow> obj gate" where
  "gateway_tools env h cid =
     bindE (load_authority h []) (\<lambda>authority.
     bindE (connector_by_id authority cid) (\<lambda>c.
     bindE (discover_tools env c) (\<lambda>tools.
     bindE (py (mapE (\<lambda>(name, item).
         bindE (obj_of (or_empty (jget ''tool_policy'' c))) (\<lambda>policy.
         bindE (obj_of (or_empty (jget name policy))) (\<lambda>rule.
           Inr (JObj (item @ [(''allowed'', JBool (jget ''risk'' rule = JStr ''read'')),
             (''risk'', get_or ''risk'' (JStr ''deny'') rule)]))))) tools)) (\<lambda>rows.
       Inr [(''connector_id'', JStr cid), (''tools'', JArr rows)]))))"

end
