(* ===== verification/Connectors_Correct.thy ===== *)
theory Connectors_Correct
  imports Connectors
begin

text \<open>
  What the configuration of connectors guarantees: an endpoint that passed validation is confined
  to its provider and passes again unchanged, the catalog holds validated entries, a policy is a
  fixed point of its normalisation, and a frozen authority holds only what one user enabled.
\<close>

section \<open>Endpoints\<close>

definition confined :: "host \<Rightarrow> obj \<Rightarrow> string \<Rightarrow> bool" where
  "confined h item url \<longleftrightarrow>
     (case urlsplit (ch_address h) url of
        None \<Rightarrow> False
      | Some u \<Rightarrow>
          su_scheme u = ''https'' \<and> endpoint_host u \<noteq> [] \<and> \<not> has_credentials u
          \<and> su_query u = [] \<and> su_fragment u = [] \<and> url_port u \<in> {Some None, Some (Some 443)}
          \<and> (case (str_list ''allowed_endpoint_hosts'' item, str_list ''allowed_endpoint_suffixes'' item) of
               (Inr hosts, Inr suffixes) \<Rightarrow> host_allowed hosts suffixes (endpoint_host u)
             | _ \<Rightarrow> False)
          \<and> (case str_list ''allowed_endpoint_exact_paths'' item of
               Inr exact \<Rightarrow> exact = [] \<or> su_path u \<in> set exact | _ \<Rightarrow> False)
          \<and> (case str_list ''allowed_endpoint_paths'' item of
               Inr prefixes \<Rightarrow> prefixes = [] \<or> list_ex (starts_with (su_path u)) prefixes | _ \<Rightarrow> False))"

lemma empty_netloc_host: "su_netloc u = [] \<Longrightarrow> endpoint_host u = []"
  by (simp add: endpoint_host_def url_hostname_def host_info_def rpartition_at_def partition_at_def
      rstrip_dots_def lower_def)

text \<open>Validation puts together what it took apart.\<close>

lemma validate_endpoint_split:
  assumes "validate_endpoint h item v = Inr url"
  obtains u where "urlsplit (ch_address h) v = Some u" "urlsplit (ch_address h) url = Some u"
    "url = urlunsplit ''https'' (su_netloc u) (su_path u)"
proof -
  obtain u where u: "urlsplit (ch_address h) v = Some u" "su_scheme u = ''https''" "endpoint_host u \<noteq> []"
    "su_query u = []" "su_fragment u = []" "url = urlunsplit ''https'' (su_netloc u) (su_path u)"
    using assms
    by (auto simp: validate_endpoint_def returns item_error_def config_error_def split: option.splits if_splits)
  then have "su_netloc u \<noteq> []" using empty_netloc_host by blast
  then have "urlsplit (ch_address h) url = Some \<lparr>su_scheme = ''https'', su_netloc = su_netloc u,
      su_path = su_path u, su_query = [], su_fragment = []\<rparr>"
    unfolding u(6) by (intro urlsplit_urlunsplit urlsplit_plain [OF u(1)])
  moreover have "u = \<lparr>su_scheme = ''https'', su_netloc = su_netloc u, su_path = su_path u, su_query = [],
      su_fragment = []\<rparr>" using u(2,4,5) by simp
  ultimately show thesis using that u(1,6) by simp
qed

lemma validate_endpoint_again:
  assumes "validate_endpoint h item v = Inr url"
  shows "validate_endpoint h item url = Inr url"
proof -
  obtain u where "urlsplit (ch_address h) v = Some u" "urlsplit (ch_address h) url = Some u"
    using assms by (rule validate_endpoint_split)
  with assms show ?thesis by (simp add: validate_endpoint_def)
qed

lemma validate_endpoint_confined:
  assumes "validate_endpoint h item v = Inr url"
  shows "confined h item url"
proof -
  obtain u where "urlsplit (ch_address h) url = Some u"
    using assms by (rule validate_endpoint_split)
  with validate_endpoint_again [OF assms] show ?thesis
    by (auto simp: validate_endpoint_def confined_def returns item_error_def config_error_def
        split: option.splits if_splits)
qed

lemma endpoint_of_confined: "endpoint_of h item override = Inr url \<Longrightarrow> url = [] \<or> confined h item url"
  by (auto simp: endpoint_of_def returns item_error_def config_error_def
      split: if_splits option.splits dest: validate_endpoint_confined)

text \<open>A provider that does not allow it cannot be moved by an override.\<close>

lemma endpoint_of_fixed:
  assumes "endpoint_of h item override = Inr url" and "\<not> truthy (jget ''allow_endpoint_override'' item)"
  shows "endpoint_of h item (JObj []) = Inr url"
proof -
  from assms(1) obtain ov where ov: "override = JObj ov"
    by (auto simp: endpoint_of_def returns obj_of_def split: json.splits)
  with assms have "\<not> truthy (jget ''endpoint'' ov)"
    by (auto simp: endpoint_of_def obj_of_def item_error_def config_error_def)
  with assms(1) ov show ?thesis by (simp add: endpoint_of_def obj_of_def jget_def)
qed


section \<open>The catalog\<close>

lemma mapE_each: "mapE f xs = Inr ys \<Longrightarrow> x \<in> set xs \<Longrightarrow> \<exists>y. f x = Inr y"
  by (induction xs arbitrary: ys) (auto simp: returns)

definition catalog_ok :: "host \<Rightarrow> catalog \<Rightarrow> bool" where
  "catalog_ok h cat \<longleftrightarrow> (\<forall>(i, item) \<in> set cat. jget ''id'' item = i \<and> truthy (jget ''name'' item)
     \<and> jget ''runtime'' item \<in> {JStr ''gateway'', JStr ''roadmap''} \<and> validate_catalog_entry h item = Inr ())"

lemma pd_set_new: "pd_get k d = None \<Longrightarrow> pd_set k v d = d @ [(k, v)]"
  by (induction d) (auto split: if_splits)

lemma load_entries_ok:
  "load_entries h es cat = Inr cat' \<Longrightarrow> catalog_ok h cat \<Longrightarrow> catalog_ok h cat'"
proof (induction es arbitrary: cat)
  case (Cons e es)
  from Cons.prems(1) obtain item where e: "e = JObj item" by (cases e) (auto simp: config_error_def)
  let ?i = "jget ''id'' item"
  from Cons.prems(1) have new: "pd_get ?i cat = None" "truthy (jget ''name'' item)"
    "jget ''runtime'' item \<in> {JStr ''gateway'', JStr ''roadmap''}" "validate_catalog_entry h item = Inr ()"
    "load_entries h es (pd_set ?i item cat) = Inr cat'"
    by (auto simp: e config_error_def Let_def returns in_names_def split: if_splits)
  with Cons.prems(2) have "catalog_ok h (pd_set ?i item cat)" by (auto simp: catalog_ok_def pd_set_new)
  with new(5) Cons.IH show ?case by blast
qed simp

lemma load_catalog_ok:
  assumes "load_catalog h cfg = Inr (cat, path)"
  shows "catalog_ok h cat"
proof -
  from assms obtain entries where "load_entries h entries [] = Inr cat"
    by (auto simp: load_catalog_def returns config_error_def split: if_splits json.splits)
  then show ?thesis by (rule load_entries_ok) (simp add: catalog_ok_def)
qed

lemma catalog_ok_entry:
  assumes "catalog_ok h cat" and "pd_get i cat = Some item"
  shows "py_eq (jget ''id'' item) i" "validate_catalog_entry h item = Inr ()"
proof -
  from pd_get_in [OF assms(2)] obtain k where "(k, item) \<in> set cat" "py_eq k i" by blast
  with assms(1) show "py_eq (jget ''id'' item) i" "validate_catalog_entry h item = Inr ()"
    by (auto simp: catalog_ok_def)
qed

text \<open>The services of a bundle are pinned one by one.\<close>

definition bundle_ok :: "host \<Rightarrow> obj \<Rightarrow> obj \<Rightarrow> bool" where
  "bundle_ok h item services \<longleftrightarrow> distinct (map fst services)
     \<and> (\<forall>(service, endpoint) \<in> set services. tool_prefix_ok service
          \<and> (\<exists>url. endpoint = JStr url \<and> url \<noteq> [] \<and> confined h item url))"

lemma py_eq_keys:
  assumes "py_eq (JObj kvs) (JObj kvs')"
  shows "mset (map fst kvs) = mset (map fst kvs')"
proof -
  have keys: "mset (map fst (sort_key fst (map (\<lambda>(k, v). (k, py_canon v)) kvs))) = mset (map fst kvs)" for kvs
  proof -
    have "image_mset fst (mset (sort_key fst (map (\<lambda>(k, v). (k, py_canon v)) kvs)))
      = image_mset fst (mset (map (\<lambda>(k, v). (k, py_canon v)) kvs))" by (simp only: mset_sort)
    also have "\<dots> = mset (map fst kvs)"
      by (simp add: image_mset.compositionality comp_def case_prod_beta)
    finally show ?thesis by simp
  qed
  from assms have "sort_key fst (map (\<lambda>(k, v). (k, py_canon v)) kvs) = sort_key fst (map (\<lambda>(k, v). (k, py_canon v)) kvs')"
    by (simp add: py_eq_def)
  then show ?thesis using keys by metis
qed

lemma confined_not_empty: "confined h item url \<Longrightarrow> url \<noteq> []"
  by (auto simp: confined_def urlsplit_def url_clean_def split_scheme_def partition_at_def brackets_ok_def Let_def)

lemma connector_dispatch_bundle:
  assumes "connector_dispatch h item = Inr raw" and "jget ''dispatch'' item \<noteq> JNull"
  shows "jget ''dispatch'' item = JObj raw \<and> raw \<noteq> [] \<and> jget ''strategy'' raw = JStr ''tool_prefix''
    \<and> (\<exists>services. jget ''services'' raw = JObj services \<and> bundle_ok h item services)"
proof -
  from assms have d: "jget ''dispatch'' item = JObj raw"
    by (auto simp: connector_dispatch_def item_error_def config_error_def returns split: json.splits if_splits)
  let ?check = "\<lambda>(prefix, endpoint).
    if \<not> tool_prefix_ok prefix then config_error ''google-workspace has an invalid tool prefix''
    else bindE (validate_endpoint h item (py_str endpoint)) (\<lambda>url. guardE (JStr url = endpoint)
      (ConnectorConfigError ''google-workspace service endpoint is not in canonical form''))"
  obtain services where sv: "jget ''services'' raw = JObj services"
    using assms(1) d
    by (cases "jget ''services'' raw") (auto simp: connector_dispatch_def item_error_def config_error_def split: if_splits)
  have st: "jget ''strategy'' raw = JStr ''tool_prefix''"
    using assms(1) d sv by (simp add: connector_dispatch_def item_error_def config_error_def split: if_splits)
  have eq: "py_eq (JObj services) (JObj GOOGLE_WORKSPACE_ENDPOINTS)"
    using assms(1) d sv by (simp add: connector_dispatch_def item_error_def config_error_def split: if_splits)
  obtain us where us: "mapE ?check services = Inr us"
    using assms(1) d sv eq
    by (cases "mapE ?check services") (simp_all add: connector_dispatch_def item_error_def config_error_def split: if_splits)
  note s = st sv eq us
  have "distinct (map fst GOOGLE_WORKSPACE_ENDPOINTS)" by code_simp
  then have "distinct (map fst services)" using py_eq_keys [OF s(3)] mset_eq_imp_distinct_iff by blast
  moreover have "tool_prefix_ok service \<and> (\<exists>url. endpoint = JStr url \<and> url \<noteq> [] \<and> confined h item url)"
    if "(service, endpoint) \<in> set services" for service endpoint
  proof -
    from mapE_each [OF s(4) that] obtain u where "?check (service, endpoint) = Inr u" by blast
    then have p: "tool_prefix_ok service" and e: "bindE (validate_endpoint h item (py_str endpoint)) (\<lambda>url.
        guardE (JStr url = endpoint) (ConnectorConfigError
          ''google-workspace service endpoint is not in canonical form'')) = Inr u"
      by (simp_all add: config_error_def split: if_splits)
    from e obtain url where url: "validate_endpoint h item (py_str endpoint) = Inr url" "JStr url = endpoint"
      unfolding bindE_returns guardE_returns by blast
    from validate_endpoint_confined [OF url(1)] have "confined h item url" .
    with p url(2) confined_not_empty show ?thesis by blast
  qed
  moreover have "raw \<noteq> []" using s(1) by (auto simp: jget_def)
  ultimately show ?thesis using d s(1,2) by (auto simp: bundle_ok_def)
qed

text \<open>A provider with a pin is at its pin.\<close>

lemma pinned_endpoint:
  assumes "validate_catalog_entry h item = Inr ()" "jget ''runtime'' item = JStr ''gateway''"
    and "jget ''id'' item = JStr i" "map_of PINNED_PROVIDER_ENDPOINTS i = Some pin"
  shows "endpoint_of h item (JObj []) = Inr pin"
  using assms
  by (auto simp: validate_catalog_entry_def returns item_error_def config_error_def split: if_splits)


section \<open>Policies\<close>

lemma to_obj_pobj [simp]: "to_obj (map (\<lambda>(k, x). (JStr k, x)) kvs) = kvs"
  by (induction kvs) (auto simp: to_obj_def key_text_def)

lemma pobj_to_obj:
  assumes "fst ` set c \<subseteq> range JStr"
  shows "map (\<lambda>(k, x). (JStr k, x)) (to_obj c) = c"
  using assms by (induction c) (auto simp: to_obj_def key_text_def)

lemma py_dict_JObj [simp]: "py_dict (JObj kvs) = Inr (map (\<lambda>(k, x). (JStr k, x)) kvs)"
  by (simp add: py_dict_def)

lemma py_dict_or_empty [simp]: "py_dict (or_empty (JObj kvs)) = Inr (map (\<lambda>(k, x). (JStr k, x)) kvs)"
  by (simp add: or_empty_def)

lemma pd_get_pobj [simp]: "pd_get (JStr k) (map (\<lambda>(k, x). (JStr k, x)) kvs) = map_of kvs k"
  by (induction kvs) auto

lemma pget_pobj [simp]: "pget k d (map (\<lambda>(k, x). (JStr k, x)) kvs) = get_or k d kvs"
  by (simp add: pget_def get_or_def)

lemma pget_simps [simp]:
  "pget k d [] = d" "pget k d ((JStr k', v) # m) = (if k' = k then v else pget k d m)"
  by (simp_all add: pget_def)

lemma argument_constraint_again:
  assumes "argument_constraint label raw = Inr c"
  shows "argument_constraint label c = Inr c"
proof -
  from assms obtain m where m: "set (map fst m) \<subseteq> JStr ` {''required'', ''allowed_values'', ''max_length''}"
    "\<not> (case pd_get (JStr ''allowed_values'') m of None \<Rightarrow> False | Some (JArr vs) \<Rightarrow> False | _ \<Rightarrow> True)"
    "\<not> (case pd_get (JStr ''max_length'') m of None \<Rightarrow> False | Some n \<Rightarrow> \<not> positive_int n)" "c = JObj (to_obj m)"
    by (auto simp: argument_constraint_def returns config_error_def split: if_splits)
  then have "map (\<lambda>(k, x). (JStr k, x)) (to_obj m) = m" by (intro pobj_to_obj) auto
  then have "py_dict (or_empty c) = Inr m" using m(4) by simp
  with m show ?thesis by (simp add: argument_constraint_def)
qed

lemma mapE_again:
  assumes "mapE f xs = Inr ys" and "\<And>x y. f x = Inr y \<Longrightarrow> f y = Inr y"
  shows "mapE f ys = Inr ys"
  using assms by (induction xs arbitrary: ys) (auto simp: returns)

lemma byte_limit_returns:
  "byte_limit label constraints name = Inr l \<Longrightarrow>
     l = [] \<or> (\<exists>n. l = [(name, n)] \<and> positive_int n)"
  by (auto simp: byte_limit_def config_error_def split: option.splits if_splits)

lemma tool_constraints_again:
  assumes "tool_constraints label raw = Inr c"
  shows "tool_constraints label (JObj c) = Inr c"
proof -
  let ?check = "\<lambda>(argument, c). bindE (argument_constraint (label @ '' argument '' @ argument) c) (\<lambda>c. Inr (argument, c))"
  from assms obtain rules arguments constraints al rl where
    a: "mapE ?check rules = Inr arguments" "byte_limit label constraints ''max_argument_bytes'' = Inr al"
      "byte_limit label constraints ''max_result_bytes'' = Inr rl"
      "c = (if arguments = [] then [] else [(''arguments'', JObj arguments)]) @ al @ rl"
    by (auto simp: tool_constraints_def Let_def returns config_error_def split: json.splits if_splits)
  have again: "mapE ?check arguments = Inr arguments"
    using a(1) by (rule mapE_again) (auto simp: returns argument_constraint_again)
  from byte_limit_returns [OF a(2)] byte_limit_returns [OF a(3)] a(4)
  have keys: "filter (\<lambda>k. k \<notin> {''arguments'', ''max_argument_bytes'', ''max_result_bytes''}) (map fst c) = []"
    and limits: "byte_limit label c ''max_argument_bytes'' = Inr al" "byte_limit label c ''max_result_bytes'' = Inr rl"
    and args: "or_empty (jget ''arguments'' c) = JObj arguments"
    by (auto simp: byte_limit_def jget_def or_empty_def)
  have "or_empty (JObj c) = JObj c" by (simp add: or_empty_def)
  with again keys limits args show ?thesis
    unfolding tool_constraints_def Let_def by (simp add: a(4) [symmetric])
qed

lemma tool_rule_again:
  assumes "tool_rule connector p = Inr q"
  shows "tool_rule connector q = Inr q"
proof -
  obtain name v where p: "p = (name, v)" by fastforce
  from assms p obtain rule risk c where r: "in_names RISK_CLASSES risk = Inr True"
    "tool_constraints (connector @ '' tool '' @ name) (pget ''constraints'' JNull rule) = Inr c"
    "q = (name, JObj ((''risk'', risk) # (if c = [] then [] else [(''constraints'', JObj c)])))"
    by (auto simp: tool_rule_def Let_def returns config_error_def split: if_splits)
  have empty: "tool_constraints label JNull = Inr []" for label
    by (simp add: tool_constraints_def or_empty_def jget_def Let_def byte_limit_def)
  show ?thesis
  proof (cases "c = []")
    case True
    with r(1) empty show ?thesis by (simp add: tool_rule_def r(3) Let_def or_empty_def)
  next
    case False
    with r(1) tool_constraints_again [OF r(2)] show ?thesis
      by (simp add: tool_rule_def r(3) Let_def or_empty_def)
  qed
qed

lemma tool_policy_returns:
  assumes "tool_policy connector override = Inr policy"
  obtains tools where "mapE (tool_rule connector) tools = Inr policy"
proof -
  from assms obtain ov where "(case or_empty (jget ''tools'' ov) of JObj tools \<Rightarrow> mapE (tool_rule connector) tools
      | _ \<Rightarrow> config_error (connector @ '' tools must be an object'')) = Inr policy"
    by (auto simp: tool_policy_def returns)
  with that show thesis by (cases "or_empty (jget ''tools'' ov)") (simp_all add: config_error_def)
qed

text \<open>Reading a normalised policy back gives the same policy.\<close>

lemma tool_policy_again:
  assumes "tool_policy connector override = Inr policy"
  shows "tool_policy connector (JObj [(''tools'', JObj policy)]) = Inr policy"
proof -
  from assms obtain tools where "mapE (tool_rule connector) tools = Inr policy"
    by (rule tool_policy_returns)
  then have "mapE (tool_rule connector) policy = Inr policy"
    by (rule mapE_again) (rule tool_rule_again)
  then show ?thesis by (simp add: tool_policy_def obj_of_def jget_def or_empty_def)
qed

lemma tool_policy_risks:
  assumes "tool_policy connector override = Inr policy" and "(tool, rule) \<in> set policy"
  shows "\<exists>kvs. rule = JObj kvs \<and> jget ''risk'' kvs \<in> JStr ` set RISK_CLASSES"
proof -
  from assms(1) obtain tools where "mapE (tool_rule connector) tools = Inr policy"
    by (rule tool_policy_returns)
  from mapE_set [OF this assms(2)] obtain p where "tool_rule connector p = Inr (tool, rule)" by blast
  then show ?thesis
    by (auto simp: tool_rule_def Let_def returns config_error_def in_names_def jget_def split: if_splits prod.splits)
qed


section \<open>The frozen authority\<close>

text \<open>What the snapshot says about one connector.\<close>

definition granted_connector :: "host \<Rightarrow> catalog \<Rightarrow> settings \<Rightarrow> string \<Rightarrow> json \<Rightarrow> bool" where
  "granted_connector h cat s subject v \<longleftrightarrow>
     (\<exists>c i item url policy auth. v = JObj c \<and> jget ''id'' c = i \<and> i \<in> set (se_enabled s)
        \<and> pd_get i cat = Some item \<and> jget ''runtime'' item = JStr ''gateway''
        \<and> jget ''endpoint'' c = JStr url \<and> (url = [] \<or> confined h item url)
        \<and> (truthy (jget ''allow_endpoint_override'' item) \<or> endpoint_of h item (JObj []) = Inr url)
        \<and> jget ''tool_policy'' c = JObj policy \<and> tool_policy (py_str i) (override_for i s) = Inr policy
        \<and> jget ''auth'' c = JObj (to_obj auth)
        \<and> (subject = ''local'' \<or> pget ''type'' JNull auth \<noteq> JStr ''google_adc''
           \<or> truthy (pget ''credential_file'' JNull auth))
        \<and> (jget ''dispatch'' c = JNull
           \<or> (\<exists>raw services. jget ''dispatch'' c = JObj raw \<and> raw \<noteq> []
                \<and> jget ''strategy'' raw = JStr ''tool_prefix'' \<and> jget ''services'' raw = JObj services
                \<and> bundle_ok h item services)))"

lemma active_connector_granted:
  assumes "active_connector h cfg subject cat s i = Inr v" and "i \<in> set (se_enabled s)" and "catalog_ok h cat"
  shows "granted_connector h cat s subject v"
proof -
  from assms(1) obtain item where item: "pd_get i cat = Some item" "jget ''runtime'' item = JStr ''gateway''"
    by (auto simp: active_connector_def config_error_def split: option.splits if_splits)
  with assms(1) obtain url resolved policy where a: "endpoint_of h item (override_for i s) = Inr url"
    "configured_connector h cfg i subject = Inr resolved"
    "\<not> (pget ''type'' JNull (co_auth resolved) = JStr ''google_adc'' \<and> subject \<noteq> ''local''
        \<and> \<not> truthy (pget ''credential_file'' JNull (co_auth resolved)))"
    "tool_policy (py_str i) (override_for i s) = Inr policy"
    by (auto simp: active_connector_def config_error_def Let_def returns split: if_splits)
  let ?tail = "if truthy (jget ''dispatch'' item) then [(''dispatch'', jget ''dispatch'' item)] else []"
  have v: "v = JObj ([(''id'', i), (''name'', jget ''name'' item),
        (''transport'', get_or ''transport'' (JStr ''streamable_http'') item), (''endpoint'', JStr url),
        (''endpoint_required'', JBool (\<not> (url \<noteq> [] \<or> truthy (jget ''dispatch'' item)))),
        (''auth'', JObj (to_obj (co_auth resolved))), (''tool_policy'', JObj policy),
        (''docs_url'', get_or ''docs_url'' (JStr []) item)] @ ?tail)"
    using assms(1) item a by (simp add: active_connector_def Let_def if_bool_eq_conj split: if_splits)
  note confined = endpoint_of_confined [OF a(1)] endpoint_of_fixed [OF a(1)]
  obtain c where c: "v = JObj c" "jget ''id'' c = i" "jget ''endpoint'' c = JStr url"
    "jget ''tool_policy'' c = JObj policy" "jget ''auth'' c = JObj (to_obj (co_auth resolved))"
    "jget ''dispatch'' c = (if truthy (jget ''dispatch'' item) then jget ''dispatch'' item else JNull)"
    using v by (auto simp: jget_def)
  have "validate_catalog_entry h item = Inr ()" using catalog_ok_entry(2) [OF assms(3) item(1)] .
  then obtain raw where raw: "connector_dispatch h item = Inr raw"
    using item(2) by (auto simp: validate_catalog_entry_def returns item_error_def config_error_def split: if_splits)
  have "jget ''dispatch'' c = JNull \<or> (\<exists>raw services. jget ''dispatch'' c = JObj raw \<and> raw \<noteq> []
      \<and> jget ''strategy'' raw = JStr ''tool_prefix'' \<and> jget ''services'' raw = JObj services
      \<and> bundle_ok h item services)"
    using connector_dispatch_bundle [OF raw] c(6) by auto
  with c item a confined assms(2) show ?thesis unfolding granted_connector_def by blast
qed

lemma snapshot_parts:
  assumes "authority_snapshot h cfg run receipt_path subject approval_path = Inr a"
  obtains cat path s active where "load_catalog h cfg = Inr (cat, path)"
    "installation_settings h cfg subject = Inr s"
    "mapE (active_connector h cfg subject cat s) (se_enabled s) = Inr active"
    "jget ''connectors'' a = JArr active" "jget ''default_decision'' a = JStr ''deny''"
    "jget ''schema_version'' a = JStr ''rally.connector-authority/v1''" "map_of a ''run_id'' = Some (JStr run)"
    "jget ''policy'' a = snapshot_policy"
  using assms
  by (auto simp: authority_snapshot_def returns config_error_def Let_def jget_def split: if_splits)

lemma snapshot_granted:
  assumes "authority_snapshot h cfg run receipt_path subject approval_path = Inr a"
  obtains cat path s active where "load_catalog h cfg = Inr (cat, path)"
    "installation_settings h cfg subject = Inr s" "jget ''connectors'' a = JArr active"
    "\<forall>v \<in> set active. granted_connector h cat s subject v"
proof -
  obtain cat path s active where p: "load_catalog h cfg = Inr (cat, path)"
    "installation_settings h cfg subject = Inr s"
    "mapE (active_connector h cfg subject cat s) (se_enabled s) = Inr active" "jget ''connectors'' a = JArr active"
    using snapshot_parts [OF assms] by metis
  have "granted_connector h cat s subject v" if "v \<in> set active" for v
    using mapE_set [OF p(3) that] active_connector_granted load_catalog_ok [OF p(1)] by blast
  with p that show thesis by blast
qed


section \<open>Saving the settings of one user\<close>

definition saved :: "host \<Rightarrow> string \<Rightarrow> json \<Rightarrow> host" where
  "saved h path v = h\<lparr>ch_files := (ch_files h)(path := Some (Some v))\<rparr>"

lemma saved_simps [simp]:
  "ch_files (saved h path v) path = Some (Some v)" "ch_root (saved h path v) = ch_root h"
  "profile_id (saved h path v) subject = profile_id h subject"
  "path_of (saved h path v) = path_of h" "DEFAULT_LOCAL (saved h path v) = DEFAULT_LOCAL h"
  by (auto simp add: saved_def profile_id_def path_of_def DEFAULT_LOCAL_def fun_eq_iff split: json.split)

lemma pd_set_pobj: "to_obj (pd_set (JStr k) v (map (\<lambda>(k, x). (JStr k, x)) kvs)) = AList.update k v kvs"
proof (induction kvs)
  case (Cons p kvs)
  then show ?case using to_obj_pobj [of kvs] by (cases p) (auto simp: to_obj_def key_text_def)
qed (simp add: to_obj_def key_text_def)

lemma jget_update: "jget k (AList.update k' v kvs) = (if k = k' then v else jget k kvs)"
  by (simp add: jget_def update_conv')

text \<open>The file with the settings, and the profiles in it.\<close>

definition local_path :: "host \<Rightarrow> obj \<Rightarrow> string res" where
  "local_path h cfg =
     bindE (py_dict (or_empty (jget ''connectors'' cfg))) (\<lambda>committed.
       path_of h (pget ''local'' (JStr []) committed) (DEFAULT_LOCAL h))"

definition stored_settings :: "host \<Rightarrow> string \<Rightarrow> obj res" where
  "stored_settings h path = (if ch_files h path = None then Inr [] else read_json h path)"

lemma settings_parts:
  assumes "installation_settings h cfg subject = Inr s"
  obtains kvs profiles where "stored_settings h (se_path s) = Inr kvs"
    "or_empty (jget ''profiles'' kvs) = JObj profiles" "se_profile s = profile_id h subject"
    "local_path h cfg = Inr (se_path s)"
proof -
  from assms obtain committed path kvs profiles where
    "py_dict (or_empty (jget ''connectors'' cfg)) = Inr committed"
    "path_of h (pget ''local'' (JStr []) committed) (DEFAULT_LOCAL h) = Inr path"
    "(if ch_files h path = None then Inr [] else read_json h path) = Inr kvs"
    "or_empty (jget ''profiles'' kvs) = JObj profiles" "se_path s = path" "se_profile s = profile_id h subject"
    unfolding installation_settings_def by (auto simp: returns Let_def)
  with that show thesis by (simp add: local_path_def stored_settings_def)
qed

lemma local_path_saved: "local_path (saved h path v) cfg = local_path h cfg"
  by (simp add: local_path_def)

lemma settings_read:
  assumes "local_path h cfg = Inr path" and "ch_files h path = Some (Some (JObj kvs))"
    and "jget ''profiles'' kvs = JObj profiles" and "profiles \<noteq> []"
  shows "installation_settings h cfg subject =
    bindE (py_dict (or_empty (jget ''connectors'' cfg))) (\<lambda>committed.
    bindE (obj_of (or_empty (jget (profile_id h subject) profiles))) (\<lambda>own.
    bindE (py_dict (or_empty (pget ''overrides'' JNull committed))) (\<lambda>base.
    bindE (py_dict (or_empty (jget ''overrides'' own))) (\<lambda>changes.
    let enabled = get_or ''enabled''
          (if subject = ''local'' then pget ''enabled'' (JArr []) committed else JArr []) own in
    bindE (if truthy enabled then py_iter enabled else Inr []) (\<lambda>enabled.
      Inr \<lparr>se_enabled = enabled, se_overrides = fold (\<lambda>(k, v) d. pd_set k v d) changes base,
           se_path = path, se_profile = profile_id h subject\<rparr>)))))"
proof -
  from assms(1) obtain committed where c: "py_dict (or_empty (jget ''connectors'' cfg)) = Inr committed"
    "path_of h (pget ''local'' (JStr []) committed) (DEFAULT_LOCAL h) = Inr path"
    by (auto simp: local_path_def returns)
  have "(if ch_files h path = None then Inr [] else read_json h path) = Inr kvs"
    using assms(2) by (simp add: read_json_def)
  moreover have "or_empty (jget ''profiles'' kvs) = JObj profiles" using assms(3,4) by (simp add: or_empty_def)
  moreover have "obj_of (JObj profiles) = Inr profiles" by (simp add: obj_of_def)
  ultimately show ?thesis using c assms(4) by (simp add: installation_settings_def Let_def)
qed

lemma save_parts:
  assumes "save_local_settings h cfg enabled overrides subject = Inr (path, v)"
  obtains kvs profiles where "stored_settings h path = Inr kvs" "local_path h cfg = Inr path"
    "or_empty (jget ''profiles'' kvs) = JObj profiles"
    "v = JObj [(''schema_version'', JStr ''rally.connector-installation/v2''),
      (''profiles'', JObj (AList.update (profile_id h subject)
        (JObj [(''enabled'', strs (sort (remdups enabled))), (''overrides'', JObj overrides)]) profiles))]"
proof -
  from assms obtain s where s: "installation_settings h cfg subject = Inr s" "path = se_path s"
    by (auto simp: save_local_settings_def returns)
  from settings_parts [OF s(1)] obtain kvs profiles where p: "stored_settings h (se_path s) = Inr kvs"
    "or_empty (jget ''profiles'' kvs) = JObj profiles" "se_profile s = profile_id h subject"
    "local_path h cfg = Inr (se_path s)" .
  have "v = JObj [(''schema_version'', JStr ''rally.connector-installation/v2''),
      (''profiles'', JObj (AList.update (profile_id h subject)
        (JObj [(''enabled'', strs (sort (remdups enabled))), (''overrides'', JObj overrides)]) profiles))]"
    using assms s p
    by (simp add: save_local_settings_def stored_settings_def pd_set_pobj)
  with p s(2) that show thesis by simp
qed

text \<open>What is saved for a user is what that user has afterwards.\<close>

lemma saved_settings:
  assumes "save_local_settings h cfg enabled overrides subject = Inr (path, v)"
    and "installation_settings (saved h path v) cfg subject = Inr s"
  shows "se_enabled s = map JStr (sort (remdups enabled))"
    and "\<exists>base. se_overrides s = fold (\<lambda>(k, v) d. pd_set k v d) (map (\<lambda>(k, x). (JStr k, x)) overrides) base"
proof -
  let ?own = "[(''enabled'', strs (sort (remdups enabled))), (''overrides'', JObj overrides)]"
  from save_parts [OF assms(1)] obtain kvs profiles where p: "local_path h cfg = Inr path"
    "v = JObj [(''schema_version'', JStr ''rally.connector-installation/v2''),
      (''profiles'', JObj (AList.update (profile_id h subject) (JObj ?own) profiles))]" by metis
  let ?ps = "AList.update (profile_id h subject) (JObj ?own) profiles"
  have "?ps \<noteq> []" by (cases profiles) auto
  with p have r: "local_path (saved h path v) cfg = Inr path"
    "ch_files (saved h path v) path = Some (Some (JObj [(''schema_version'', JStr ''rally.connector-installation/v2''),
      (''profiles'', JObj ?ps)]))" "?ps \<noteq> []"
    by (simp_all add: local_path_saved)
  have own: "or_empty (jget (profile_id h subject) ?ps) = JObj ?own" by (simp add: jget_update or_empty_def)
  have iter: "(if truthy (strs xs) then Inr (map JStr xs) else Inr []) = Inr (map JStr xs)" for xs
    by simp
  have fields: "jget ''overrides'' ?own = JObj overrides" "get_or ''enabled'' d ?own = strs (sort (remdups enabled))"
    "obj_of (JObj ?own) = Inr ?own" for d by (simp_all add: jget_def get_or_def obj_of_def)
  have "jget ''profiles'' [(''schema_version'', JStr ''rally.connector-installation/v2''), (''profiles'', JObj ?ps)]
      = JObj ?ps" by (simp add: jget_def)
  note read = settings_read [OF r(1,2) this r(3), of subject]
  have "bindE (py_dict (or_empty (jget ''connectors'' cfg))) (\<lambda>committed.
      bindE (py_dict (or_empty (pget ''overrides'' JNull committed))) (\<lambda>base.
        Inr \<lparr>se_enabled = map JStr (sort (remdups enabled)),
          se_overrides = fold (\<lambda>(k, v) d. pd_set k v d) (map (\<lambda>(k, x). (JStr k, x)) overrides) base,
          se_path = path, se_profile = profile_id h subject\<rparr>)) = Inr s"
    using assms(2) unfolding read by (simp add: own fields iter Let_def del: truthy.simps cong: if_cong)
  then obtain base where "s = \<lparr>se_enabled = map JStr (sort (remdups enabled)),
      se_overrides = fold (\<lambda>(k, v) d. pd_set k v d) (map (\<lambda>(k, x). (JStr k, x)) overrides) base,
      se_path = path, se_profile = profile_id h subject\<rparr>"
    by (auto simp: returns)
  then show "se_enabled s = map JStr (sort (remdups enabled))"
    "\<exists>base. se_overrides s = fold (\<lambda>(k, v) d. pd_set k v d) (map (\<lambda>(k, x). (JStr k, x)) overrides) base"
    by auto
qed

text \<open>Another user keeps every setting, once the file has profiles.\<close>

lemma other_settings:
  assumes "save_local_settings h cfg enabled overrides subject = Inr (path, v)"
    and "profile_id h other \<noteq> profile_id h subject"
    and "stored_settings h path = Inr kvs" and "jget ''profiles'' kvs = JObj profiles" and "profiles \<noteq> []"
  shows "installation_settings (saved h path v) cfg other = installation_settings h cfg other"
proof -
  let ?own = "JObj [(''enabled'', strs (sort (remdups enabled))), (''overrides'', JObj overrides)]"
  let ?ps = "AList.update (profile_id h subject) ?own profiles"
  obtain kvs' ps where q: "stored_settings h path = Inr kvs'" "local_path h cfg = Inr path"
    "or_empty (jget ''profiles'' kvs') = JObj ps"
    "v = JObj [(''schema_version'', JStr ''rally.connector-installation/v2''),
      (''profiles'', JObj (AList.update (profile_id h subject) ?own ps))]"
    using assms(1) by (rule save_parts)
  then have "ps = profiles" using assms(3-5) by (simp add: or_empty_def)
  with q have p: "local_path h cfg = Inr path"
    "v = JObj [(''schema_version'', JStr ''rally.connector-installation/v2''), (''profiles'', JObj ?ps)]"
    by simp_all
  have stored: "ch_files h path = Some (Some (JObj kvs))"
  proof -
    have "kvs \<noteq> []" using assms(4) by (auto simp: jget_def)
    with assms(3) show ?thesis
      by (auto simp: stored_settings_def read_json_def config_error_def split: if_splits option.splits json.splits)
  qed
  let ?new = "[(''schema_version'', JStr ''rally.connector-installation/v2''), (''profiles'', JObj ?ps)]"
  have new: "?ps \<noteq> []" by (cases profiles) auto
  have get: "jget ''profiles'' ?new = JObj ?ps" by (simp add: jget_def)
  have path: "local_path (saved h path v) cfg = Inr path" using p(1) by (simp add: local_path_saved)
  have content: "ch_files (saved h path v) path = Some (Some (JObj ?new))" using p(2) by simp
  show ?thesis
    unfolding settings_read [OF path content get new, of other] settings_read [OF p(1) stored assms(4,5), of other]
    using assms(2) by (simp add: jget_update)
qed

end
