(* ===== verification/Approvals_Correct.thy ===== *)
theory Approvals_Correct
  imports Approvals
begin

text \<open>
  What the ledger of approvals guarantees over every sequence of operations: a record only moves
  along its life cycle, and a call is let through only for exactly what was asked and approved,
  in time, and once.
\<close>

section \<open>Steps of one record\<close>

inductive life :: "int \<Rightarrow> approval \<Rightarrow> approval \<Rightarrow> bool" for now where
  Stay: "life now r r"
| Expire: "overdue now r \<Longrightarrow> life now r (r\<lparr>ap_status := ''expired'', ap_expired := Some now\<rparr>)"
| Approve: "ap_status r = ''pending'' \<Longrightarrow> now < ap_expires r \<Longrightarrow>
    life now r (r\<lparr>ap_status := ''approved'', ap_approved := Some now, ap_approver := Some human\<rparr>)"
| Consume: "ap_status r = ''approved'' \<Longrightarrow> now < ap_expires r \<Longrightarrow>
    life now r (r\<lparr>ap_status := ''consumed'', ap_consumed := Some now\<rparr>)"

definition ledger_of :: "ledger_file \<Rightarrow> ledger" where
  "ledger_of f = (case f of Ledger l \<Rightarrow> l | _ \<Rightarrow> [])"

lemma ledger_of_simps [simp]:
  "ledger_of No_File = []" "ledger_of (Unusable why) = []" "ledger_of (Ledger l) = l"
  by (simp_all add: ledger_of_def)

text \<open>A transaction leaves the file alone, or leaves what the operation made of the expired ledger.\<close>

lemma transaction_cases:
  assumes "transaction cd now operation f = (res, f')"
  obtains (Same) "ledger_of f' = ledger_of f" 
      "(\<exists>e. res = Inl e) \<or> (\<exists>x l. operation (snd (expire now (ledger_of f))) = (Inr (x, False), l))"
  | (Left) e l where "operation (snd (expire now (ledger_of f))) = (Inl e, l)" "res = Inl e" "ledger_of f' = l"
  | (Right) x written l where "operation (snd (expire now (ledger_of f))) = (Inr (x, written), l)" "res = Inr x"
      "ledger_of f' = l"
proof (cases "load_ledger cd f")
  case (Inl e)
  with assms show thesis by (intro Same) (auto simp: transaction_def)
next
  case (Inr l)
  then have l: "l = ledger_of f" by (auto simp: load_ledger_def split: ledger_file.splits if_splits)
  obtain changed l1 where e: "expire now l = (changed, l1)" by fastforce
  obtain r l2 where o: "operation l1 = (r, l2)" by fastforce
  show thesis
  proof (cases r)
    case (Inl err)
    with assms Inr e o l Left Same show thesis by (auto simp: transaction_def split: if_splits)
  next
    case r: (Inr p)
    obtain x written where p: "p = (x, written)" by (cases p)
    show thesis
    proof (cases "changed \<or> written")
      case True
      with assms Inr e o l p r Right show thesis by (auto simp: transaction_def)
    next
      case False
      with assms Inr e o l p r Same show thesis by (auto simp: transaction_def)
    qed
  qed
qed

lemma expire_record_life: "life now r (expire_record now r)"
  by (auto simp: expire_record_def intro: life.intros)

lemma expired_in: "(i, r) \<in> set (snd (expire now l)) \<Longrightarrow> \<exists>r0. (i, r0) \<in> set l \<and> r = expire_record now r0"
  by (auto simp: expire_def)

lemma expire_keys: "map fst (snd (expire now l)) = map fst l"
  by (simp add: expire_def comp_def case_prod_beta)

text \<open>A record that is still open after the expiry was so before, and is in time.\<close>

lemma expire_record_open:
  "ap_status (expire_record now r) = ''pending'' \<Longrightarrow> expire_record now r = r \<and> now < ap_expires r"
  "ap_status (expire_record now r) = ''approved'' \<Longrightarrow> expire_record now r = r \<and> now < ap_expires r"
  by (auto simp: expire_record_def overdue_def split: if_splits)


section \<open>What each operation does to the ledger\<close>

lemma set_update_entry: "p \<in> set (AList.update k v xs) \<Longrightarrow> p = (k, v) \<or> p \<in> set xs"
  by (induction xs) (auto split: if_splits)

lemma make_space_sub: "make_space l = (ok, l1) \<Longrightarrow> set l1 \<subseteq> set l \<and> (ok \<longrightarrow> length l1 < MAX_RECORDS)
    \<and> (distinct (map fst l) \<longrightarrow> distinct (map fst l1)) \<and> length l1 \<le> length l"
  by (auto simp: make_space_def Let_def distinct_map_filter split: if_splits)

lemma create_cases:
  assumes "create_approval draws r l = (res, l2)"
  obtains (Failed) e where "res = Inl e" "set l2 \<subseteq> set l" "length l2 \<le> length l"
      "distinct (map fst l) \<Longrightarrow> distinct (map fst l2)"
  | (Created) i l1 where "res = Inr (public_receipt (r\<lparr>ap_id := i\<rparr>), True)" "l2 = l1 @ [(i, r\<lparr>ap_id := i\<rparr>)]"
      "set l1 \<subseteq> set l" "i \<notin> fst ` set l1" "i \<in> set draws" "length l2 \<le> MAX_RECORDS"
      "distinct (map fst l) \<Longrightarrow> distinct (map fst l1)"
proof -
  obtain ok l1 where m: "make_space l = (ok, l1)" by fastforce
  note sub = make_space_sub [OF m]
  show thesis
  proof (cases ok)
    case False
    with assms m sub Failed show thesis by (auto simp: create_approval_def)
  next
    case True
    show thesis
    proof (cases "dropWhile (\<lambda>i. i \<in> fst ` set l1) draws")
      case Nil
      have "(res, l2) = (Inl Drawing, l1)" using assms m True Nil by (simp add: create_approval_def)
      with sub Failed show thesis by simp
    next
      case (Cons i rest)
      then have "i \<notin> fst ` set l1" "i \<in> set draws"
        by (metis hd_dropWhile list.distinct(1) list.sel(1), metis list.set_intros(1) set_dropWhileD)
      moreover have "(res, l2) = (Inr (public_receipt (r\<lparr>ap_id := i\<rparr>), True), l1 @ [(i, r\<lparr>ap_id := i\<rparr>)])"
        using assms m True Cons by (simp add: create_approval_def Let_def)
      ultimately show thesis using Created [of i l1] True sub by simp
    qed
  qed
qed

lemma approve_cases:
  assumes "approve_record i human now l = (res, l2)"
  obtains (Failed) e where "res = Inl e" "l2 = l"
  | (Approved) r where "map_of l i = Some r" "ap_status r = ''pending''"
      "l2 = AList.update i (r\<lparr>ap_status := ''approved'', ap_approved := Some now, ap_approver := Some human\<rparr>) l"
      "res = Inr (public_receipt (r\<lparr>ap_status := ''approved'', ap_approved := Some now, ap_approver := Some human\<rparr>), True)"
proof (cases "map_of l i")
  case None
  with assms Failed show thesis by (auto simp: approve_record_def reviewable_def)
next
  case (Some r)
  show thesis
  proof (cases "ap_status r = ''pending''")
    case True
    with assms Some Approved show thesis by (auto simp: approve_record_def reviewable_def Let_def)
  next
    case False
    with assms Some Failed show thesis by (auto simp: approve_record_def reviewable_def split: if_splits)
  qed
qed

lemma consume_cases:
  assumes "consume_record cd i run connector tool arguments digest now l = (res, l2)"
  obtains (Failed) e where "res = Inl e" "l2 = l"
  | (Consumed) r t where "map_of l i = Some r" "ap_status r = ''approved''" "ap_run r = run"
      "ap_connector r = connector" "ap_tool r = tool" "ap_sha r = digest"
      "cd_canon cd (ap_arguments r) = Some t" "cd_canon cd arguments = Some t"
      "l2 = AList.update i (r\<lparr>ap_status := ''consumed'', ap_consumed := Some now\<rparr>) l"
      "res = Inr (public_receipt (r\<lparr>ap_status := ''consumed'', ap_consumed := Some now\<rparr>), True)"
proof (cases "map_of l i")
  case None
  with assms Failed show thesis by (auto simp: consume_record_def reviewable_def)
next
  case (Some r)
  show thesis
  proof (cases "ap_status r = ''approved'' \<and> mismatch run connector tool r = None \<and> ap_sha r = digest
      \<and> (\<exists>t. cd_canon cd (ap_arguments r) = Some t \<and> cd_canon cd arguments = Some t)")
    case True
    then obtain t where "cd_canon cd (ap_arguments r) = Some t" "cd_canon cd arguments = Some t" by blast
    moreover from True have "ap_run r = run" "ap_connector r = connector" "ap_tool r = tool"
      by (auto simp: mismatch_def split: if_splits)
    ultimately show thesis using assms Some True Consumed
      by (auto simp: consume_record_def reviewable_def canonical_json_def Let_def)
  next
    case False
    with assms Some Failed show thesis
      by (auto simp: consume_record_def reviewable_def canonical_json_def Let_def
          split: if_splits option.splits)
  qed
qed


text \<open>An operation that succeeds has something to write.\<close>

lemma writes:
  "create_approval draws r l = (Inr (x, w), l') \<Longrightarrow> w"
  "approve_record i human now l = (Inr (x, w), l') \<Longrightarrow> w"
  "consume_record cd i run connector tool arguments digest now l = (Inr (x, w), l') \<Longrightarrow> w"
  by ((erule create_cases, auto), (erule approve_cases, auto), (erule consume_cases, auto))


section \<open>Sequences of operations\<close>

datatype approval_op =
    Ask "string list" string string string json int int
  | Look_At string int
  | Show_All "string option" int
  | Approve_It string string int
  | Consume_It string string string string json int

definition receipt_given :: "approval_error + receipt \<Rightarrow> receipt option" where
  "receipt_given res = (case res of Inl e \<Rightarrow> None | Inr q \<Rightarrow> Some q)"

fun ap_step :: "coders \<Rightarrow> approval_op \<Rightarrow> ledger_file \<Rightarrow> receipt option \<times> ledger_file" where
  "ap_step cd (Ask draws run connector tool args ttl now) f =
     apfst receipt_given (request_approval cd draws run connector tool args ttl now f)"
| "ap_step cd (Look_At i now) f = (None, snd (get_for_review cd i now f))"
| "ap_step cd (Show_All status now) f = (None, snd (list_public cd status now f))"
| "ap_step cd (Approve_It i human now) f = apfst receipt_given (approve cd i human now f)"
| "ap_step cd (Consume_It i run connector tool args now) f =
     apfst receipt_given (consume cd i run connector tool args now f)"

fun ap_run_ops :: "coders \<Rightarrow> approval_op list \<Rightarrow> ledger_file \<Rightarrow> ledger_file" where
  "ap_run_ops cd [] f = f"
| "ap_run_ops cd (op # ops) f = ap_run_ops cd ops (snd (ap_step cd op f))"

fun ap_log :: "coders \<Rightarrow> approval_op list \<Rightarrow> ledger_file \<Rightarrow> (approval_op \<times> receipt option) list" where
  "ap_log cd [] f = []"
| "ap_log cd (op # ops) f = (op, fst (ap_step cd op f)) # ap_log cd ops (snd (ap_step cd op f))"

lemma ap_run_ops_append: "ap_run_ops cd (as @ bs) f = ap_run_ops cd bs (ap_run_ops cd as f)"
  by (induction as arbitrary: f) simp_all

lemma ap_log_append: "ap_log cd (as @ bs) f = ap_log cd as f @ ap_log cd bs (ap_run_ops cd as f)"
  by (induction as arbitrary: f) simp_all

lemma ap_log_split:
  assumes "ap_log cd ops f = pre @ (op, out) # post"
  obtains as bs where "ops = as @ op # bs" "ap_log cd as f = pre" "fst (ap_step cd op (ap_run_ops cd as f)) = out"
  using assms
proof (induction ops arbitrary: f pre thesis)
  case (Cons o1 ops)
  show thesis
  proof (cases pre)
    case Nil
    with Cons.prems show thesis by (auto intro: Cons.prems(1) [of "[]" ops])
  next
    case (Cons e pre')
    with Cons.prems(2) have "ap_log cd ops (snd (ap_step cd o1 f)) = pre' @ (op, out) # post"
      "e = (o1, fst (ap_step cd o1 f))" by simp_all
    with Cons.IH [of "snd (ap_step cd o1 f)" pre'] obtain as bs where
      "ops = as @ op # bs" "ap_log cd as (snd (ap_step cd o1 f)) = pre'"
      "fst (ap_step cd op (ap_run_ops cd as (snd (ap_step cd o1 f)))) = out" by metis
    with Cons \<open>e = _\<close> show thesis by (intro Cons.prems(1) [of "o1 # as" bs]) simp_all
  qed
qed simp

definition ledger_ok :: "ledger \<Rightarrow> bool" where
  "ledger_ok l \<longleftrightarrow> distinct (map fst l) \<and> (\<forall>p \<in> set l. ap_id (snd p) = fst p) \<and> length l \<le> MAX_RECORDS"

lemma ledger_ok_lookup: "ledger_ok l \<Longrightarrow> map_of l i = Some r \<longleftrightarrow> (i, r) \<in> set l"
  by (simp add: ledger_ok_def)

lemma ledger_ok_expire: "ledger_ok l \<Longrightarrow> ledger_ok (snd (expire now l))"
  by (auto simp: ledger_ok_def expire_keys dest!: expired_in)
    (auto simp: expire_def expire_record_def)

lemma ledger_ok_update:
  assumes "ledger_ok l" "map_of l i = Some r" "ap_id r' = i"
  shows "ledger_ok (AList.update i r' l)"
proof -
  have "i \<in> fst ` set l" using assms(2) by (metis domI dom_map_of_conv_image_fst)
  then have "map fst (AList.update i r' l) = map fst l" by (simp add: update_keys)
  with assms show ?thesis
    by (auto simp: ledger_ok_def dest!: set_update_entry) (metis length_map)
qed


lemma update_entry:
  assumes "ledger_ok l" "(j, q) \<in> set (AList.update i r l)"
  shows "j = i \<and> q = r \<or> j \<noteq> i \<and> (j, q) \<in> set l"
proof -
  from assms(1) have "distinct (map fst (AList.update i r l))" by (simp add: ledger_ok_def distinct_update)
  with assms(2) have "map_of (AList.update i r l) j = Some q" by simp
  then show ?thesis by (auto simp: update_conv' dest: map_of_SomeD split: if_splits)
qed

text \<open>
  Where a record comes from in one step: it was there, perhaps until it expired, and the step
  granted nothing for it; or the step granted it.
\<close>

definition asks :: "coders \<Rightarrow> approval_op \<Rightarrow> string \<Rightarrow> approval \<Rightarrow> bool" where
  "asks cd op i r \<longleftrightarrow> (\<exists>draws run connector tool args ttl now run' connector' tool' args' digest.
     op = Ask draws run connector tool args ttl now \<and> 1 \<le> ttl \<and> ttl \<le> MAX_TTL
     \<and> checked_id run ''run_id'' = Inr run' \<and> checked_id connector ''connector_id'' = Inr connector'
     \<and> checked_id tool ''tool_name'' = Inr tool' \<and> private_arguments cd args = Inr args'
     \<and> arguments_sha cd args' = Inr digest \<and> i \<in> set draws
     \<and> r = (new_approval run' connector' tool' digest args' now ttl)\<lparr>ap_id := i\<rparr>)"

definition approves :: "approval_op \<Rightarrow> string \<Rightarrow> approval \<Rightarrow> approval \<Rightarrow> bool" where
  "approves op i r r' \<longleftrightarrow> (\<exists>j human now human'. op = Approve_It j human now
     \<and> checked_id j ''approval_id'' = Inr i \<and> checked_id human ''human_identity'' = Inr human'
     \<and> ap_status r = ''pending'' \<and> now < ap_expires r
     \<and> r' = r\<lparr>ap_status := ''approved'', ap_approved := Some now, ap_approver := Some human'\<rparr>)"

definition consumes :: "coders \<Rightarrow> approval_op \<Rightarrow> string \<Rightarrow> approval \<Rightarrow> approval \<Rightarrow> bool" where
  "consumes cd op i r r' \<longleftrightarrow> (\<exists>j run connector tool args now args' text.
     op = Consume_It j run connector tool args now \<and> checked_id j ''approval_id'' = Inr i
     \<and> checked_id run ''run_id'' = Inr (ap_run r) \<and> checked_id connector ''connector_id'' = Inr (ap_connector r)
     \<and> checked_id tool ''tool_name'' = Inr (ap_tool r) \<and> private_arguments cd args = Inr args'
     \<and> cd_canon cd args' = Some text \<and> cd_canon cd (ap_arguments r) = Some text
     \<and> ap_status r = ''approved'' \<and> now < ap_expires r
     \<and> r' = r\<lparr>ap_status := ''consumed'', ap_consumed := Some now\<rparr>)"

definition record_step ::
    "coders \<Rightarrow> approval_op \<Rightarrow> receipt option \<Rightarrow> ledger \<Rightarrow> string \<Rightarrow> approval \<Rightarrow> bool" where
  "record_step cd op out l i r' \<longleftrightarrow>
     (\<exists>r now. (i, r) \<in> set l \<and> (r' = r \<or> r' = expire_record now r) \<and> (\<forall>q. out = Some q \<longrightarrow> rc_id q \<noteq> i))
     \<or> out = Some (public_receipt r') \<and> ap_id r' = i
        \<and> (asks cd op i r' \<or> (\<exists>r. (i, r) \<in> set l \<and> (approves op i r r' \<or> consumes cd op i r r')))"

text \<open>A step that is granted something grants it for a record of the ledger it leaves.\<close>

definition step_ok ::
    "coders \<Rightarrow> approval_op \<Rightarrow> receipt option \<Rightarrow> ledger \<Rightarrow> ledger \<Rightarrow> bool" where
  "step_ok cd op out l l' \<longleftrightarrow> ledger_ok l'
     \<and> (\<forall>i r. (i, r) \<in> set l' \<longrightarrow> record_step cd op out l i r)
     \<and> (\<forall>q. out = Some q \<longrightarrow> (\<exists>i r. (i, r) \<in> set l' \<and> q = public_receipt r))"

lemma record_step_old:
  "(i, r) \<in> set l \<Longrightarrow> r' = r \<or> r' = expire_record now r \<Longrightarrow> (\<And>q. out = Some q \<Longrightarrow> rc_id q \<noteq> i) \<Longrightarrow>
     record_step cd op out l i r'"
  unfolding record_step_def by blast

lemma step_ok_same: "ledger_ok l \<Longrightarrow> set l' \<subseteq> set l \<Longrightarrow> ledger_ok l' \<Longrightarrow> step_ok cd op None l l'"
  unfolding step_ok_def by (auto intro!: record_step_old)

lemma step_ok_expired:
  assumes "ledger_ok l'" and "set l' \<subseteq> set (snd (expire now l))"
  shows "step_ok cd op None l l'"
  unfolding step_ok_def
proof (intro conjI allI impI)
  show "record_step cd op None l i r" if "(i, r) \<in> set l'" for i r
    using assms(2) that expired_in [of i r now l] by (auto intro: record_step_old)
qed (use assms(1) in auto)

lemma ledger_ok_sub:
  "ledger_ok l \<Longrightarrow> set l' \<subseteq> set l \<Longrightarrow> length l' \<le> length l \<Longrightarrow> distinct (map fst l') \<Longrightarrow> ledger_ok l'"
  by (auto simp: ledger_ok_def)

lemma ask_step:
  assumes "ap_step cd (Ask draws run connector tool args ttl now) f = (out, f')" and "ledger_ok (ledger_of f)"
  shows "step_ok cd (Ask draws run connector tool args ttl now) out (ledger_of f) (ledger_of f')"
proof -
  let ?op = "Ask draws run connector tool args ttl now"
  obtain res where r: "request_approval cd draws run connector tool args ttl now f = (res, f')" "out = receipt_given res"
    using assms(1) by (cases "request_approval cd draws run connector tool args ttl now f") auto
  note e = ledger_ok_expire [OF assms(2), of now]
  consider (Same) err where "res = Inl err" "f' = f"
    | (Asked) run' connector' tool' args' digest where "1 \<le> ttl" "ttl \<le> MAX_TTL"
        "checked_id run ''run_id'' = Inr run'" "checked_id connector ''connector_id'' = Inr connector'"
        "checked_id tool ''tool_name'' = Inr tool'" "private_arguments cd args = Inr args'"
        "arguments_sha cd args' = Inr digest"
        "transaction cd now (create_approval draws (new_approval run' connector' tool' digest args' now ttl)) f
           = (res, f')"
    using r(1) by (auto simp: request_approval_def bindE_raises bindE_returns split: if_splits sum.splits)
  then show ?thesis
  proof cases
    case Same
    with r(2) assms(2) show ?thesis by (simp add: receipt_given_def step_ok_same)
  next
    case Asked
    let ?r = "new_approval run' connector' tool' digest args' now ttl"
    from Asked(8) show ?thesis
    proof (cases rule: transaction_cases)
      case Same
      then have "\<exists>err. res = Inl err" using writes(1) by blast
      with Same(1) r(2) assms(2) show ?thesis by (auto simp: receipt_given_def step_ok_same)
    next
      case (Left err l)
      from Left(1) show ?thesis
      proof (cases rule: create_cases)
        case (Failed err2)
        from e Failed have "ledger_ok l" by (auto intro: ledger_ok_sub simp: ledger_ok_def)
        with Failed(2) Left r(2) show ?thesis by (simp add: receipt_given_def step_ok_expired)
      qed simp
    next
      case (Right x written l)
      from Right(1) show ?thesis
      proof (cases rule: create_cases)
        case (Created i l1)
        let ?n = "?r\<lparr>ap_id := i\<rparr>"
        have x: "x = public_receipt ?n" using Created(1) by simp
        have new: "asks cd ?op i ?n" using Asked(1-7) Created(5) unfolding asks_def by blast
        have old: "record_step cd ?op out (ledger_of f) j q" if "(j, q) \<in> set l1" for j q
        proof -
          from that Created(3) expired_in [of j q now] obtain q0 where
            "(j, q0) \<in> set (ledger_of f)" "q = expire_record now q0" by blast
          moreover have "j \<noteq> i" using that Created(4) by force
          ultimately show ?thesis using Right(2) r(2) x
            by (intro record_step_old) (auto simp: receipt_given_def public_receipt_def)
        qed
        have "ledger_ok l"
          using e Created(2-4,6,7) by (auto simp: ledger_ok_def)
        moreover have "record_step cd ?op out (ledger_of f) i ?n"
          using new Right(2) r(2) x by (auto simp: record_step_def receipt_given_def)
        ultimately show ?thesis using old Created(2) Right(2,3) r(2) x
          by (auto simp: step_ok_def receipt_given_def)
      qed simp
    qed
  qed
qed


text \<open>Approving and consuming: both replace one record, or fail and change nothing.\<close>

lemma replace_step:
  assumes t: "transaction cd now operation f = (res, f')" and ok: "ledger_ok (ledger_of f)"
    and w: "\<And>x w l l'. operation l = (Inr (x, w), l') \<Longrightarrow> w"
    and fail: "\<And>e l l'. operation l = (Inl e, l') \<Longrightarrow> l' = l"
    and succeed: "\<And>x w l l'. operation l = (Inr (x, w), l') \<Longrightarrow>
      \<exists>i r r'. map_of l i = Some r \<and> \<not> terminal r \<and> P i r r' \<and> l' = AList.update i r' l \<and> x = public_receipt r'"
    and status: "\<And>i r r'. P i r r' \<Longrightarrow> ap_id r' = ap_id r \<and> ap_status r \<in> {''pending'', ''approved''}"
    and moves: "\<And>i r r'. P i r r' \<Longrightarrow> now < ap_expires r \<Longrightarrow> approves op i r r' \<or> consumes cd op i r r'"
  shows "step_ok cd op (receipt_given res) (ledger_of f) (ledger_of f')"
  using t
proof (cases rule: transaction_cases)
  case Same
  then have "\<exists>e. res = Inl e" using w by blast
  with Same(1) ok show ?thesis by (auto simp: receipt_given_def step_ok_same)
next
  case (Left e l)
  from fail [OF Left(1)] Left(3) have "ledger_of f' = snd (expire now (ledger_of f))" by simp
  with ledger_ok_expire [OF ok, of now] Left(2) step_ok_expired [of "ledger_of f'" now]
  show ?thesis by (simp add: receipt_given_def)
next
  case (Right x written l)
  let ?l = "snd (expire now (ledger_of f))"
  note e = ledger_ok_expire [OF ok, of now]
  from succeed [OF Right(1)] obtain i r r' where s: "map_of ?l i = Some r" "P i r r'"
    "l = AList.update i r' ?l" "x = public_receipt r'" by blast
  have mem: "(i, r) \<in> set ?l" using s(1) by (rule map_of_SomeD)
  then obtain r0 where "(i, r0) \<in> set (ledger_of f)" "r = expire_record now r0" using expired_in by blast
  with expire_record_open [of now r0] status [OF s(2)]
  have old: "(i, r) \<in> set (ledger_of f)" and time: "now < ap_expires r" by auto
  have id: "ap_id r' = i" using status [OF s(2)] mem e by (auto simp: ledger_ok_def)
  have out: "receipt_given res = Some (public_receipt r')" using Right(2) s(4) by (simp add: receipt_given_def)
  have new: "record_step cd op (receipt_given res) (ledger_of f) i r'"
    using out old moves [OF s(2) time] id unfolding record_step_def by blast
  have rest: "record_step cd op (receipt_given res) (ledger_of f) j q" if "j \<noteq> i" "(j, q) \<in> set ?l" for j q
    using expired_in [OF that(2)] that(1) id out by (auto intro!: record_step_old simp: public_receipt_def)
  have good: "ledger_ok l" using ledger_ok_update [OF e s(1) id] s(3) by simp
  have "map_of l i = Some r'" using s(3) by (simp add: update_conv')
  then have mem': "(i, r') \<in> set l" by (rule map_of_SomeD)
  have all: "record_step cd op (receipt_given res) (ledger_of f) j q" if "(j, q) \<in> set l" for j q
    using update_entry [OF e, of j q i r'] that s(3) new rest by auto
  show ?thesis
    unfolding step_ok_def Right(3)
  proof (intro conjI allI impI)
    show "\<exists>j q'. (j, q') \<in> set l \<and> q = public_receipt q'" if "receipt_given res = Some q" for q
      using that out mem' by (metis option.inject)
  qed (use good all in auto)
qed

lemma approve_step:
  assumes "ap_step cd (Approve_It i human now) f = (out, f')" and "ledger_ok (ledger_of f)"
  shows "step_ok cd (Approve_It i human now) out (ledger_of f) (ledger_of f')"
proof -
  let ?op = "Approve_It i human now"
  obtain res where r: "approve cd i human now f = (res, f')" "out = receipt_given res"
    using assms(1) by (cases "approve cd i human now f") auto
  consider (Same) err where "res = Inl err" "f' = f"
    | (Tried) i' human' where "checked_id i ''approval_id'' = Inr i'" "checked_id human ''human_identity'' = Inr human'"
        "transaction cd now (approve_record i' human' now) f = (res, f')"
    using r(1) by (auto simp: approve_def bindE_raises bindE_returns split: sum.splits)
  then show ?thesis
  proof cases
    case Same
    with r(2) assms(2) show ?thesis by (simp add: receipt_given_def step_ok_same)
  next
    case Tried
    let ?P = "\<lambda>j r r'. j = i' \<and> ap_status r = ''pending''
      \<and> r' = r\<lparr>ap_status := ''approved'', ap_approved := Some now, ap_approver := Some human'\<rparr>"
    have "step_ok cd ?op (receipt_given res) (ledger_of f) (ledger_of f')"
      using Tried(3) assms(2)
    proof (rule replace_step [where P = ?P])
      show "\<exists>j r r'. map_of l j = Some r \<and> \<not> terminal r \<and> ?P j r r' \<and> l' = AList.update j r' l \<and> x = public_receipt r'"
        if "approve_record i' human' now l = (Inr (x, w), l')" for x w l l'
        using that by (cases rule: approve_cases) (simp_all add: terminal_def)
      show "approves ?op j r r' \<or> consumes cd ?op j r r'" if "?P j r r'" "now < ap_expires r" for j r r'
        using that Tried(1,2) by (auto simp: approves_def)
    qed (auto dest: writes elim: approve_cases)
    with r(2) show ?thesis by simp
  qed
qed

lemma consume_step:
  assumes "ap_step cd (Consume_It i run connector tool args now) f = (out, f')" and "ledger_ok (ledger_of f)"
  shows "step_ok cd (Consume_It i run connector tool args now) out (ledger_of f) (ledger_of f')"
proof -
  let ?op = "Consume_It i run connector tool args now"
  obtain res where r: "consume cd i run connector tool args now f = (res, f')" "out = receipt_given res"
    using assms(1) by (cases "consume cd i run connector tool args now f") auto
  consider (Same) err where "res = Inl err" "f' = f"
    | (Tried) i' run' connector' tool' args' digest where "checked_id i ''approval_id'' = Inr i'"
        "checked_id run ''run_id'' = Inr run'" "checked_id connector ''connector_id'' = Inr connector'"
        "checked_id tool ''tool_name'' = Inr tool'" "private_arguments cd args = Inr args'"
        "transaction cd now (consume_record cd i' run' connector' tool' args' digest now) f = (res, f')"
    using r(1) by (auto simp: consume_def bindE_raises bindE_returns split: sum.splits)
  then show ?thesis
  proof cases
    case Same
    with r(2) assms(2) show ?thesis by (simp add: receipt_given_def step_ok_same)
  next
    case Tried
    let ?P = "\<lambda>j r r'. j = i' \<and> ap_status r = ''approved'' \<and> ap_run r = run'
      \<and> ap_connector r = connector' \<and> ap_tool r = tool'
      \<and> (\<exists>t. cd_canon cd (ap_arguments r) = Some t \<and> cd_canon cd args' = Some t)
      \<and> r' = r\<lparr>ap_status := ''consumed'', ap_consumed := Some now\<rparr>"
    have "step_ok cd ?op (receipt_given res) (ledger_of f) (ledger_of f')"
      using Tried(6) assms(2)
    proof (rule replace_step [where P = ?P])
      show "\<exists>j r r'. map_of l j = Some r \<and> \<not> terminal r \<and> ?P j r r' \<and> l' = AList.update j r' l \<and> x = public_receipt r'"
        if "consume_record cd i' run' connector' tool' args' digest now l = (Inr (x, w), l')" for x w l l'
        using that by (cases rule: consume_cases) (simp_all add: terminal_def)
      show "approves ?op j r r' \<or> consumes cd ?op j r r'" if "?P j r r'" "now < ap_expires r" for j r r'
        using that Tried(1-5) by (auto simp: consumes_def)
    qed (auto dest: writes elim: consume_cases)
    with r(2) show ?thesis by simp
  qed
qed

lemma ap_step_ok:
  assumes "ap_step cd op f = (out, f')" and "ledger_ok (ledger_of f)"
  shows "step_ok cd op out (ledger_of f) (ledger_of f')"
proof (cases op)
  case Ask
  with assms ask_step show ?thesis by blast
next
  case Approve_It
  with assms approve_step show ?thesis by blast
next
  case Consume_It
  with assms consume_step show ?thesis by blast
next
  case (Look_At i now)
  have "ledger_of f' = ledger_of f \<or> ledger_of f' = snd (expire now (ledger_of f))"
  proof -
    have "snd (review_record j l) = l" for j l by (simp add: review_record_def split: option.split)
    moreover obtain res where "get_for_review cd i now f = (res, f')"
      using assms(1) Look_At by (cases "get_for_review cd i now f") auto
    ultimately show ?thesis
      by (auto simp: get_for_review_def split: sum.splits elim!: transaction_cases) (metis snd_conv)+
  qed
  with assms Look_At ledger_ok_expire [OF assms(2), of now] show ?thesis
    by (auto intro: step_ok_same step_ok_expired)
next
  case (Show_All status now)
  have "ledger_of f' = ledger_of f \<or> ledger_of f' = snd (expire now (ledger_of f))"
  proof -
    have "snd (list_receipts j l) = l" for j l by (simp add: list_receipts_def)
    moreover obtain res where "list_public cd status now f = (res, f')"
      using assms(1) Show_All by (cases "list_public cd status now f") auto
    ultimately show ?thesis
      by (auto simp: list_public_def split: if_splits option.splits elim!: transaction_cases) (metis snd_conv)+
  qed
  with assms Show_All ledger_ok_expire [OF assms(2), of now] show ?thesis
    by (auto intro: step_ok_same step_ok_expired)
qed



section \<open>What a consumption rests on\<close>

text \<open>
  The events since the record was asked for: none that granted anything for it while it is
  pending, its approval alone while it is approved.
\<close>

definition about :: "string \<Rightarrow> approval_op \<times> receipt option \<Rightarrow> bool" where
  "about i e \<longleftrightarrow> (\<exists>q. snd e = Some q \<and> rc_id q = i)"

definition approval_event ::
    "string \<Rightarrow> approval \<Rightarrow> approval_op \<times> receipt option \<Rightarrow> bool" where
  "approval_event i r e \<longleftrightarrow> about i e \<and> (\<exists>j human now human'. fst e = Approve_It j human now
     \<and> checked_id j ''approval_id'' = Inr i \<and> checked_id human ''human_identity'' = Inr human'
     \<and> ap_approver r = Some human' \<and> ap_approved r = Some now \<and> now < ap_expires r)"

definition asked_as :: "coders \<Rightarrow> approval_op \<Rightarrow> string \<Rightarrow> approval \<Rightarrow> bool" where
  "asked_as cd op i r \<longleftrightarrow> (\<exists>r0. asks cd op i r0 \<and> ap_run r0 = ap_run r \<and> ap_connector r0 = ap_connector r
     \<and> ap_tool r0 = ap_tool r \<and> ap_arguments r0 = ap_arguments r \<and> ap_expires r0 = ap_expires r)"

definition traced ::
    "coders \<Rightarrow> (approval_op \<times> receipt option) list \<Rightarrow> string \<Rightarrow> approval \<Rightarrow> bool" where
  "traced cd log i r \<longleftrightarrow> (\<exists>a e b. log = a @ e # b \<and> about i e \<and> asked_as cd (fst e) i r
     \<and> (ap_status r = ''pending'' \<longrightarrow> (\<forall>x \<in> set b. \<not> about i x))
     \<and> (ap_status r = ''approved'' \<longrightarrow> (\<exists>c x d. b = c @ x # d \<and> approval_event i r x
          \<and> (\<forall>y \<in> set c \<union> set d. \<not> about i y))))"

lemma traced_stays:
  assumes "traced cd log i r" and "\<not> about i e" and "r' = r \<or> r' = expire_record now r"
  shows "traced cd (log @ [e]) i r'"
proof -
  from assms(3) consider "r' = r" | "overdue now r" "r' = r\<lparr>ap_status := ''expired'', ap_expired := Some now\<rparr>"
    by (auto simp: expire_record_def split: if_splits)
  then show ?thesis
  proof cases
    case 1
    from assms(1) obtain a x b where t: "log = a @ x # b" "about i x" "asked_as cd (fst x) i r"
      "ap_status r = ''pending'' \<longrightarrow> (\<forall>x \<in> set b. \<not> about i x)"
      "ap_status r = ''approved'' \<longrightarrow> (\<exists>c x d. b = c @ x # d \<and> approval_event i r x
          \<and> (\<forall>y \<in> set c \<union> set d. \<not> about i y))" unfolding traced_def by blast
    have "\<exists>c x d. b @ [e] = c @ x # d \<and> approval_event i r x \<and> (\<forall>y \<in> set c \<union> set d. \<not> about i y)"
      if "ap_status r = ''approved''"
    proof -
      from t(5) that obtain c y d where "b = c @ y # d" "approval_event i r y"
        "\<forall>y \<in> set c \<union> set d. \<not> about i y" by blast
      with assms(2) show ?thesis by (intro exI [of _ c] exI [of _ y] exI [of _ "d @ [e]"]) auto
    qed
    with t(1-4) assms(2) 1 show ?thesis
      unfolding traced_def by (intro exI [of _ a] exI [of _ x] exI [of _ "b @ [e]"]) auto
  next
    case 2
    from assms(1) obtain a x b where "log = a @ x # b" "about i x" "asked_as cd (fst x) i r"
      unfolding traced_def by blast
    with 2 show ?thesis unfolding traced_def asked_as_def
      by (intro exI [of _ a] exI [of _ x] exI [of _ "b @ [e]"]) auto
  qed
qed

lemma traced_asked:
  assumes "asks cd op i r" and "ap_id r = i"
  shows "traced cd (log @ [(op, Some (public_receipt r))]) i r"
proof -
  from assms(1) have "ap_status r = ''pending''" by (auto simp: asks_def new_approval_def)
  with assms show ?thesis unfolding traced_def asked_as_def about_def
    by (intro exI [of _ log] exI [of _ "(op, Some (public_receipt r))"] exI [of _ "[]"])
      (auto simp: public_receipt_def)
qed

lemma traced_approved:
  assumes "traced cd log i r" and "approves op i r r'" and "ap_id r' = i"
  shows "traced cd (log @ [(op, Some (public_receipt r'))]) i r'"
proof -
  let ?e = "(op, Some (public_receipt r'))"
  from assms(2) have r: "ap_status r = ''pending''" "ap_status r' = ''approved''" "ap_run r' = ap_run r"
    "ap_connector r' = ap_connector r" "ap_tool r' = ap_tool r" "ap_arguments r' = ap_arguments r"
    "ap_expires r' = ap_expires r" by (auto simp: approves_def)
  from assms(1) r(1) obtain a x b where t: "log = a @ x # b" "about i x" "asked_as cd (fst x) i r"
    "\<forall>x \<in> set b. \<not> about i x" unfolding traced_def by blast
  have "about i ?e" using assms(3) by (simp add: about_def public_receipt_def)
  with assms(2) have "approval_event i r' ?e" by (auto simp: approval_event_def approves_def)
  with t(4) have "\<exists>c x d. b @ [?e] = c @ x # d \<and> approval_event i r' x \<and> (\<forall>y \<in> set c \<union> set d. \<not> about i y)"
    by (intro exI [of _ b] exI [of _ ?e] exI [of _ "[]"]) auto
  moreover have "asked_as cd (fst x) i r'" using t(3) r(3-7) by (simp add: asked_as_def)
  ultimately show ?thesis using t(1,2) r(2)
    unfolding traced_def by (intro exI [of _ a] exI [of _ x] exI [of _ "b @ [?e]"]) auto
qed

lemma traced_consumed:
  assumes "traced cd log i r" and "consumes cd op i r r'"
  shows "traced cd (log @ [(op, Some (public_receipt r'))]) i r'"
proof -
  from assms(2) have r: "ap_status r' = ''consumed''" "ap_run r' = ap_run r"
    "ap_connector r' = ap_connector r" "ap_tool r' = ap_tool r" "ap_arguments r' = ap_arguments r"
    "ap_expires r' = ap_expires r" by (auto simp: consumes_def)
  from assms(1) obtain a x b where t: "log = a @ x # b" "about i x" "asked_as cd (fst x) i r"
    unfolding traced_def by blast
  moreover have "asked_as cd (fst x) i r'" using t(3) r(2-6) by (simp add: asked_as_def)
  ultimately show ?thesis using r(1)
    unfolding traced_def by (intro exI [of _ a] exI [of _ x] exI) auto
qed

lemma ledger_traced:
  "ledger_ok (ledger_of (ap_run_ops cd ops No_File))
   \<and> (\<forall>i r. (i, r) \<in> set (ledger_of (ap_run_ops cd ops No_File)) \<longrightarrow> traced cd (ap_log cd ops No_File) i r)"
proof (induction ops rule: rev_induct)
  case Nil
  then show ?case by (simp add: ledger_ok_def)
next
  case (snoc op ops)
  let ?f = "ap_run_ops cd ops No_File" and ?log = "ap_log cd ops No_File"
  obtain out f' where st: "ap_step cd op ?f = (out, f')" by fastforce
  have run: "ap_run_ops cd (ops @ [op]) No_File = f'" "ap_log cd (ops @ [op]) No_File = ?log @ [(op, out)]"
    using st by (simp_all add: ap_run_ops_append ap_log_append)
  from ap_step_ok [OF st] snoc have ok: "step_ok cd op out (ledger_of ?f) (ledger_of f')" by blast
  have "traced cd (?log @ [(op, out)]) i r'" if "(i, r') \<in> set (ledger_of f')" for i r'
  proof -
    from ok that have "record_step cd op out (ledger_of ?f) i r'" by (simp add: step_ok_def)
    then consider (Old) r now where "(i, r) \<in> set (ledger_of ?f)" "r' = r \<or> r' = expire_record now r"
          "\<forall>q. out = Some q \<longrightarrow> rc_id q \<noteq> i"
      | (Asked) "out = Some (public_receipt r')" "ap_id r' = i" "asks cd op i r'"
      | (Approved) r where "out = Some (public_receipt r')" "ap_id r' = i" "(i, r) \<in> set (ledger_of ?f)"
          "approves op i r r'"
      | (Consumed) r where "out = Some (public_receipt r')" "ap_id r' = i" "(i, r) \<in> set (ledger_of ?f)"
          "consumes cd op i r r'"
      unfolding record_step_def by blast
    then show ?thesis
    proof cases
      case Old
      with snoc have "traced cd ?log i r" by blast
      moreover have "\<not> about i (op, out)" using Old(3) by (auto simp: about_def)
      ultimately show ?thesis using Old(2) by (rule traced_stays)
    next
      case Asked
      with traced_asked show ?thesis by simp
    next
      case Approved
      with snoc have "traced cd ?log i r" by blast
      from traced_approved [OF this Approved(4,2)] Approved(1) show ?thesis by simp
    next
      case Consumed
      with snoc have "traced cd ?log i r" by blast
      from traced_consumed [OF this Consumed(4)] Consumed(1) show ?thesis by simp
    qed
  qed
  with ok run show ?case by (simp add: step_ok_def)
qed


text \<open>A grant to consume is a step from an approved record.\<close>

lemma granted_consumption:
  assumes "ap_log cd ops No_File = pre @ (Consume_It j run connector tool args now, Some q) # post"
  shows "\<exists>i r r'. traced cd pre i r \<and> ap_status r = ''approved''
    \<and> consumes cd (Consume_It j run connector tool args now) i r r' \<and> q = public_receipt r' \<and> ap_id r' = i"
proof -
  let ?op = "Consume_It j run connector tool args now"
  from assms obtain as bs where ops: "ops = as @ ?op # bs" "ap_log cd as No_File = pre"
    "fst (ap_step cd ?op (ap_run_ops cd as No_File)) = Some q"
    by (rule ap_log_split)
  obtain f' where st: "ap_step cd ?op (ap_run_ops cd as No_File) = (Some q, f')"
    using ops(3) by (metis prod.collapse)
  have "step_ok cd ?op (Some q) (ledger_of (ap_run_ops cd as No_File)) (ledger_of f')"
    using ap_step_ok [OF st] ledger_traced by blast
  then obtain i r' where r': "q = public_receipt r'"
    "record_step cd ?op (Some q) (ledger_of (ap_run_ops cd as No_File)) i r'" "ap_id r' = i"
    unfolding step_ok_def ledger_ok_def by fastforce
  have "rc_id q = i" using r'(1,3) by (simp add: public_receipt_def)
  moreover have "\<not> asks cd ?op i r'" "\<not> approves ?op i r r'" for r by (auto simp: asks_def approves_def)
  ultimately obtain r where r: "(i, r) \<in> set (ledger_of (ap_run_ops cd as No_File))" "consumes cd ?op i r r'"
    using r'(2) unfolding record_step_def by blast
  with ledger_traced ops(2) have "traced cd pre i r" by blast
  moreover have "ap_status r = ''approved''" using r(2) by (auto simp: consumes_def)
  ultimately show ?thesis using r(2) r'(1,3) by blast
qed

definition same_request ::
    "coders \<Rightarrow> approval_op \<Rightarrow> string \<Rightarrow> string \<Rightarrow> string \<Rightarrow> json \<Rightarrow> int \<Rightarrow> bool" where
  "same_request cd op run connector tool args deadline \<longleftrightarrow>
     (\<exists>draws run0 connector0 tool0 args0 ttl asked p0 p text.
        op = Ask draws run0 connector0 tool0 args0 ttl asked
        \<and> 1 \<le> ttl \<and> ttl \<le> MAX_TTL \<and> deadline = asked + ttl * 1000000
        \<and> strip run0 = strip run \<and> strip connector0 = strip connector \<and> strip tool0 = strip tool
        \<and> private_arguments cd args0 = Inr p0 \<and> private_arguments cd args = Inr p
        \<and> cd_canon cd p0 = Some text \<and> cd_canon cd p = Some text)"

lemma checked_id_strip: "checked_id v label = Inr n \<Longrightarrow> n = strip v"
  by (auto simp: checked_id_def Let_def split: if_splits)

lemma asked_same_request:
  assumes "asked_as cd op i r" and "consumes cd (Consume_It j run connector tool args now) i r r'"
  shows "same_request cd op run connector tool args (ap_expires r)"
  using assms
  by (auto simp: asked_as_def asks_def consumes_def same_request_def new_approval_def dest!: checked_id_strip)

lemma consumption_trace:
  assumes "ap_log cd ops No_File = pre @ (Consume_It j run connector tool args now, Some q) # post"
  shows "\<exists>a ask b k human t approval c deadline.
      pre = a @ ask # b @ (Approve_It k human t, approval) # c
      \<and> same_request cd (fst ask) run connector tool args deadline
      \<and> rc_id q = strip j \<and> about (strip j) ask \<and> strip k = strip j
      \<and> about (strip j) (Approve_It k human t, approval) \<and> rc_approver q = Some (strip human)
      \<and> t < deadline \<and> now < deadline \<and> rc_expires q = deadline
      \<and> (\<forall>x \<in> set b \<union> set c. \<not> about (strip j) x)"
proof -
  let ?op = "Consume_It j run connector tool args now"
  from granted_consumption [OF assms] obtain i r r' where r: "traced cd pre i r" "ap_status r = ''approved''"
    "consumes cd ?op i r r'" "q = public_receipt r'" "ap_id r' = i" by blast
  have j: "i = strip j" using r(3) by (auto simp: consumes_def dest!: checked_id_strip)
  have same: "ap_approver r' = ap_approver r" "ap_expires r' = ap_expires r" "now < ap_expires r"
    using r(3) by (auto simp: consumes_def)
  from r(1,2) obtain a e b' where t: "pre = a @ e # b'" "about i e" "asked_as cd (fst e) i r"
    "\<exists>c x d. b' = c @ x # d \<and> approval_event i r x \<and> (\<forall>y \<in> set c \<union> set d. \<not> about i y)"
    unfolding traced_def by blast
  then obtain b x c where x: "b' = b @ x # c" "approval_event i r x" "\<forall>y \<in> set b \<union> set c. \<not> about i y" by blast
  from x(2) obtain k human tm where ev: "about i x" "fst x = Approve_It k human tm"
    "ap_approver r = Some (strip human)" "tm < ap_expires r" "checked_id k ''approval_id'' = Inr i"
    by (auto simp: approval_event_def dest: checked_id_strip)
  have k: "strip k = i" using checked_id_strip [OF ev(5)] by simp
  have "pre = a @ e # b @ (Approve_It k human tm, snd x) # c" using t(1) x(1) ev(2) by (simp flip: ev(2))
  moreover have "same_request cd (fst e) run connector tool args (ap_expires r)"
    using asked_same_request [OF t(3) r(3)] .
  moreover have "about i (Approve_It k human tm, snd x)" using ev(1,2) by (simp add: about_def)
  moreover have "rc_id q = i" "rc_approver q = Some (strip human)" "rc_expires q = ap_expires r"
    using r(4,5) same ev(3) by (simp_all add: public_receipt_def)
  ultimately show ?thesis
    using t(2) x(3) ev(4) same(3) k
    unfolding j [symmetric]
    by - (rule exI [where x = a], rule exI [where x = e], rule exI [where x = b], rule exI [where x = k],
        rule exI [where x = human], rule exI [where x = tm], rule exI [where x = "snd x"], rule exI [where x = c],
        rule exI [where x = "ap_expires r"], simp)
qed


section \<open>Room\<close>

lemma ledger_bounded: "length (ledger_of (ap_run_ops cd ops No_File)) \<le> MAX_RECORDS"
  using ledger_traced by (simp add: ledger_ok_def)

lemma ledger_distinct: "distinct (map fst (ledger_of (ap_run_ops cd ops No_File)))"
  using ledger_traced by (simp add: ledger_ok_def)

lemma removed_length:
  assumes "distinct (map fst l)" "G \<subseteq> fst ` set l"
  shows "length (filter (\<lambda>p. fst p \<notin> G) l) + card G = length l"
proof -
  have inj: "inj_on fst (set l)" "distinct l" using assms(1) by (simp_all add: distinct_map)
  have "fst ` {p \<in> set l. fst p \<in> G} = G" using assms(2) by auto
  moreover have "inj_on fst {p \<in> set l. fst p \<in> G}" using inj(1) by (rule inj_on_subset) auto
  ultimately have "card {p \<in> set l. fst p \<in> G} = card G" by (metis card_image)
  moreover have "length (filter (\<lambda>p. fst p \<in> G) l) = card {p \<in> set l. fst p \<in> G}"
    using inj(2) distinct_card [of "filter (\<lambda>p. fst p \<in> G) l"] by simp
  ultimately show ?thesis using sum_length_filter_compl [of "\<lambda>p. fst p \<in> G" l] by simp
qed

text \<open>Room is refused only to a ledger that is full of unfinished records.\<close>

lemma no_space_unfinished:
  assumes "make_space l = (False, l1)" and "distinct (map fst l)"
  shows "list_all (\<lambda>p. \<not> terminal (snd p)) l1 \<and> MAX_RECORDS \<le> length l1"
proof -
  let ?T = "filter (terminal \<circ> snd) l"
  let ?gone = "take (length l + 1 - MAX_RECORDS) (oldest_terminal l)"
  have long: "MAX_RECORDS \<le> length l" and l1: "l1 = filter (\<lambda>p. fst p \<notin> set ?gone) l" "MAX_RECORDS \<le> length l1"
    using assms(1) unfolding make_space_def Let_def by (cases "length l < MAX_RECORDS"; simp)+
  have "set (oldest_terminal l) = fst ` set ?T" by (simp add: oldest_terminal_def)
  moreover have "distinct (oldest_terminal l)"
  proof -
    have "distinct (map fst ?T)" using assms(2) by (simp add: distinct_map_filter)
    then have "inj_on fst (set ?T)" "distinct ?T" by (simp_all add: distinct_map)
    then show ?thesis by (simp add: oldest_terminal_def distinct_map)
  qed
  ultimately have ids: "distinct (oldest_terminal l)" "set (oldest_terminal l) = fst ` set ?T" by simp_all
  have "length (oldest_terminal l) < length l + 1 - MAX_RECORDS"
  proof (rule ccontr)
    assume "\<not> ?thesis"
    then have n: "length ?gone = length l + 1 - MAX_RECORDS" by simp
    have "distinct ?gone" using ids(1) by simp
    then have "card (set ?gone) = length l + 1 - MAX_RECORDS" using n distinct_card by metis
    moreover have "set ?gone \<subseteq> fst ` set l"
      using subset_trans [OF set_take_subset [of _ "oldest_terminal l"]] ids(2) by (metis filter_is_subset image_mono)
    moreover have "length l1 + card (set ?gone) = length l"
      using l1(1) removed_length [OF assms(2)] calculation(2) by simp
    ultimately show False using l1(2) long by simp
  qed
  then have gone: "set ?gone = fst ` set ?T" using ids(2) by simp
  have "\<not> terminal (snd p)" if "p \<in> set l1" for p
  proof
    assume "terminal (snd p)"
    then have "fst p \<in> fst ` set ?T" using that l1(1) by simp
    with gone that l1(1) show False by simp
  qed
  then have "list_all (\<lambda>p. \<not> terminal (snd p)) l1" by (simp add: list_all_iff)
  with l1(2) show ?thesis by simp
qed

end
