(* ===== verification/Gateway_Correct.thy ===== *)
theory Gateway_Correct
  imports Gateway Connectors_Correct Approvals_Correct
begin

text \<open>
  What the gateway lets through: a call reaches a provider only under a rule of the frozen policy,
  and a gated call only on an approval of a person for exactly that call, given in time and spent
  once. Discovery is bounded, and a bundled tool that it lists is routed back to its service.
\<close>

section \<open>Single calls\<close>

lemma write_receipt_simps [simp]:
  "gw_ledger (write_receipt env authority content g) = gw_ledger g"
  "gw_calls (write_receipt env authority content g) = gw_calls g"
  by (simp_all add: write_receipt_def)

text \<open>The call that a connector and a tool name stand for.\<close>

definition routed :: "obj \<Rightarrow> string \<Rightarrow> (string \<times> session_auth \<times> string) gate" where
  "routed c tool =
     bindE (dispatch_tool c tool) (\<lambda>(target, remote).
       bindE (open_session target) (\<lambda>(endpoint, auth). Inr (endpoint, auth, remote)))"

lemma perform_call_cases:
  assumes "perform_call env authority c cid tool risk args constraints approval g = (res, g')"
  obtains (Kept) e where "res = Inl e" "gw_calls g' = gw_calls g" "gw_ledger g' = gw_ledger g"
  | (Sent) endpoint auth remote where "routed c tool = Inr (endpoint, auth, remote)"
      "gw_calls g' = gw_calls g @ [(endpoint, auth, remote, args)]" "gw_ledger g' = gw_ledger g"
proof (cases "routed c tool")
  case (Inl e)
  with assms Kept show thesis by (auto simp: perform_call_def routed_def Let_def)
next
  case (Inr r)
  obtain endpoint auth remote where r: "r = (endpoint, auth, remote)" by (metis prod_cases3)
  show thesis
  proof (cases "ge_call env endpoint auth remote args")
    case (Not_Reached e)
    with assms Inr r Kept show thesis by (auto simp: perform_call_def routed_def Let_def)
  next
    case (Call_Failed m)
    with assms Inr r Sent show thesis by (auto simp: perform_call_def routed_def Let_def)
  next
    case (Answer payload is_error)
    with assms Inr r Sent show thesis
      by (auto simp: perform_call_def routed_def Let_def split: sum.splits if_splits)
  qed
qed

text \<open>The ledger operation that a call of a gated tool performs, if it gets that far.\<close>

definition approvals_enabled :: "obj \<Rightarrow> bool" where
  "approvals_enabled authority \<longleftrightarrow> truthy (jget ''approval_path'' authority)
     \<and> (case or_empty (jget ''policy'' authority) of
          JObj policy \<Rightarrow> truthy (jget ''human_approval_tools_enabled'' policy) | _ \<Rightarrow> False)"

definition ledger_op :: "gate_env \<Rightarrow> string \<Rightarrow> string \<Rightarrow> string \<Rightarrow> obj \<Rightarrow> string option \<Rightarrow> approval_op" where
  "ledger_op env run cid tool args approval =
     (case approval of
        None \<Rightarrow> Ask (ge_draws env) run cid tool (JObj args) 300 (ge_now env)
      | Some i \<Rightarrow> Consume_It i run cid tool (JObj args) (ge_now env))"

definition gated_ops :: "gate_env \<Rightarrow> obj \<Rightarrow> string \<Rightarrow> string \<Rightarrow> obj \<Rightarrow> string option \<Rightarrow> approval_op list" where
  "gated_ops env authority cid tool args approval =
     (if approvals_enabled authority
      then (case map_of authority ''run_id'' of
              Some (JStr run) \<Rightarrow> [ledger_op env run cid tool args approval] | _ \<Rightarrow> [])
      else [])"

lemma apfst_eq: "apfst f p = (x, y) \<longleftrightarrow> (\<exists>a. p = (a, y) \<and> x = f a)"
  by (cases p) auto

lemma ask_ledger_op:
  assumes "ask_ledger env authority cid tool args f = (answer, f')"
  shows "(\<exists>run. map_of authority ''run_id'' = Some (JStr run)
        \<and> f' = snd (ap_step (ge_coders env) (ledger_op env run cid tool args None) f))
      \<or> f' = f \<and> (\<forall>run. map_of authority ''run_id'' \<noteq> Some (JStr run))"
  using assms
  by (auto simp: ask_ledger_def Let_def ledger_op_def apfst_eq split: option.splits json.splits)

lemma spend_approval_op:
  assumes "spend_approval env authority cid tool args i f = (answer, f')"
  shows "(\<exists>run. map_of authority ''run_id'' = Some (JStr run)
        \<and> f' = snd (ap_step (ge_coders env) (ledger_op env run cid tool args (Some i)) f)
        \<and> (\<forall>q. answer = Inr (Inr q) \<longrightarrow>
             fst (ap_step (ge_coders env) (ledger_op env run cid tool args (Some i)) f) = Some q))
      \<or> f' = f \<and> (\<forall>run. map_of authority ''run_id'' \<noteq> Some (JStr run)) \<and> (\<forall>q. answer \<noteq> Inr (Inr q))"
  using assms
  by (auto simp: spend_approval_def Let_def ledger_op_def apfst_eq receipt_given_def bindE_returns
      split: option.splits json.splits)

lemma ap_run_single: "ap_run_ops cd [op] f = snd (ap_step cd op f)"
  by simp

lemma approved_call_steps:
  assumes "approved_call env authority c cid tool risk args constraints approval g = (res, g')"
  shows "gw_ledger g' = ap_run_ops (ge_coders env) (gated_ops env authority cid tool args approval) (gw_ledger g)"
    and "gw_calls g' \<noteq> gw_calls g \<Longrightarrow>
      \<exists>i run q endpoint auth remote. approval = Some i \<and> approvals_enabled authority
        \<and> map_of authority ''run_id'' = Some (JStr run)
        \<and> fst (ap_step (ge_coders env) (ledger_op env run cid tool args (Some i)) (gw_ledger g)) = Some q
        \<and> routed c tool = Inr (endpoint, auth, remote)
        \<and> gw_calls g' = gw_calls g @ [(endpoint, auth, remote, args)]"
proof -
  let ?enabled = "if truthy (jget ''approval_path'' authority)
    then bindE (py (obj_of (or_empty (jget ''policy'' authority)))) (\<lambda>policy.
      Inr (truthy (jget ''human_approval_tools_enabled'' policy)))
    else Inr False"
  have enabled: "?enabled = Inr True \<longleftrightarrow> approvals_enabled authority"
    by (auto simp: approvals_enabled_def py_def obj_of_def split: json.splits)
  have both: "gw_ledger g' = ap_run_ops (ge_coders env) (gated_ops env authority cid tool args approval) (gw_ledger g)
    \<and> (gw_calls g' \<noteq> gw_calls g \<longrightarrow> (\<exists>i run q endpoint auth remote. approval = Some i
        \<and> approvals_enabled authority \<and> map_of authority ''run_id'' = Some (JStr run)
        \<and> fst (ap_step (ge_coders env) (ledger_op env run cid tool args (Some i)) (gw_ledger g)) = Some q
        \<and> routed c tool = Inr (endpoint, auth, remote)
        \<and> gw_calls g' = gw_calls g @ [(endpoint, auth, remote, args)]))"
  proof (cases "?enabled = Inr True")
    case False
    with assms have "g' = g"
      unfolding approved_call_def Let_def by (cases ?enabled) (auto split: bool.splits)
    moreover have "\<not> approvals_enabled authority" using False enabled by blast
    ultimately show ?thesis by (simp add: gated_ops_def)
  next
    case True
    show ?thesis
    proof (cases approval)
      case None
      obtain answer f where ask: "ask_ledger env authority cid tool args (gw_ledger g) = (answer, f)" by fastforce
      have "gw_ledger g' = f \<and> gw_calls g' = gw_calls g"
        using assms True None ask unfolding approved_call_def Let_def
        by (cases answer) (auto split: sum.splits approval_error.splits)
      with ask_ledger_op [OF ask] True enabled None show ?thesis
        by (auto simp: gated_ops_def split: option.split json.split)
    next
      case (Some i)
      obtain answer f where spend: "spend_approval env authority cid tool args i (gw_ledger g) = (answer, f)"
        by fastforce
      note op = spend_approval_op [OF spend]
      show ?thesis
      proof (cases "\<exists>q. answer = Inr (Inr q)")
        case False
        then have "gw_ledger g' = f \<and> gw_calls g' = gw_calls g"
          using assms True Some spend unfolding approved_call_def Let_def
          by (cases answer) (auto split: sum.splits)
        with op True enabled Some show ?thesis by (auto simp: gated_ops_def split: option.split json.split)
      next
        case answer: True
        then obtain q where q: "answer = Inr (Inr q)" by blast
        with op obtain run where run: "map_of authority ''run_id'' = Some (JStr run)"
          "f = snd (ap_step (ge_coders env) (ledger_op env run cid tool args (Some i)) (gw_ledger g))"
          "fst (ap_step (ge_coders env) (ledger_op env run cid tool args (Some i)) (gw_ledger g)) = Some q"
          by blast
        have "perform_call env authority c cid tool risk args constraints (Some (rc_id q)) (g\<lparr>gw_ledger := f\<rparr>)
            = (res, g')"
          using assms True Some spend q unfolding approved_call_def Let_def by simp
        then show ?thesis
          using run True enabled Some
          by (cases rule: perform_call_cases) (auto simp: gated_ops_def)
      qed
    qed
  qed
  then show "gw_ledger g' = ap_run_ops (ge_coders env) (gated_ops env authority cid tool args approval) (gw_ledger g)"
    by blast
  from both show "gw_calls g' \<noteq> gw_calls g \<Longrightarrow>
      \<exists>i run q endpoint auth remote. approval = Some i \<and> approvals_enabled authority
        \<and> map_of authority ''run_id'' = Some (JStr run)
        \<and> fst (ap_step (ge_coders env) (ledger_op env run cid tool args (Some i)) (gw_ledger g)) = Some q
        \<and> routed c tool = Inr (endpoint, auth, remote)
        \<and> gw_calls g' = gw_calls g @ [(endpoint, auth, remote, args)]"
    by blast
qed


section \<open>The policy\<close>

definition rule_admits :: "obj \<Rightarrow> obj \<Rightarrow> bool" where
  "rule_admits rule args \<longleftrightarrow>
     (case bindE (obj_of (or_empty (jget ''constraints'' rule))) (\<lambda>constraints.
           bindE (byte_bound ''max_argument_bytes'' GATE_ARGUMENT_BYTES constraints) (\<lambda>limit.
           bindE (constraint_failure rule args) (\<lambda>failure. Inr (limit, failure)))) of
        Inr (limit, None) \<Rightarrow> int (argument_size (JObj args)) \<le> limit
      | _ \<Rightarrow> False)"

definition ruled :: "obj \<Rightarrow> string \<Rightarrow> string \<Rightarrow> (obj \<times> obj) option" where
  "ruled authority cid tool =
     (case bindE (connector_by_id authority cid) (\<lambda>c. bindE (policy_rule c tool) (\<lambda>r. Inr (c, r))) of
        Inr (c, True, rule) \<Rightarrow> Some (c, rule)
      | _ \<Rightarrow> None)"

definition args_of :: "obj option \<Rightarrow> obj" where
  "args_of arguments = (case arguments of None \<Rightarrow> [] | Some a \<Rightarrow> a)"

definition gated :: "obj \<Rightarrow> string \<Rightarrow> string \<Rightarrow> bool" where
  "gated authority cid tool \<longleftrightarrow>
     (case ruled authority cid tool of None \<Rightarrow> False | Some (c, rule) \<Rightarrow> jget ''risk'' rule = JStr ''human_approval'')"

definition call_ops ::
    "gate_env \<Rightarrow> obj \<Rightarrow> string \<Rightarrow> string \<Rightarrow> obj option \<Rightarrow> string option \<Rightarrow> approval_op list" where
  "call_ops env authority cid tool arguments approval =
     (case ruled authority cid tool of
        None \<Rightarrow> []
      | Some (c, rule) \<Rightarrow>
          (if rule_admits rule (args_of arguments) \<and> jget ''risk'' rule = JStr ''human_approval''
           then gated_ops env authority cid tool (args_of arguments) approval else []))"

lemma guarded_call_refused:
  assumes "\<not> rule_admits rule args \<or> jget ''risk'' rule = JStr ''verify_first''"
    and "guarded_call env authority c cid tool rule args approval g = (res, g')"
  shows "gw_calls g' = gw_calls g" "gw_ledger g' = gw_ledger g"
  using assms
  by (auto simp: guarded_call_def rule_admits_def Let_def py_def not_less bindE_returns bindE_raises
      split: sum.splits if_splits option.splits)

lemma guarded_call_admitted:
  assumes "rule_admits rule args" "jget ''risk'' rule \<noteq> JStr ''verify_first''"
  obtains constraints where
    "guarded_call env authority c cid tool rule args approval g =
      (if jget ''risk'' rule = JStr ''human_approval''
       then approved_call env authority c cid tool (jget ''risk'' rule) args constraints approval g
       else perform_call env authority c cid tool (jget ''risk'' rule) args constraints None g)"
proof -
  from assms(1) obtain constraints limit where
    "obj_of (or_empty (jget ''constraints'' rule)) = Inr constraints"
    "byte_bound ''max_argument_bytes'' GATE_ARGUMENT_BYTES constraints = Inr limit"
    "constraint_failure rule args = Inr None" "int (argument_size (JObj args)) \<le> limit"
    by (auto simp: rule_admits_def bindE_returns split: sum.splits option.splits)
  with assms(2) that [of constraints] show thesis by (simp add: guarded_call_def Let_def py_def)
qed

text \<open>A call and what it did: its ledger operation, and the provider it reached.\<close>

lemma call_steps:
  assumes "call_allowed_tool env authority cid tool arguments approval g = (res, g')"
  shows "gw_ledger g' = ap_run_ops (ge_coders env) (call_ops env authority cid tool arguments approval) (gw_ledger g)"
    and "gw_calls g' \<noteq> gw_calls g \<Longrightarrow>
      \<exists>c rule endpoint auth remote. ruled authority cid tool = Some (c, rule)
        \<and> rule_admits rule (args_of arguments) \<and> jget ''risk'' rule \<noteq> JStr ''verify_first''
        \<and> routed c tool = Inr (endpoint, auth, remote)
        \<and> gw_calls g' = gw_calls g @ [(endpoint, auth, remote, args_of arguments)]
        \<and> (jget ''risk'' rule = JStr ''human_approval'' \<longrightarrow> (\<exists>i run q. approval = Some i
            \<and> call_ops env authority cid tool arguments approval
                = [ledger_op env run cid tool (args_of arguments) (Some i)]
            \<and> map_of authority ''run_id'' = Some (JStr run)
            \<and> fst (ap_step (ge_coders env) (ledger_op env run cid tool (args_of arguments) (Some i))
                (gw_ledger g)) = Some q))"
proof -
  let ?args = "args_of arguments"
  let ?ops = "call_ops env authority cid tool arguments approval"
  have both: "gw_ledger g' = ap_run_ops (ge_coders env) ?ops (gw_ledger g)
    \<and> (gw_calls g' \<noteq> gw_calls g \<longrightarrow> (\<exists>c rule endpoint auth remote. ruled authority cid tool = Some (c, rule)
        \<and> rule_admits rule ?args \<and> jget ''risk'' rule \<noteq> JStr ''verify_first''
        \<and> routed c tool = Inr (endpoint, auth, remote)
        \<and> gw_calls g' = gw_calls g @ [(endpoint, auth, remote, ?args)]
        \<and> (jget ''risk'' rule = JStr ''human_approval'' \<longrightarrow> (\<exists>i run q. approval = Some i
            \<and> ?ops = [ledger_op env run cid tool ?args (Some i)]
            \<and> map_of authority ''run_id'' = Some (JStr run)
            \<and> fst (ap_step (ge_coders env) (ledger_op env run cid tool ?args (Some i)) (gw_ledger g)) = Some q))))"
  proof (cases "ruled authority cid tool")
    case None
    then have "gw_calls g' = gw_calls g \<and> gw_ledger g' = gw_ledger g"
      using assms by (auto simp: call_allowed_tool_def ruled_def Let_def split: sum.splits bool.splits)
    with None show ?thesis by (simp add: call_ops_def)
  next
    case (Some p)
    obtain c rule where p: "ruled authority cid tool = Some (c, rule)" using Some by (cases p) auto
    then have call: "guarded_call env authority c cid tool rule ?args approval g = (res, g')"
      using assms by (auto simp: call_allowed_tool_def ruled_def Let_def args_of_def split: sum.splits bool.splits)
    show ?thesis
    proof (cases "rule_admits rule ?args \<and> jget ''risk'' rule \<noteq> JStr ''verify_first''")
      case False
      with guarded_call_refused [OF _ call] p show ?thesis by (auto simp: call_ops_def)
    next
      case True
      from guarded_call_admitted [OF conjunct1 [OF True] conjunct2 [OF True],
          where env = env and authority = authority and c = c and cid = cid and tool = tool
            and approval = approval and g = g]
      obtain constraints where g: "guarded_call env authority c cid tool rule ?args approval g =
        (if jget ''risk'' rule = JStr ''human_approval''
         then approved_call env authority c cid tool (jget ''risk'' rule) ?args constraints approval g
         else perform_call env authority c cid tool (jget ''risk'' rule) ?args constraints None g)" .
      show ?thesis
      proof (cases "jget ''risk'' rule = JStr ''human_approval''")
        case gate: True
        from g call gate have a: "approved_call env authority c cid tool (jget ''risk'' rule) ?args constraints
          approval g = (res, g')" by simp
        have ops: "?ops = gated_ops env authority cid tool ?args approval"
          using p True gate by (simp add: call_ops_def)
        have "gw_calls g' \<noteq> gw_calls g \<longrightarrow> (\<exists>i run q endpoint auth remote. approval = Some i
            \<and> ?ops = [ledger_op env run cid tool ?args (Some i)] \<and> map_of authority ''run_id'' = Some (JStr run)
            \<and> fst (ap_step (ge_coders env) (ledger_op env run cid tool ?args (Some i)) (gw_ledger g)) = Some q
            \<and> routed c tool = Inr (endpoint, auth, remote)
            \<and> gw_calls g' = gw_calls g @ [(endpoint, auth, remote, ?args)])"
          using approved_call_steps(2) [OF a] by (auto simp: ops gated_ops_def)
        with approved_call_steps(1) [OF a] p True show ?thesis unfolding ops by blast
      next
        case False
        from g call False have "perform_call env authority c cid tool (jget ''risk'' rule) ?args constraints None g
          = (res, g')" by simp
        then show ?thesis
          using p True False by (cases rule: perform_call_cases) (auto simp: call_ops_def)
      qed
    qed
  qed
  then show "gw_ledger g' = ap_run_ops (ge_coders env) ?ops (gw_ledger g)" by blast
  from both show "gw_calls g' \<noteq> gw_calls g \<Longrightarrow>
      \<exists>c rule endpoint auth remote. ruled authority cid tool = Some (c, rule)
        \<and> rule_admits rule ?args \<and> jget ''risk'' rule \<noteq> JStr ''verify_first''
        \<and> routed c tool = Inr (endpoint, auth, remote)
        \<and> gw_calls g' = gw_calls g @ [(endpoint, auth, remote, ?args)]
        \<and> (jget ''risk'' rule = JStr ''human_approval'' \<longrightarrow> (\<exists>i run q. approval = Some i
            \<and> ?ops = [ledger_op env run cid tool ?args (Some i)] \<and> map_of authority ''run_id'' = Some (JStr run)
            \<and> fst (ap_step (ge_coders env) (ledger_op env run cid tool ?args (Some i)) (gw_ledger g)) = Some q))"
    by blast
qed


section \<open>Workers and the person who approves\<close>

text \<open>
  Steps of a run on one authority: a worker's call, or an approval. The codec of the ledger is
  the same throughout; everything else about a call is its own.
\<close>

datatype gate_op =
    Worker gate_env string string "obj option" "string option"
  | Human string string int

fun gate_step :: "coders \<Rightarrow> obj \<Rightarrow> gate_op \<Rightarrow> gateway \<Rightarrow> gateway" where
  "gate_step cd authority (Worker env cid tool arguments approval) g =
     snd (call_allowed_tool (env\<lparr>ge_coders := cd\<rparr>) authority cid tool arguments approval g)"
| "gate_step cd authority (Human i human now) g =
     g\<lparr>gw_ledger := snd (approve cd i human now (gw_ledger g))\<rparr>"

fun op_events :: "coders \<Rightarrow> obj \<Rightarrow> gate_op \<Rightarrow> approval_op list" where
  "op_events cd authority (Worker env cid tool arguments approval) =
     call_ops (env\<lparr>ge_coders := cd\<rparr>) authority cid tool arguments approval"
| "op_events cd authority (Human i human now) = [Approve_It i human now]"

text \<open>The log says of each step whether it reached a provider; the trace adds what the ledger logged.\<close>

fun gate_trace ::
    "coders \<Rightarrow> obj \<Rightarrow> gate_op list \<Rightarrow> gateway
       \<Rightarrow> ((gate_op \<times> bool) \<times> (approval_op \<times> receipt option) list) list" where
  "gate_trace cd authority [] g = []"
| "gate_trace cd authority (op # ops) g =
     (let g1 = gate_step cd authority op g in
      ((op, gw_calls g1 \<noteq> gw_calls g), ap_log cd (op_events cd authority op) (gw_ledger g))
        # gate_trace cd authority ops g1)"

definition gate_log :: "coders \<Rightarrow> obj \<Rightarrow> gate_op list \<Rightarrow> gateway \<Rightarrow> (gate_op \<times> bool) list" where
  "gate_log cd authority ops g = map fst (gate_trace cd authority ops g)"

definition gate_run :: "coders \<Rightarrow> obj \<Rightarrow> gate_op list \<Rightarrow> gateway \<Rightarrow> gateway" where
  "gate_run cd authority ops g = fold (gate_step cd authority) ops g"

lemma gate_step_ledger:
  "gw_ledger (gate_step cd authority op g) = ap_run_ops cd (op_events cd authority op) (gw_ledger g)"
proof (cases op)
  case (Worker env cid tool arguments approval)
  obtain res g' where "call_allowed_tool (env\<lparr>ge_coders := cd\<rparr>) authority cid tool arguments approval g = (res, g')"
    by fastforce
  from call_steps(1) [OF this] this Worker show ?thesis by simp
next
  case (Human i human now)
  then show ?thesis by (cases "approve cd i human now (gw_ledger g)") simp
qed

lemma gate_trace_log:
  "ap_log cd (concat (map (op_events cd authority) ops)) (gw_ledger g)
     = concat (map snd (gate_trace cd authority ops g))
   \<and> gw_ledger (gate_run cd authority ops g)
     = ap_run_ops cd (concat (map (op_events cd authority) ops)) (gw_ledger g)"
proof (induction ops arbitrary: g)
  case (Cons op ops)
  from Cons.IH [of "gate_step cd authority op g"] show ?case
    by (simp add: ap_log_append ap_run_ops_append gate_step_ledger gate_run_def Let_def)
qed (simp add: gate_run_def)

lemma gate_trace_step:
  assumes "((op, sent), evs) \<in> set (gate_trace cd authority ops g)"
  shows "\<exists>g0. sent = (gw_calls (gate_step cd authority op g0) \<noteq> gw_calls g0)
    \<and> evs = ap_log cd (op_events cd authority op) (gw_ledger g0)"
  using assms by (induction ops arbitrary: g) (auto simp: Let_def)

lemma gate_trace_events:
  assumes "z \<in> set (gate_trace cd authority ops g)"
  obtains f where "snd z = ap_log cd (op_events cd authority (fst (fst z))) f"
  using assms gate_trace_step [of "fst (fst z)" "snd (fst z)" "snd z" cd authority ops g]
  unfolding prod.collapse by blast

lemma op_events_single: "length (op_events cd authority op) \<le> 1"
  by (cases op) (auto simp: call_ops_def gated_ops_def split: option.split json.split)

lemma ap_log_length [simp]: "length (ap_log cd ops f) = length ops"
  by (induction ops arbitrary: f) simp_all

lemma concat_split:
  assumes "concat (map f xs) = a @ e # b" and "\<And>x. x \<in> set xs \<Longrightarrow> length (f x) \<le> 1"
  obtains ys x zs where "xs = ys @ x # zs" "f x = [e]" "concat (map f ys) = a" "concat (map f zs) = b"
  using assms
proof (induction xs arbitrary: a thesis)
  case (Cons x xs)
  show thesis
  proof (cases "f x")
    case Nil
    with Cons.prems(2) have "concat (map f xs) = a @ e # b" by simp
    with Cons.IH Cons.prems(3) obtain ys y zs where "xs = ys @ y # zs" "f y = [e]" "concat (map f ys) = a"
      "concat (map f zs) = b" by (metis list.set_intros(2))
    with Nil show thesis by (intro Cons.prems(1) [of "x # ys" y zs]) simp_all
  next
    case (Cons e' es)
    with Cons.prems(3) [of x] have x: "f x = [e']" by simp
    show thesis
    proof (cases a)
      case Nil
      with x Cons.prems(2) show thesis by (intro Cons.prems(1) [of "[]" x xs]) simp_all
    next
      case a: (Cons e'' a')
      with x Cons.prems(2) have "concat (map f xs) = a' @ e # b" "e'' = e'" by simp_all
      with Cons.IH Cons.prems(3) obtain ys y zs where "xs = ys @ y # zs" "f y = [e]" "concat (map f ys) = a'"
        "concat (map f zs) = b" by (metis list.set_intros(2))
      with x a \<open>e'' = e'\<close> show thesis by (intro Cons.prems(1) [of "x # ys" y zs]) simp_all
    qed
  qed
qed simp

text \<open>
  The step that asked for a call: the same run, connector, tool and arguments, by a worker without
  an approval.
\<close>

definition asked_for :: "coders \<Rightarrow> obj \<Rightarrow> gate_op \<Rightarrow> string \<Rightarrow> string \<Rightarrow> obj \<Rightarrow> int \<Rightarrow> bool" where
  "asked_for cd authority op cid tool args deadline \<longleftrightarrow>
     (\<exists>env cid' tool' arguments' run. op = Worker env cid' tool' arguments' None
        \<and> map_of authority ''run_id'' = Some (JStr run)
        \<and> same_request cd (Ask (ge_draws env) run cid' tool' (JObj (args_of arguments')) 300 (ge_now env))
            run cid tool (JObj args) deadline)"

text \<open>The call that spends an approval.\<close>

fun spends :: "obj \<Rightarrow> string \<Rightarrow> gate_op \<Rightarrow> bool" where
  "spends authority i (Worker env cid tool arguments approval) =
     (gated authority cid tool \<and> (case approval of None \<Rightarrow> False | Some j \<Rightarrow> strip j = strip i))"
| "spends authority i (Human j human now) = False"

lemma sent_spends_logged:
  assumes "((op, True), evs) \<in> set (gate_trace cd authority ops g)" and "spends authority i op"
  shows "\<exists>j run cid tool args now q. evs = [(Consume_It j run cid tool args now, Some q)] \<and> strip j = strip i"
proof -
  from gate_trace_step [OF assms(1)] obtain g0 where
    sent: "gw_calls (gate_step cd authority op g0) \<noteq> gw_calls g0"
    and evs: "evs = ap_log cd (op_events cd authority op) (gw_ledger g0)" by blast
  from assms(2) obtain env cid tool arguments j where op: "op = Worker env cid tool arguments (Some j)"
    "gated authority cid tool" "strip j = strip i" by (cases op) (auto split: option.splits)
  let ?env = "env\<lparr>ge_coders := cd\<rparr>"
  obtain res g' where call: "call_allowed_tool ?env authority cid tool arguments (Some j) g0 = (res, g')" by fastforce
  with sent op(1) have "gw_calls g' \<noteq> gw_calls g0" by simp
  from call_steps(2) [OF call this] op(2) obtain run q where
    "call_ops ?env authority cid tool arguments (Some j) = [ledger_op ?env run cid tool (args_of arguments) (Some j)]"
    "fst (ap_step cd (ledger_op ?env run cid tool (args_of arguments) (Some j)) (gw_ledger g0)) = Some q"
    by (auto simp: gated_def)
  then have log: "evs = [(ledger_op ?env run cid tool (args_of arguments) (Some j), Some q)]"
    using evs op(1) by simp
  then show ?thesis using op(3) by (auto simp: ledger_op_def)
qed

lemma ap_log_single: "ap_log cd ops f = [e] \<Longrightarrow> ops = [fst e]"
  by (cases ops; cases "tl ops") auto

lemma call_ops_single:
  "call_ops env authority cid tool arguments approval = [op] \<longleftrightarrow>
     (\<exists>c rule run. ruled authority cid tool = Some (c, rule) \<and> rule_admits rule (args_of arguments)
        \<and> jget ''risk'' rule = JStr ''human_approval'' \<and> approvals_enabled authority
        \<and> map_of authority ''run_id'' = Some (JStr run) \<and> op = ledger_op env run cid tool (args_of arguments) approval)"
  by (auto simp: call_ops_def gated_ops_def split: option.split json.split)

text \<open>A gated call that reaches a provider: what the run did before.\<close>

lemma gated_call_history:
  assumes g: "g = gate_run cd authority ops start" and start: "gw_ledger start = No_File"
    and call: "call_allowed_tool (env\<lparr>ge_coders := cd\<rparr>) authority cid tool arguments approval g = (res, g')"
    and sent: "gw_calls g' \<noteq> gw_calls g" and gated: "gated authority cid tool"
  shows "\<exists>i la ask lb k human t approved lc deadline. approval = Some i
      \<and> gate_log cd authority ops start = la @ ask # lb @ (Human k human t, approved) # lc
      \<and> asked_for cd authority (fst ask) cid tool (args_of arguments) deadline
      \<and> strip k = strip i \<and> t < deadline \<and> ge_now env < deadline
      \<and> (\<forall>(op, reached) \<in> set lb \<union> set lc. \<not> (reached \<and> spends authority i op))"
proof -
  let ?env = "env\<lparr>ge_coders := cd\<rparr>" and ?args = "args_of arguments"
  let ?evs = "concat (map (op_events cd authority) ops)"
  let ?tr = "gate_trace cd authority ops start"
  from call_steps(2) [OF call sent] gated obtain i run q where i: "approval = Some i"
    "map_of authority ''run_id'' = Some (JStr run)"
    "fst (ap_step cd (ledger_op ?env run cid tool ?args (Some i)) (gw_ledger g)) = Some q"
    by (auto simp: gated_def)
  let ?now = "ge_now env"
  have op: "ledger_op ?env run cid tool ?args (Some i) = Consume_It i run cid tool (JObj ?args) ?now"
    by (simp add: ledger_op_def)
  have log: "ap_log cd ?evs No_File = concat (map snd ?tr)" "gw_ledger g = ap_run_ops cd ?evs No_File"
    using gate_trace_log [of cd authority ops start] g start by simp_all
  have "ap_log cd (?evs @ [Consume_It i run cid tool (JObj ?args) ?now]) No_File
      = concat (map snd ?tr) @ (Consume_It i run cid tool (JObj ?args) ?now, Some q) # []"
    using log i(3) op by (simp add: ap_log_append)
  from consumption_trace [OF this] obtain a ask b k human t appr c deadline where
    tr: "concat (map snd ?tr) = a @ ask # b @ (Approve_It k human t, appr) # c"
      "same_request cd (fst ask) run cid tool (JObj ?args) deadline" "about (strip i) ask"
      "about (strip i) (Approve_It k human t, appr)" "t < deadline" "?now < deadline"
      "\<forall>x \<in> set b \<union> set c. \<not> about (strip i) x" "strip k = strip i" by blast
  have small: "length (snd x) \<le> 1" if "x \<in> set ?tr" for x
    using gate_trace_step [of "fst (fst x)" "snd (fst x)" "snd x"] that op_events_single by fastforce
  obtain xs x ys where x: "?tr = xs @ x # ys" "snd x = [ask]" "concat (map snd xs) = a"
    "concat (map snd ys) = b @ (Approve_It k human t, appr) # c"
    using tr(1) small by (rule concat_split)
  have "length (snd y) \<le> 1" if "y \<in> set ys" for y using small that x(1) by simp
  with x(4) obtain us y vs where y: "ys = us @ y # vs" "snd y = [(Approve_It k human t, appr)]"
    "concat (map snd us) = b" "concat (map snd vs) = c"
    by (rule concat_split)
  have "x \<in> set ?tr" "y \<in> set ?tr" using x(1) y(1) by simp_all
  with x(2) y(2) have events: "op_events cd authority (fst (fst x)) = [fst ask]"
    "op_events cd authority (fst (fst y)) = [Approve_It k human t]"
    by (metis ap_log_single fst_conv gate_trace_events)+
  have human: "fst (fst y) = Human k human t"
    using events(2) by (cases "fst (fst y)") (auto simp: call_ops_single ledger_op_def split: option.splits)
  have asked: "asked_for cd authority (fst (fst x)) cid tool ?args deadline"
    using events(1) tr(2) i(2)
    by (cases "fst (fst x)")
      (auto simp: call_ops_single ledger_op_def same_request_def asked_for_def split: option.splits)
  have quiet: "\<not> (snd (fst z) \<and> spends authority i (fst (fst z)))" if z: "z \<in> set us \<union> set vs" for z
  proof
    assume "snd (fst z) \<and> spends authority i (fst (fst z))"
    then have s: "snd (fst z)" "spends authority i (fst (fst z))" by simp_all
    have "z \<in> set ?tr" using z x(1) y(1) by auto
    moreover have "z = ((fst (fst z), True), snd z)" using s(1) by (simp add: prod_eq_iff)
    ultimately have "((fst (fst z), True), snd z) \<in> set ?tr" by simp
    from sent_spends_logged [OF this s(2)] obtain j run' cid' tool' args' now' q' where
      e: "snd z = [(Consume_It j run' cid' tool' args' now', Some q')]" "strip j = strip i" by blast
    let ?e = "(Consume_It j run' cid' tool' args' now', Some q')"
    have "?e \<in> set b \<union> set c" using z e(1) unfolding y(3) [symmetric] y(4) [symmetric] by force
    moreover have "?e \<in> set (ap_log cd ?evs No_File)" using calculation tr(1) log(1) by auto
    then obtain pre post where "ap_log cd ?evs No_File = pre @ ?e # post" by (metis split_list)
    from consumption_trace [OF this] have "rc_id q' = strip j" by blast
    ultimately show False using tr(7) e(2) by (auto simp: about_def)
  qed
  have "gate_log cd authority ops start
      = map fst xs @ fst x # map fst us @ (Human k human t, snd (fst y)) # map fst vs"
    using x(1) y(1) human by (simp add: gate_log_def prod_eq_iff)
  moreover have "strip k = strip i" using tr(8) .
  moreover have "\<forall>(op, reached) \<in> set (map fst us) \<union> set (map fst vs). \<not> (reached \<and> spends authority i op)"
  proof (intro ballI, clarify)
    fix op reached assume "(op, reached) \<in> set (map fst us) \<union> set (map fst vs)" "reached" "spends authority i op"
    moreover from this(1) have "(op, reached) \<in> fst ` (set us \<union> set vs)" by (simp add: image_Un)
    then obtain z where "z \<in> set us \<union> set vs" "fst z = (op, reached)" by (elim imageE) simp
    ultimately show False using quiet [of z] by simp
  qed
  ultimately show ?thesis
    using i(1) asked tr(5,6)
    by - (rule exI [where x = i], rule exI [where x = "map fst xs"], rule exI [where x = "fst x"],
      rule exI [where x = "map fst us"], rule exI [where x = k], rule exI [where x = human],
      rule exI [where x = t], rule exI [where x = "snd (fst y)"], rule exI [where x = "map fst vs"],
      rule exI [where x = deadline], simp)
qed


section \<open>On a frozen authority\<close>

lemma find_connector_member:
  "find_connector vs i = Inr c \<Longrightarrow> JObj c \<in> set vs \<and> jget ''id'' c = JStr i"
  by (induction vs) (auto simp: bindE_returns py_def obj_of_returns split: sum.splits if_splits)

lemma py_returns: "py m = Inr x \<longleftrightarrow> m = Inr x"
  by (auto simp: py_def split: sum.split)

text \<open>The endpoint a call goes to is that of the connector, or of one of its services.\<close>

lemma routed_endpoint:
  assumes "routed c tool = Inr (endpoint, auth, remote)"
  shows "(\<exists>v. jget ''endpoint'' c = v \<and> truthy v \<and> endpoint = py_str v
      \<and> (case jget ''dispatch'' c of JObj d \<Rightarrow> jget ''strategy'' d \<noteq> JStr ''tool_prefix'' | _ \<Rightarrow> True))
    \<or> (\<exists>d services service v. jget ''dispatch'' c = JObj d \<and> or_empty (jget ''services'' d) = JObj services
        \<and> jget service services = v \<and> truthy v \<and> endpoint = py_str v)"
proof -
  from assms obtain target where t: "dispatch_tool c tool = Inr (target, remote)"
    "open_session target = Inr (endpoint, auth)" by (auto simp: routed_def bindE_returns)
  have ep: "truthy (jget ''endpoint'' target) \<and> endpoint = py_str (jget ''endpoint'' target)"
    using t(2) by (auto simp: open_session_def Let_def bindE_returns split: if_splits)
  from t(1) obtain d where d: "or_empty (jget ''dispatch'' c) = JObj d"
    by (auto simp: dispatch_tool_def bindE_returns py_returns obj_of_returns)
  show ?thesis
  proof (cases "jget ''strategy'' d = JStr ''tool_prefix''")
    case False
    with t(1) d have "target = c" by (simp add: dispatch_tool_def obj_of_def py_def)
    moreover have "case jget ''dispatch'' c of JObj d \<Rightarrow> jget ''strategy'' d \<noteq> JStr ''tool_prefix'' | _ \<Rightarrow> True"
      using d False by (auto simp: or_empty_def jget_def split: json.split if_splits)
    ultimately show ?thesis using ep by blast
  next
    case True
    then have "d \<noteq> []" by (auto simp: jget_def)
    with d have dc: "jget ''dispatch'' c = JObj d" by (auto simp: or_empty_def split: if_splits)
    obtain service found rest where part: "partition_at (CHR ''.'') tool = (service, found, rest)"
      by (metis prod_cases3)
    from t(1) d True part obtain services where "or_empty (jget ''services'' d) = JObj services"
      "truthy (jget service services)" "target = service_target c (jget service services)"
      by (auto simp: dispatch_tool_def bindE_returns py_returns obj_of_returns obj_of_def py_def Let_def
          split: if_splits json.splits)
    with ep dc show ?thesis by (auto simp: service_target_def jget_update)
  qed
qed

text \<open>
  What a call that reached a provider says about the authority: the user enabled the connector, its
  frozen policy lists the tool as readable or as gated, and the endpoint is confined to what the
  catalog allows for the provider.
\<close>

definition sent_within ::
    "host \<Rightarrow> obj \<Rightarrow> string \<Rightarrow> string \<Rightarrow> string \<Rightarrow> obj \<Rightarrow> (string \<times> session_auth \<times> string \<times> obj) \<Rightarrow> bool" where
  "sent_within h cfg subject cid tool args sent \<longleftrightarrow>
     (\<exists>cat path s item policy rule. load_catalog h cfg = Inr (cat, path)
        \<and> installation_settings h cfg subject = Inr s \<and> JStr cid \<in> set (se_enabled s)
        \<and> pd_get (JStr cid) cat = Some item \<and> jget ''runtime'' item = JStr ''gateway''
        \<and> tool_policy cid (override_for (JStr cid) s) = Inr policy \<and> map_of policy tool = Some (JObj rule)
        \<and> (jget ''risk'' rule = JStr ''read'' \<or> jget ''risk'' rule = JStr ''human_approval'')
        \<and> rule_admits rule args \<and> confined h item (fst sent) \<and> snd (snd (snd sent)) = args)"

lemma ruled_policy:
  assumes "ruled authority cid tool = Some (c, rule)"
  shows "\<exists>cs policy. py_iter (list_or_empty (jget ''connectors'' authority)) = Inr cs \<and> JObj c \<in> set cs
    \<and> jget ''id'' c = JStr cid \<and> or_empty (jget ''tool_policy'' c) = JObj policy
    \<and> jget tool policy = JObj rule \<and> rule \<noteq> [] \<and> jget ''risk'' rule \<noteq> JStr ''deny''"
proof -
  from assms have c: "connector_by_id authority cid = Inr c" "policy_rule c tool = Inr (True, rule)"
    by (auto simp: ruled_def bindE_returns split: sum.splits bool.splits)
  from c(1) obtain cs where cs: "py_iter (list_or_empty (jget ''connectors'' authority)) = Inr cs"
    "find_connector cs cid = Inr c" by (auto simp: connector_by_id_def bindE_returns py_returns)
  from c(2) obtain policy where p: "or_empty (jget ''tool_policy'' c) = JObj policy"
    and r: "(if truthy (jget tool policy)
        then bindE (py (obj_of (jget tool policy))) (\<lambda>rule. Inr (jget ''risk'' rule \<noteq> JStr ''deny'', rule))
        else Inr (False, [])) = Inr (True, rule)"
    unfolding policy_rule_def bindE_returns py_returns obj_of_returns by blast
  from r have t: "truthy (jget tool policy)" by (simp split: if_splits)
  with r have "bindE (py (obj_of (jget tool policy))) (\<lambda>rule. Inr (jget ''risk'' rule \<noteq> JStr ''deny'', rule))
      = Inr (True, rule)" by simp
  then have "jget tool policy = JObj rule" "jget ''risk'' rule \<noteq> JStr ''deny''"
    unfolding bindE_returns py_returns obj_of_returns by auto
  with cs p t find_connector_member [OF cs(2)] show ?thesis by auto
qed

lemma sent_call_within:
  assumes snap: "authority_snapshot h cfg run receipt_path subject approval_path = Inr authority"
    and call: "call_allowed_tool env authority cid tool arguments approval g = (res, g')"
    and sent: "gw_calls g' \<noteq> gw_calls g"
  shows "\<exists>call. gw_calls g' = gw_calls g @ [call] \<and> sent_within h cfg subject cid tool (args_of arguments) call"
proof -
  from call_steps(2) [OF call sent] obtain c rule endpoint auth remote where
    s: "ruled authority cid tool = Some (c, rule)" "rule_admits rule (args_of arguments)"
      "jget ''risk'' rule \<noteq> JStr ''verify_first''" "routed c tool = Inr (endpoint, auth, remote)"
      "gw_calls g' = gw_calls g @ [(endpoint, auth, remote, args_of arguments)]" by blast
  from snapshot_granted [OF snap] obtain cat path st active where a: "load_catalog h cfg = Inr (cat, path)"
    "installation_settings h cfg subject = Inr st" "jget ''connectors'' authority = JArr active"
    "\<forall>v \<in> set active. granted_connector h cat st subject v" .
  from ruled_policy [OF s(1)] a(3) obtain policy where p: "JObj c \<in> set active" "jget ''id'' c = JStr cid"
    "or_empty (jget ''tool_policy'' c) = JObj policy" "jget tool policy = JObj rule"
    "rule \<noteq> []" "jget ''risk'' rule \<noteq> JStr ''deny''"
    by (auto simp: list_or_empty_def split: if_splits)
  from a(4) p(1,2) obtain item url pol where gr: "JStr cid \<in> set (se_enabled st)" "pd_get (JStr cid) cat = Some item"
    "jget ''runtime'' item = JStr ''gateway''" "jget ''endpoint'' c = JStr url" "url = [] \<or> confined h item url"
    "jget ''tool_policy'' c = JObj pol" "tool_policy cid (override_for (JStr cid) st) = Inr pol"
    "jget ''dispatch'' c = JNull \<or> (\<exists>raw services. jget ''dispatch'' c = JObj raw \<and> raw \<noteq> []
       \<and> jget ''strategy'' raw = JStr ''tool_prefix'' \<and> jget ''services'' raw = JObj services
       \<and> bundle_ok h item services)"
    unfolding granted_connector_def by fastforce
  have "pol = policy" using p(3) gr(6) by (simp add: or_empty_def split: if_splits)
  have "map_of policy tool = Some (JObj rule)" using p(4) by (simp add: jget_def split: option.splits)
  moreover from this have "(tool, JObj rule) \<in> set policy" by (rule map_of_SomeD)
  with tool_policy_risks [OF gr(7)] \<open>pol = policy\<close> have "jget ''risk'' rule \<in> JStr ` set RISK_CLASSES" by fastforce
  then have "jget ''risk'' rule = JStr ''read'' \<or> jget ''risk'' rule = JStr ''human_approval''"
    using s(3) p(6) by (auto simp: RISK_CLASSES_def)
  moreover have "confined h item endpoint"
    using routed_endpoint [OF s(4)]
  proof (elim disjE exE conjE)
    fix v assume "jget ''endpoint'' c = v" "truthy v" "endpoint = py_str v"
    with gr(4,5) show ?thesis by auto
  next
    fix d services service v
    assume d: "jget ''dispatch'' c = JObj d" "or_empty (jget ''services'' d) = JObj services"
      "jget service services = v" "truthy v" "endpoint = py_str v"
    with gr(8) have "bundle_ok h item services" by (auto simp: or_empty_def split: if_splits)
    moreover have "(service, v) \<in> set services"
      using d(3,4) by (auto simp: jget_def split: option.splits dest: map_of_SomeD)
    ultimately show ?thesis using d(5) by (fastforce simp: bundle_ok_def)
  qed
  ultimately have "sent_within h cfg subject cid tool (args_of arguments) (endpoint, auth, remote, args_of arguments)"
    using a(1,2) gr(1-3,7) \<open>pol = policy\<close> s(2) unfolding sent_within_def by auto
  with s(5) show ?thesis by blast
qed


section \<open>Discovery\<close>

text \<open>What every listing satisfies.\<close>

definition listing_ok :: "(string \<times> obj) list \<times> nat \<Rightarrow> bool" where
  "listing_ok acc \<longleftrightarrow> distinct (map fst (fst acc)) \<and> length (fst acc) \<le> MAX_TOOLS
     \<and> int (snd acc) \<le> MAX_DISCOVERY_BYTES \<and> list_all (\<lambda>(name, item). tool_name_ok name \<and> jget ''name'' item = JStr name) (fst acc)"

lemma listing_ok_empty [simp]: "listing_ok ([], 0)"
  by (simp add: listing_ok_def MAX_DISCOVERY_BYTES_def)

lemma add_tools_ok:
  "add_tools c ts acc = Inr acc' \<Longrightarrow> listing_ok acc \<Longrightarrow> listing_ok acc'"
proof (induction c ts acc rule: add_tools.induct)
  case (2 c t ts tools bytes)
  let ?acc = "(tools @ [(rt_name t, tool_item t)], bytes + compact_size True (JObj (tool_item t)))"
  from 2(2) have t: "tool_name_ok (rt_name t)" "rt_name t \<notin> fst ` set tools" "length tools + 1 \<le> MAX_TOOLS"
    "int (bytes + compact_size True (JObj (tool_item t))) \<le> MAX_DISCOVERY_BYTES" "add_tools c ts ?acc = Inr acc'"
    "\<not> MAX_TOOL_DESCRIPTION_BYTES < int (utf8_length (rt_description t))"
    "\<not> MAX_TOOL_SCHEMA_BYTES < int (compact_size False (rt_schema t))"
    by (auto simp: Let_def split: if_splits)
  moreover have "listing_ok ?acc"
    using t(1-4) 2(3) by (auto simp: listing_ok_def tool_item_def jget_def)
  ultimately show ?case using 2(1) by (simp add: Let_def)
qed simp

lemma discover_pages_ok:
  "discover_pages env c endpoint auth pages cursor acc = Inr tools \<Longrightarrow> listing_ok acc \<Longrightarrow>
     \<exists>bytes. listing_ok (tools, bytes)"
proof (induction env c endpoint auth pages cursor acc rule: discover_pages.induct)
  case (1 env c endpoint auth pages cursor acc)
  from 1(2) obtain ts next_cursor acc1 where s: "pages < MAX_DISCOVERY_PAGES"
    "ge_page env endpoint auth cursor = Inr (ts, next_cursor)" "add_tools c ts acc = Inr acc1"
    "(if next_cursor = [] then Inr (fst acc1)
      else discover_pages env c endpoint auth (pages + 1) next_cursor acc1) = Inr tools"
    by (subst (asm) discover_pages.simps) (auto split: if_splits sum.splits)
  from add_tools_ok [OF s(3) 1(3)] have ok: "listing_ok acc1" .
  show ?case
  proof (cases "next_cursor = []")
    case True
    with s(4) ok show ?thesis by (cases acc1) auto
  next
    case False
    with s ok 1(1) [OF _ s(2)] show ?thesis by auto
  qed
qed

lemma discover_endpoint_ok:
  "discover_endpoint env c = Inr tools \<Longrightarrow> \<exists>bytes. listing_ok (tools, bytes)"
proof -
  assume "discover_endpoint env c = Inr tools"
  then obtain endpoint auth where "discover_pages env (py_str (jget ''id'' c)) endpoint auth 0 [] ([], 0) = Inr tools"
    by (auto simp: discover_endpoint_def bindE_returns)
  then show ?thesis by (rule discover_pages_ok) simp
qed

lemma add_bundled_ok:
  "add_bundled c service ts acc = Inr acc' \<Longrightarrow> listing_ok acc \<Longrightarrow>
     listing_ok acc' \<and> (\<forall>p \<in> set (fst acc'). p \<in> set (fst acc) \<or> (\<exists>name \<in> fst ` set ts. fst p = service @ ''.'' @ name))"
proof (induction c service ts acc rule: add_bundled.induct)
  case (2 c service name item ts tools bytes)
  let ?public = "service @ ''.'' @ name"
  let ?item = "AList.update ''name'' (JStr ?public) item"
  let ?acc = "(tools @ [(?public, ?item)], bytes + compact_size True (JObj ?item))"
  from 2(2) have t: "?public \<notin> fst ` set tools" "tool_name_ok ?public" "length tools < MAX_TOOLS"
    "int (bytes + compact_size True (JObj ?item)) \<le> MAX_DISCOVERY_BYTES" "add_bundled c service ts ?acc = Inr acc'"
    by (auto simp: Let_def split: if_splits)
  moreover have "listing_ok ?acc"
    using t(1-4) 2(3) by (auto simp: listing_ok_def jget_update)
  ultimately have "listing_ok acc' \<and> (\<forall>p \<in> set (fst acc'). p \<in> set (fst ?acc)
      \<or> (\<exists>name \<in> fst ` set ts. fst p = service @ ''.'' @ name))"
    using 2(1) by (simp add: Let_def)
  then show ?case by fastforce
qed simp

text \<open>A public name of a bundle comes from one of its services.\<close>

lemma discover_services_ok:
  "discover_services env c ss acc = Inr tools \<Longrightarrow> listing_ok acc \<Longrightarrow>
     (\<exists>bytes. listing_ok (tools, bytes))
     \<and> (\<forall>p \<in> set tools. p \<in> set (fst acc) \<or> (\<exists>service endpoint found name. (service, endpoint) \<in> set ss
          \<and> discover_endpoint env (service_target c endpoint) = Inr found \<and> name \<in> fst ` set found
          \<and> fst p = service @ ''.'' @ name))"
proof (induction env c ss acc rule: discover_services.induct)
  case (1 env c acc)
  then show ?case by (cases acc) auto
next
  case (2 env c service endpoint ss acc)
  from 2(2) obtain found acc1 where s: "discover_endpoint env (service_target c endpoint) = Inr found"
    "add_bundled (py_str (jget ''id'' c)) service found acc = Inr acc1" "discover_services env c ss acc1 = Inr tools"
    "tool_name_ok service"
    by (auto simp: bindE_returns split: if_splits)
  from add_bundled_ok [OF s(2) 2(3)] have a: "listing_ok acc1"
    "\<forall>p \<in> set (fst acc1). p \<in> set (fst acc) \<or> (\<exists>name \<in> fst ` set found. fst p = service @ ''.'' @ name)" by blast+
  have "(\<exists>bytes. listing_ok (tools, bytes)) \<and> (\<forall>p \<in> set tools. p \<in> set (fst acc1)
      \<or> (\<exists>service endpoint found name. (service, endpoint) \<in> set ss
          \<and> discover_endpoint env (service_target c endpoint) = Inr found \<and> name \<in> fst ` set found
          \<and> fst p = service @ ''.'' @ name))"
    using 2(1) [OF _ s(3) a(1)] s(4) by simp
  with a(2) s(1) show ?case by (metis list.set_intros(1) list.set_intros(2))
qed

text \<open>
  Calling a tool by the name it was listed under goes to the endpoint that listed it, under the name
  that endpoint has for it.
\<close>

definition dotless_bundle :: "obj \<Rightarrow> bool" where
  "dotless_bundle c \<longleftrightarrow>
     (case jget ''dispatch'' c of
        JObj d \<Rightarrow> (case jget ''services'' d of
            JObj services \<Rightarrow> distinct (map fst services)
              \<and> list_all (\<lambda>(service, endpoint). CHR ''.'' \<notin> set service \<and> truthy endpoint) services
          | _ \<Rightarrow> True)
      | _ \<Rightarrow> True)"

lemma bundle_ok_dotless:
  "bundle_ok h item services \<Longrightarrow> list_all (\<lambda>(service, endpoint). CHR ''.'' \<notin> set service \<and> truthy endpoint) services"
proof -
  have dot: "\<not> lower_letter (CHR ''.'')" "\<not> is_digit (CHR ''.'')" by code_simp+
  have "tool_prefix_ok s \<Longrightarrow> CHR ''.'' \<notin> set s" for s
    using dot by (auto simp: tool_prefix_ok_def list_all_iff split: list.splits)
  then show "bundle_ok h item services \<Longrightarrow> ?thesis" by (fastforce simp: bundle_ok_def list_all_iff)
qed

lemma listed_tool_routes_back:
  assumes "discover_tools env c = Inr tools" and "(public, item) \<in> set tools" and "dotless_bundle c"
  shows "\<exists>target remote found. dispatch_tool c public = Inr (target, remote)
    \<and> discover_endpoint env target = Inr found \<and> remote \<in> fst ` set found"
proof -
  from assms(1) obtain d where d: "or_empty (jget ''dispatch'' c) = JObj d"
    by (auto simp: discover_tools_def bindE_returns py_returns obj_of_returns)
  then have od: "py (obj_of (or_empty (jget ''dispatch'' c))) = Inr d" by (simp add: py_def obj_of_def)
  show ?thesis
  proof (cases "jget ''strategy'' d = JStr ''tool_prefix''")
    case False
    with assms(1) od have "discover_endpoint env c = Inr tools" by (simp add: discover_tools_def)
    moreover have "dispatch_tool c public = Inr (c, public)" using od False by (simp add: dispatch_tool_def)
    ultimately show ?thesis using assms(2) by (metis fst_conv image_eqI)
  next
    case True
    then have "d \<noteq> []" by (auto simp: jget_def)
    with d have dc: "jget ''dispatch'' c = JObj d" by (auto simp: or_empty_def split: if_splits)
    obtain services where sv: "or_empty (jget ''services'' d) = JObj services"
      using assms(1) od True by (cases "or_empty (jget ''services'' d)") (auto simp: discover_tools_def)
    have run: "discover_services env c services ([], 0) = Inr tools" "services \<noteq> []"
      using assms(1) od True sv by (auto simp: discover_tools_def split: if_splits)
    have "listing_ok ([], 0)" by simp
    from discover_services_ok [OF run(1) this] assms(2)
    have "\<exists>service endpoint found name. (service, endpoint) \<in> set services
      \<and> discover_endpoint env (service_target c endpoint) = Inr found \<and> name \<in> fst ` set found
      \<and> public = service @ ''.'' @ name" by (metis empty_iff fst_conv list.set(1))
    then obtain service endpoint found name where f: "(service, endpoint) \<in> set services"
      "discover_endpoint env (service_target c endpoint) = Inr found" "name \<in> fst ` set found"
      "public = service @ ''.'' @ name" by blast
    have "jget ''services'' d = JObj services" using sv \<open>services \<noteq> []\<close> by (auto simp: or_empty_def split: if_splits)
    with assms(3) dc f(1) have ok: "distinct (map fst services)" "CHR ''.'' \<notin> set service" "truthy endpoint"
      by (auto simp: dotless_bundle_def list_all_iff)
    have "jget service services = endpoint" using ok(1) f(1) by (simp add: jget_def)
    moreover have "partition_at (CHR ''.'') public = (service, True, name)"
      using partition_at_present [OF ok(2), of name] f(4) by simp
    moreover have "name \<noteq> []"
    proof -
      from discover_endpoint_ok [OF f(2)] f(3) have "tool_name_ok name" by (auto simp: listing_ok_def list_all_iff)
      then show ?thesis by (simp add: tool_name_ok_def)
    qed
    ultimately have "dispatch_tool c public = Inr (service_target c endpoint, name)"
      using od True sv ok(3) by (simp add: dispatch_tool_def py_def obj_of_def Let_def)
    with f(2,3) show ?thesis by blast
  qed
qed

lemma discovery_bounded:
  assumes "discover_tools env c = Inr tools"
  shows "length tools \<le> MAX_TOOLS" "distinct (map fst tools)" "\<forall>(name, item) \<in> set tools. tool_name_ok name"
proof -
  from assms obtain d where od: "py (obj_of (or_empty (jget ''dispatch'' c))) = Inr d"
    by (auto simp: discover_tools_def bindE_returns)
  have "\<exists>bytes. listing_ok (tools, bytes)"
  proof (cases "jget ''strategy'' d = JStr ''tool_prefix''")
    case False
    with assms od discover_endpoint_ok show ?thesis by (simp add: discover_tools_def)
  next
    case True
    then obtain services where "discover_services env c services ([], 0) = Inr tools"
      using assms od by (cases "or_empty (jget ''services'' d)") (auto simp: discover_tools_def split: if_splits)
    moreover have "listing_ok ([], 0)" by simp
    ultimately show ?thesis using discover_services_ok by blast
  qed
  then show "length tools \<le> MAX_TOOLS" "distinct (map fst tools)" "\<forall>(name, item) \<in> set tools. tool_name_ok name"
    by (auto simp: listing_ok_def list_all_iff)
qed

end
