(* ===== verification/Connector_Samples.thy ===== *)
theory Connector_Samples
  imports Gateway_Correct
begin

text \<open>One small installation, one authority and one run of the gateway, for the witnesses.\<close>

definition sample_catalog :: json where
  "sample_catalog =
     JObj [(''schema_version'', JStr ''rally.connector-catalog/v1''),
       (''connectors'', JArr [JObj
         [(''id'', JStr ''crm''), (''name'', JStr ''CRM''), (''runtime'', JStr ''gateway''),
          (''transport'', JStr ''streamable_http''), (''endpoint'', JStr ''https://crm.example/mcp''),
          (''allowed_endpoint_hosts'', strs [''crm.example'']),
          (''auth'', JObj [(''type'', JStr ''oauth_2_1''), (''keychain_service'', JStr ''rally-crm'')])]])]"

definition sample_tools :: obj where
  "sample_tools =
     [(''search'', JStr ''read''),
      (''send'', JObj [(''risk'', JStr ''human_approval''),
         (''constraints'', JObj [(''arguments'', JObj [(''to'', JObj [(''required'', JBool True)])])])])]"

definition sample_local :: json where
  "sample_local =
     JObj [(''profiles'', JObj [(''p-ada'', JObj [(''enabled'', strs [''crm'']),
       (''overrides'', JObj [(''crm'', JObj [(''tools'', JObj sample_tools)])])])])]"

definition sample_host :: host where
  "sample_host =
     \<lparr>ch_root = ''/r'',
      ch_files = [''/r/config/connectors.json'' \<mapsto> Some sample_catalog,
                  ''/r/config/connectors.local.json'' \<mapsto> Some sample_local],
      ch_env = \<lambda>n. None, ch_address = \<lambda>n. False, ch_sha = \<lambda>s. s, ch_abspath = \<lambda>p. p,
      ch_relpath = \<lambda>p r. p, ch_dirname = \<lambda>p. ''/w''\<rparr>"

definition sample_authority :: obj where
  "sample_authority =
     (case authority_snapshot sample_host [] ''r1'' ''/w/receipts'' ''ada'' [] of Inr a \<Rightarrow> a | Inl e \<Rightarrow> [])"

definition sample_args :: obj where "sample_args = [(''to'', JStr ''bob'')]"

definition sample_coders :: coders where
  "sample_coders = \<lparr>cd_canon = \<lambda>v. Some (json_dumps '','' '':'' True v), cd_loads = \<lambda>t. JObj sample_args,
     cd_sha = \<lambda>t. t\<rparr>"

definition sample_gate_env :: "int \<Rightarrow> gate_env" where
  "sample_gate_env now =
     \<lparr>ge_coders = sample_coders, ge_now = now, ge_at = ''t'', ge_draws = [''apr_1''], ge_actor = ''claude'',
      ge_ms = 1, ge_call = \<lambda>e a t v. Answer (JStr ''ok'') False,
      ge_page = \<lambda>e a c. Inr ([\<lparr>rt_name = ''search'', rt_title = JNull, rt_description = [], rt_schema = JObj []\<rparr>], [])\<rparr>"

definition sample_gate :: gateway where
  "sample_gate = \<lparr>gw_ledger = No_File, gw_receipts = [], gw_calls = []\<rparr>"

definition sample_gate_ops :: "gate_op list" where
  "sample_gate_ops =
     [Worker (sample_gate_env 10) ''crm'' ''send'' (Some sample_args) None,
      Human ''apr_1'' ''ada'' 20]"

definition sample_gated_call :: "json gate \<times> gateway" where
  "sample_gated_call =
     call_allowed_tool (sample_gate_env 30) sample_authority ''crm'' ''send'' (Some sample_args) (Some ''apr_1'')
       (gate_run sample_coders sample_authority sample_gate_ops sample_gate)"

lemma sample_snapshot: "authority_snapshot sample_host [] ''r1'' ''/w/receipts'' ''ada'' [] = Inr sample_authority"
proof -
  have "case authority_snapshot sample_host [] ''r1'' ''/w/receipts'' ''ada'' [] of Inr a \<Rightarrow> True | Inl e \<Rightarrow> False"
    by code_simp
  then show ?thesis
    by (cases "authority_snapshot sample_host [] ''r1'' ''/w/receipts'' ''ada'' []")
      (simp_all add: sample_authority_def)
qed

lemma sample_gated_call_sent: "length (gw_calls (snd sample_gated_call)) = 1"
  by code_simp

lemma sample_gated: "gated sample_authority ''crm'' ''send''"
  by code_simp

definition sample_read_call :: "json gate \<times> gateway" where
  "sample_read_call =
     call_allowed_tool (sample_gate_env 30) sample_authority ''crm'' ''search'' None None sample_gate"

definition sample_bundle :: obj where
  "sample_bundle =
     [(''id'', JStr ''crm''), (''auth'', JObj [(''type'', JStr ''google_adc'')]),
      (''dispatch'', JObj [(''strategy'', JStr ''tool_prefix''),
         (''services'', JObj [(''mail'', JStr ''https://m.example''), (''docs'', JStr ''https://d.example'')])])]"

definition sample_token :: oauth_token where
  "sample_token = \<lparr>ot_access = ''at'', ot_refresh = None, ot_type = ''Bearer'', ot_expires = Some 5, ot_scope = None\<rparr>"

text \<open>A codec for the two payloads of the sample.\<close>

definition sample_client :: oauth_client where
  "sample_client = \<lparr>oc_id = ''id'', oc_secret = None\<rparr>"

definition sample_keys :: vault_tools where
  "sample_keys = \<lparr>vt_works = \<lambda>r. True,
     vt_dumps = \<lambda>v. if v = token_payload sample_token then ''T'' else ''C'',
     vt_loads = \<lambda>s. if s = ''T'' then Some (token_payload sample_token) else Some (client_payload sample_client)\<rparr>"

lemma sample_codec:
  "codec_ok sample_keys (token_payload sample_token)" "codec_ok sample_keys (client_payload sample_client)"
  by code_simp+

end
