(* ===== verification/Vault.thy ===== *)
theory Vault
  imports Gateway Base64
begin

text \<open>
  The credentials of connectors that Rally hosts, and the state of their connections
  (\<^verbatim>\<open>cloud/credential_vault.py\<close>): the certificate a connection must have to be ready, the lease a
  worker holds while it uses a credential, and the in-memory backend. Points of time are whole
  numbers of microseconds. The digest, the JSON parser, the parser and printer of dates, the cipher and the key
  service are fields of an environment.
\<close>

section \<open>Errors, environment and checks\<close>

text \<open>
  \<open>Bad_Payload\<close> is an exception of reading a stored payload that every operation catches,
  \<open>Type_Error\<close> a comparison Python refuses, \<open>Client_Error\<close> one of the database client that reaches the caller.
\<close>

datatype vault_error =
    Vault_Error string
  | Vault_Conflict string
  | Vault_Busy string
  | Bad_Payload
  | Type_Error
  | Client_Error

type_synonym 'a vaulted = "vault_error + 'a"

record sealing =
  sl_sha :: "string \<Rightarrow> string"
  sl_loads :: "string \<Rightarrow> json option"
  sl_iso :: "string \<Rightarrow> int option"
  sl_show_time :: "int \<Rightarrow> string"
  sl_key :: string
  sl_wrap :: "string \<Rightarrow> string option"
  sl_unwrap :: "string \<Rightarrow> string option"
  sl_encrypt :: "string \<Rightarrow> string \<Rightarrow> string \<Rightarrow> string \<Rightarrow> string"
  sl_decrypt :: "string \<Rightarrow> string \<Rightarrow> string \<Rightarrow> string \<Rightarrow> string option"

text \<open>
  What one call sees of its surroundings: the two readings of the clock, the time as text, the
  random tokens it would draw, and whether the database answers.
\<close>

record moment =
  mo_check :: int
  mo_now :: int
  mo_text :: string
  mo_token :: string
  mo_dek :: string
  mo_nonce :: string
  mo_db :: bool

definition lower_alnum :: "char \<Rightarrow> bool" where
  "lower_alnum c \<longleftrightarrow> (let n = of_char c :: nat in 48 \<le> n \<and> n \<le> 57 \<or> 97 \<le> n \<and> n \<le> 122)"

definition hex_digit :: "char \<Rightarrow> bool" where
  "hex_digit c \<longleftrightarrow> (let n = of_char c :: nat in 48 \<le> n \<and> n \<le> 57 \<or> 97 \<le> n \<and> n \<le> 102)"

definition connector_id_ok :: "string \<Rightarrow> bool" where
  "connector_id_ok s \<longleftrightarrow>
     (case s of
        [] \<Rightarrow> False
      | c # cs \<Rightarrow> lower_alnum c \<and> list_all (\<lambda>c. lower_alnum c \<or> c = CHR ''-'') cs \<and> length cs \<le> 63)"

definition sha256_ok :: "string \<Rightarrow> bool" where
  "sha256_ok s \<longleftrightarrow> length s = 64 \<and> list_all hex_digit s"

definition hex_token :: "string \<Rightarrow> bool" where
  "hex_token s \<longleftrightarrow> length s = 32 \<and> list_all hex_digit s"

definition certified_name_ok :: "string \<Rightarrow> bool" where
  "certified_name_ok s \<longleftrightarrow> s \<noteq> [] \<and> int (length s) \<le> 160
     \<and> list_all tool_name_char s"

definition ENVELOPE_SCHEMA :: string where "ENVELOPE_SCHEMA = ''rally.connector-secret/v1''"

definition CERTIFICATION_SCHEMA :: string where
  "CERTIFICATION_SCHEMA = ''rally.connection-certification/v1''"

definition MAX_SECRET_BYTES :: int where "MAX_SECRET_BYTES = 64 * 1024"

definition EXECUTION_LEASE :: int where "EXECUTION_LEASE = 90 * 1000000"

definition CONNECTION_STATUSES :: "string list" where
  "CONNECTION_STATUSES = [''stored_unverified'', ''verifying'', ''ready'', ''needs_attention'']"

definition checked_connector :: "json \<Rightarrow> string vaulted" where
  "checked_connector v =
     (case v of
        JStr s \<Rightarrow> (if connector_id_ok s then Inr s else Inl (Vault_Error ''invalid connector identifier''))
      | _ \<Rightarrow> Inl (Vault_Error ''invalid connector identifier''))"

definition owner_hash :: "sealing \<Rightarrow> string \<Rightarrow> string" where
  "owner_hash sl uid = sl_sha sl uid"

definition document_id :: "sealing \<Rightarrow> string \<Rightarrow> string \<Rightarrow> string" where
  "document_id sl uid cid = sl_sha sl (uid @ [CHR 0x00] @ cid)"

definition associated_data :: "string \<Rightarrow> string \<Rightarrow> string" where
  "associated_data uid cid = ENVELOPE_SCHEMA @ [CHR 0x00] @ uid @ [CHR 0x00] @ cid"


section \<open>Certificates\<close>

definition bad_manifest :: "'a vaulted" where
  "bad_manifest = Inl (Vault_Error ''invalid certified tool manifest'')"

definition manifest_entry :: "json \<Rightarrow> (string \<times> string) vaulted" where
  "manifest_entry entry =
     (case (case entry of
              JObj kvs \<Rightarrow> Some (jget ''name'' kvs, jget ''schema_sha256'' kvs)
            | JArr [name, dig] \<Rightarrow> Some (name, dig)
            | _ \<Rightarrow> None) of
        Some (JStr name, JStr dig) \<Rightarrow>
          (if certified_name_ok name \<and> sha256_ok dig then Inr (name, dig) else bad_manifest)
      | _ \<Rightarrow> bad_manifest)"

definition normalize_certified_tools :: "json \<Rightarrow> (string \<times> string) list vaulted" where
  "normalize_certified_tools v =
     (case v of
        JNull \<Rightarrow> Inr []
      | JArr entries \<Rightarrow>
          (if 128 < int (length entries) then bad_manifest
           else bindE (mapE manifest_entry entries) (\<lambda>tools.
             if distinct (map fst tools) then Inr (sort tools) else bad_manifest))
      | _ \<Rightarrow> bad_manifest)"

definition manifest_sha :: "sealing \<Rightarrow> (string \<times> string) list \<Rightarrow> string" where
  "manifest_sha sl tools =
     sl_sha sl (json_dumps '','' '':'' False
       (JArr (map (\<lambda>(name, dig). JArr [JStr name, JStr dig]) tools)))"

record certificate =
  ct_tools :: int
  ct_error :: "string option"
  ct_canary :: "string option"
  ct_schema :: "string option"
  ct_proof :: "string option"
  ct_certified :: json
  ct_manifest :: "string option"

text \<open>What a ready connection needs: the canary tool is one of its tools, under the dig given.\<close>

definition certificate_ok :: "sealing \<Rightarrow> certificate \<Rightarrow> (string \<times> string) list \<Rightarrow> bool" where
  "certificate_ok sl c tools \<longleftrightarrow>
     1 \<le> ct_tools c \<and> ct_tools c = int (length tools)
     \<and> (case (ct_canary c, ct_schema c) of
          (Some canary, Some dig) \<Rightarrow>
            certified_name_ok canary \<and> sha256_ok dig \<and> map_of (rev tools) canary = Some dig
        | _ \<Rightarrow> False)
     \<and> ct_proof c = Some CERTIFICATION_SCHEMA
     \<and> (case ct_manifest c of
          None \<Rightarrow> False
        | Some m \<Rightarrow> sha256_ok m \<and> m = manifest_sha sl tools)"

definition validate_certification ::
    "sealing \<Rightarrow> string \<Rightarrow> certificate \<Rightarrow> (string \<times> string) list vaulted" where
  "validate_certification sl status c =
     bindE (normalize_certified_tools (ct_certified c)) (\<lambda>tools.
       if status \<noteq> ''ready'' then Inr []
       else if certificate_ok sl c tools then Inr tools
       else Inl (Vault_Error ''ready connection requires live certification''))"


section \<open>Secrets and connections\<close>

record secret =
  sec_value :: string
  sec_kind :: string

definition SECRET_KINDS :: "string list" where
  "SECRET_KINDS = [''api_key'', ''bearer_token'', ''oauth_refresh_token'']"

text \<open>A kind that is a list or an object cannot be looked up in the set of kinds.\<close>

definition make_secret :: "json \<Rightarrow> json \<Rightarrow> secret vaulted" where
  "make_secret v kind =
     (case v of
        JStr s \<Rightarrow>
          (if s = [] \<or> MAX_SECRET_BYTES < int (utf8_length s) \<or> list_ex control_char s
           then Inl (Vault_Error ''invalid connector credential'')
           else if \<not> hashable kind then Inl Bad_Payload
           else case kind of
             JStr k \<Rightarrow>
               (if k \<in> set SECRET_KINDS then Inr \<lparr>sec_value = s, sec_kind = k\<rparr>
                else Inl (Vault_Error ''unsupported connector credential kind''))
           | _ \<Rightarrow> Inl (Vault_Error ''unsupported connector credential kind''))
      | _ \<Rightarrow> Inl (Vault_Error ''invalid connector credential''))"

text \<open>\<open>hmac.compare_digest\<close> refuses texts that are not ASCII.\<close>

definition same_secret :: "secret \<Rightarrow> secret \<Rightarrow> bool vaulted" where
  "same_secret a b =
     (if sec_kind a \<noteq> sec_kind b then Inr False
      else if list_all (\<lambda>c. (of_char c :: nat) < 128) (sec_value a @ sec_value b)
      then Inr (sec_value a = sec_value b)
      else Inl Type_Error)"

record connection =
  cn_id :: string
  cn_kind :: string
  cn_status :: string
  cn_created :: string
  cn_updated :: string
  cn_tools :: int
  cn_verified :: "string option"
  cn_error :: "string option"
  cn_canary :: "string option"
  cn_schema :: "string option"
  cn_proof :: "string option"
  cn_generation :: string
  cn_certified :: "(string \<times> string) list"
  cn_manifest :: "string option"
  cn_lease :: "string option"
  cn_lease_until :: "int option"

definition new_connection :: "string \<Rightarrow> string \<Rightarrow> string \<Rightarrow> string \<Rightarrow> connection" where
  "new_connection cid kind now generation =
     \<lparr>cn_id = cid, cn_kind = kind, cn_status = ''stored_unverified'', cn_created = now,
      cn_updated = now, cn_tools = 0, cn_verified = None, cn_error = None, cn_canary = None,
      cn_schema = None, cn_proof = None, cn_generation = generation, cn_certified = [],
      cn_manifest = None, cn_lease = None, cn_lease_until = None\<rparr>"

definition lease_active :: "int \<Rightarrow> connection \<Rightarrow> bool" where
  "lease_active now r \<longleftrightarrow>
     (case (cn_lease r, cn_lease_until r) of
        (Some lease, Some until) \<Rightarrow> hex_token lease \<and> now < until
      | _ \<Rightarrow> False)"

text \<open>The records that the operations write, each over all the fields it names.\<close>

definition decertified ::
    "string \<Rightarrow> string \<Rightarrow> string option \<Rightarrow> string option \<Rightarrow> int option \<Rightarrow> connection \<Rightarrow> connection" where
  "decertified status now e lease until r =
     r\<lparr>cn_status := status, cn_updated := now, cn_tools := 0, cn_verified := None, cn_error := e,
       cn_canary := None, cn_schema := None, cn_proof := None, cn_certified := [],
       cn_manifest := None, cn_lease := lease, cn_lease_until := until\<rparr>"

definition leased :: "string option \<Rightarrow> int option \<Rightarrow> string \<Rightarrow> connection \<Rightarrow> connection" where
  "leased lease until now r = r\<lparr>cn_lease := lease, cn_lease_until := until, cn_updated := now\<rparr>"

definition concluded ::
    "string \<Rightarrow> string \<Rightarrow> certificate \<Rightarrow> (string \<times> string) list \<Rightarrow> connection \<Rightarrow> connection" where
  "concluded status now c tools r =
     (let ready = (status = ''ready'') in
      r\<lparr>cn_status := status, cn_updated := now, cn_tools := (if ready then ct_tools c else 0),
        cn_verified := (if ready then Some now else None), cn_error := ct_error c,
        cn_canary := (if ready then ct_canary c else None),
        cn_schema := (if ready then ct_schema c else None),
        cn_proof := (if ready then ct_proof c else None),
        cn_certified := (if ready then tools else []),
        cn_manifest := (if ready then ct_manifest c else None), cn_lease := None,
        cn_lease_until := None\<rparr>)"

definition rotated :: "string \<Rightarrow> string \<Rightarrow> string \<Rightarrow> connection \<Rightarrow> connection" where
  "rotated kind generation now r =
     r\<lparr>cn_kind := kind, cn_generation := generation, cn_updated := now\<rparr>"


section \<open>The in-memory vault\<close>

type_synonym mem_vault = "((string \<times> string) \<times> (secret \<times> connection)) list"

definition mv_put ::
    "moment \<Rightarrow> string \<Rightarrow> string \<Rightarrow> secret \<Rightarrow> mem_vault \<Rightarrow> connection vaulted \<times> mem_vault" where
  "mv_put mo uid cid s v =
     (case checked_connector (JStr cid) of
        Inl e \<Rightarrow> (Inl e, v)
      | Inr cid \<Rightarrow>
          (case map_of v (uid, cid) of
             Some item \<Rightarrow> (Inl (Vault_Conflict ''connector credential already exists''), v)
           | None \<Rightarrow>
               (let r = new_connection cid (sec_kind s) (mo_text mo) (mo_token mo)
                in (Inr r, AList.update (uid, cid) (s, r) v))))"

definition mv_list :: "string \<Rightarrow> mem_vault \<Rightarrow> connection list" where
  "mv_list uid v = sort_key cn_id (map (snd \<circ> snd) (filter (\<lambda>p. fst (fst p) = uid) v))"

text \<open>
  The operations on one connection check the identifier and then see the item of the user, if
  there is one.
\<close>

definition at_item ::
    "string \<Rightarrow> string \<Rightarrow> 'a \<Rightarrow> (string \<times> string \<Rightarrow> secret \<Rightarrow> connection \<Rightarrow> 'a vaulted \<times> mem_vault)
       \<Rightarrow> mem_vault \<Rightarrow> 'a vaulted \<times> mem_vault" where
  "at_item uid cid absent body v =
     (case checked_connector (JStr cid) of
        Inl e \<Rightarrow> (Inl e, v)
      | Inr cid \<Rightarrow>
          (case map_of v (uid, cid) of
             None \<Rightarrow> (Inr absent, v)
           | Some (s, r) \<Rightarrow> body (uid, cid) s r))"

definition mv_get :: "string \<Rightarrow> string \<Rightarrow> mem_vault \<Rightarrow> (secret \<times> connection) option vaulted" where
  "mv_get uid cid v = fst (at_item uid cid None (\<lambda>k s r. (Inr (Some (s, r)), v)) v)"

definition mv_get_secret :: "string \<Rightarrow> string \<Rightarrow> mem_vault \<Rightarrow> secret option vaulted" where
  "mv_get_secret uid cid v = bindE (mv_get uid cid v) (\<lambda>stored. Inr (map_option fst stored))"

definition mv_rotate ::
    "moment \<Rightarrow> string \<Rightarrow> string \<Rightarrow> string \<Rightarrow> string \<Rightarrow> secret \<Rightarrow> secret \<Rightarrow> mem_vault
       \<Rightarrow> connection option vaulted \<times> mem_vault" where
  "mv_rotate mo uid cid generation lease expected s =
     (\<lambda>v. at_item uid cid None (\<lambda>k old r.
        if sec_kind s \<noteq> sec_kind expected \<or> cn_status r \<noteq> ''ready'' \<or> cn_generation r \<noteq> generation
           \<or> cn_lease r \<noteq> Some lease
        then (Inr None, v)
        else case same_secret old expected of
          Inl e \<Rightarrow> (Inl e, v)
        | Inr False \<Rightarrow> (Inr None, v)
        | Inr True \<Rightarrow>
            (let r1 = rotated (sec_kind s) (mo_token mo) (mo_text mo) r
             in (Inr (Some r1), AList.update k (s, r1) v))) v)"

definition mv_quarantine ::
    "moment \<Rightarrow> string \<Rightarrow> string \<Rightarrow> string \<Rightarrow> string \<Rightarrow> secret \<Rightarrow> string \<Rightarrow> mem_vault
       \<Rightarrow> bool vaulted \<times> mem_vault" where
  "mv_quarantine mo uid cid generation lease expected e =
     (\<lambda>v. at_item uid cid False (\<lambda>k old r.
        if cn_status r \<noteq> ''ready'' \<or> cn_generation r \<noteq> generation \<or> cn_lease r \<noteq> Some lease
        then (Inr False, v)
        else case same_secret old expected of
          Inl e \<Rightarrow> (Inl e, v)
        | Inr False \<Rightarrow> (Inr False, v)
        | Inr True \<Rightarrow>
            (Inr True, AList.update k
               (old, decertified ''needs_attention'' (mo_text mo) (Some e) None None r) v)) v)"

definition mv_begin_verification ::
    "moment \<Rightarrow> string \<Rightarrow> string \<Rightarrow> string \<Rightarrow> mem_vault \<Rightarrow> connection option vaulted \<times> mem_vault" where
  "mv_begin_verification mo uid cid generation =
     (\<lambda>v. at_item uid cid None (\<lambda>k s r.
        if cn_generation r \<noteq> generation \<or> cn_status r = ''ready''
           \<or> cn_error r = Some ''disconnect_pending'' \<or> lease_active (mo_check mo) r
        then (Inr None, v)
        else
          (let r1 = decertified ''verifying'' (mo_text mo) None (Some (mo_token mo))
                      (Some (mo_now mo + EXECUTION_LEASE)) r
           in (Inr (Some r1), AList.update k (s, r1) v))) v)"

definition mv_finish_verification ::
    "sealing \<Rightarrow> moment \<Rightarrow> string \<Rightarrow> string \<Rightarrow> string \<Rightarrow> string \<Rightarrow> string \<Rightarrow> certificate \<Rightarrow> mem_vault
       \<Rightarrow> connection option vaulted \<times> mem_vault" where
  "mv_finish_verification sl mo uid cid generation lease status c =
     (\<lambda>v. case bindE (validate_certification sl status c) (\<lambda>tools.
             if status \<notin> {''ready'', ''needs_attention''}
             then Inl (Vault_Error ''invalid connector status'') else Inr tools) of
        Inl e \<Rightarrow> (Inl e, v)
      | Inr tools \<Rightarrow>
          at_item uid cid None (\<lambda>k s r.
            if cn_generation r \<noteq> generation \<or> cn_status r \<noteq> ''verifying'' \<or> cn_lease r \<noteq> Some lease
            then (Inr None, v)
            else
              (let r1 = concluded status (mo_text mo) c tools r
               in (Inr (Some r1), AList.update k (s, r1) v))) v)"

definition mv_claim ::
    "moment \<Rightarrow> string \<Rightarrow> string \<Rightarrow> mem_vault \<Rightarrow> (secret \<times> connection) option vaulted \<times> mem_vault" where
  "mv_claim mo uid cid =
     (\<lambda>v. at_item uid cid None (\<lambda>k s r.
        if cn_status r \<noteq> ''ready'' then (Inr None, v)
        else if lease_active (mo_check mo) r
        then (Inl (Vault_Busy ''connector execution already in progress''), v)
        else
          (let r1 = leased (Some (mo_token mo)) (Some (mo_now mo + EXECUTION_LEASE)) (mo_text mo) r
           in (Inr (Some (s, r1)), AList.update k (s, r1) v))) v)"

definition mv_release ::
    "moment \<Rightarrow> string \<Rightarrow> string \<Rightarrow> string \<Rightarrow> mem_vault \<Rightarrow> bool vaulted \<times> mem_vault" where
  "mv_release mo uid cid lease =
     (\<lambda>v. at_item uid cid False (\<lambda>k s r.
        if cn_lease r \<noteq> Some lease then (Inr False, v)
        else (Inr True, AList.update k (s, leased None None (mo_text mo) r) v)) v)"

definition mv_begin_disconnect ::
    "moment \<Rightarrow> string \<Rightarrow> string \<Rightarrow> mem_vault \<Rightarrow> (secret \<times> connection) option vaulted \<times> mem_vault" where
  "mv_begin_disconnect mo uid cid =
     (\<lambda>v. at_item uid cid None (\<lambda>k s r.
        if cn_status r \<noteq> ''verifying'' \<and> lease_active (mo_check mo) r
        then (Inl (Vault_Busy ''connector execution is in progress''), v)
        else
          (let generation = (if hex_token (cn_generation r) then cn_generation r else mo_token mo);
               r1 = (decertified ''needs_attention'' (mo_text mo) (Some ''disconnect_pending'')
                       None None r)\<lparr>cn_generation := generation\<rparr>
           in (Inr (Some (s, r1)), AList.update k (s, r1) v))) v)"

definition mv_mark ::
    "sealing \<Rightarrow> moment \<Rightarrow> string \<Rightarrow> string \<Rightarrow> string \<Rightarrow> certificate \<Rightarrow> mem_vault
       \<Rightarrow> connection vaulted \<times> mem_vault" where
  "mv_mark sl mo uid cid status c v =
     (case bindE (checked_connector (JStr cid)) (\<lambda>cid.
           if status \<notin> set CONNECTION_STATUSES \<or> ct_tools c < 0 \<or> 128 < ct_tools c
           then Inl (Vault_Error ''invalid connector status'')
           else validate_certification sl status c) of
        Inl e \<Rightarrow> (Inl e, v)
      | Inr tools \<Rightarrow>
          (case map_of v (uid, cid) of
             None \<Rightarrow> (Inl (Vault_Error ''connector credential does not exist''), v)
           | Some (s, r) \<Rightarrow>
               (let r1 = concluded status (mo_text mo) c tools r
                in (Inr r1, AList.update (uid, cid) (s, r1) v))))"

definition mv_delete ::
    "string \<Rightarrow> string \<Rightarrow> string option \<Rightarrow> bool \<Rightarrow> mem_vault \<Rightarrow> bool vaulted \<times> mem_vault" where
  "mv_delete uid cid generation need_disconnect =
     (\<lambda>v. at_item uid cid False (\<lambda>k s r.
        if generation \<noteq> None \<and> Some (cn_generation r) \<noteq> generation then (Inr False, v)
        else if need_disconnect \<and> cn_error r \<noteq> Some ''disconnect_pending'' then (Inr False, v)
        else (Inr True, AList.delete k v)) v)"

end
