(* ===== verification/Vault_Kms.thy ===== *)
theory Vault_Kms
  imports Vault
begin

text \<open>
  The vault of production (\<^verbatim>\<open>cloud/credential_vault.py\<close>): one Firestore document for each credential, whose
  secret is encrypted under a random key that the key service wraps. A document is a dictionary
  of JSON values and points of time; a transaction is one step that writes nothing when it
  raises. \<open>mark\<close> reads before it writes outside a transaction, and is one step here.
\<close>

section \<open>Documents\<close>

datatype dfield = Json json | Instant int

type_synonym document = "(string \<times> dfield) list"
type_synonym collection = "(string \<times> document) list"

abbreviation text_field :: "string \<Rightarrow> dfield" where "text_field s \<equiv> Json (JStr s)"

definition dget :: "string \<Rightarrow> document \<Rightarrow> dfield" where
  "dget k d = (case map_of d k of None \<Rightarrow> Json JNull | Some f \<Rightarrow> f)"

definition opt_cell :: "string option \<Rightarrow> dfield" where
  "opt_cell v = (case v of None \<Rightarrow> Json JNull | Some s \<Rightarrow> text_field s)"

definition field_text :: "sealing \<Rightarrow> dfield \<Rightarrow> string" where
  "field_text sl f = (case f of Json v \<Rightarrow> py_str v | Instant t \<Rightarrow> sl_show_time sl t)"

definition owned_by :: "sealing \<Rightarrow> string \<Rightarrow> document \<Rightarrow> bool" where
  "owned_by sl uid d \<longleftrightarrow>
     (case map_of d ''owner_hash'' of None \<Rightarrow> [] | Some f \<Rightarrow> field_text sl f) = owner_hash sl uid"

definition bad_metadata :: "'a vaulted" where
  "bad_metadata = Inl (Vault_Error ''stored connector metadata is invalid'')"

definition required :: "sealing \<Rightarrow> string \<Rightarrow> document \<Rightarrow> string vaulted" where
  "required sl k d =
     (case map_of d k of None \<Rightarrow> bad_metadata | Some f \<Rightarrow> Inr (field_text sl f))"

definition optional_text :: "sealing \<Rightarrow> string \<Rightarrow> document \<Rightarrow> string option" where
  "optional_text sl k d = (if dget k d = Json JNull then None else Some (field_text sl (dget k d)))"

definition stored_count :: "document \<Rightarrow> int vaulted" where
  "stored_count d =
     (case map_of d ''tool_count'' of
        None \<Rightarrow> Inr 0
      | Some (Json v) \<Rightarrow> (case py_int v of Inr n \<Rightarrow> Inr n | Inl e \<Rightarrow> bad_metadata)
      | Some (Instant t) \<Rightarrow> bad_metadata)"

definition stored_tools :: "document \<Rightarrow> (string \<times> string) list vaulted" where
  "stored_tools d =
     (case map_of d ''certified_tools'' of
        None \<Rightarrow> Inr []
      | Some (Json v) \<Rightarrow>
          (case normalize_certified_tools v of Inr ts \<Rightarrow> Inr ts | Inl e \<Rightarrow> bad_metadata)
      | Some (Instant t) \<Rightarrow> bad_metadata)"

definition stored_expiry :: "sealing \<Rightarrow> document \<Rightarrow> int option vaulted" where
  "stored_expiry sl d =
     (case dget ''execution_lease_expires_at'' d of
        Json JNull \<Rightarrow> Inr None
      | Json (JStr s) \<Rightarrow> (case sl_iso sl s of None \<Rightarrow> bad_metadata | Some t \<Rightarrow> Inr (Some t))
      | Instant t \<Rightarrow> Inr (Some t)
      | _ \<Rightarrow> bad_metadata)"

definition stored_identifier :: "document \<Rightarrow> string vaulted" where
  "stored_identifier d =
     (case map_of d ''connector_id'' of
        Some (Json v) \<Rightarrow>
          (case checked_connector v of Inr cid \<Rightarrow> Inr cid | Inl e \<Rightarrow> bad_metadata)
      | _ \<Rightarrow> bad_metadata)"

definition public_record :: "sealing \<Rightarrow> document \<Rightarrow> connection vaulted" where
  "public_record sl d =
     bindE (stored_expiry sl d) (\<lambda>until.
     bindE (stored_identifier d) (\<lambda>cid.
     bindE (required sl ''credential_kind'' d) (\<lambda>kind.
     bindE (required sl ''status'' d) (\<lambda>status.
     bindE (required sl ''created_at'' d) (\<lambda>created.
     bindE (required sl ''updated_at'' d) (\<lambda>updated.
     bindE (stored_count d) (\<lambda>amount.
     bindE (stored_tools d) (\<lambda>tools.
       Inr \<lparr>cn_id = cid, cn_kind = kind, cn_status = status, cn_created = created,
            cn_updated = updated, cn_tools = amount,
            cn_verified = optional_text sl ''verified_at'' d,
            cn_error = optional_text sl ''error_code'' d,
            cn_canary = optional_text sl ''canary_tool'' d,
            cn_schema = optional_text sl ''tool_schema_sha256'' d,
            cn_proof = optional_text sl ''proof_version'' d,
            cn_generation = (case map_of d ''credential_generation'' of
                None \<Rightarrow> [] | Some f \<Rightarrow> field_text sl f),
            cn_certified = tools,
            cn_manifest = optional_text sl ''certified_manifest_sha256'' d,
            cn_lease = optional_text sl ''execution_lease'' d,
            cn_lease_until = until\<rparr>))))))))"

text \<open>A lease that is no token, or whose expiry cannot be read, is no lease.\<close>

definition document_lease_active :: "sealing \<Rightarrow> int \<Rightarrow> document \<Rightarrow> bool" where
  "document_lease_active sl now d \<longleftrightarrow>
     (case dget ''execution_lease'' d of
        Json (JStr lease) \<Rightarrow>
          hex_token lease
          \<and> (case dget ''execution_lease_expires_at'' d of
               Json (JStr s) \<Rightarrow> (case sl_iso sl s of None \<Rightarrow> False | Some t \<Rightarrow> now < t)
             | Instant t \<Rightarrow> now < t
             | _ \<Rightarrow> False)
      | _ \<Rightarrow> False)"


section \<open>The envelope\<close>

definition key_name_ok :: "string \<Rightarrow> bool" where
  "key_name_ok k \<longleftrightarrow> starts_with k ''projects/'' \<and> (\<exists>i \<in> set [0..<length k]. starts_with (drop i k) ''/cryptoKeys/'')"

definition make_cipher :: "string \<Rightarrow> string \<Rightarrow> string vaulted" where
  "make_cipher key schema =
     (if \<not> key_name_ok key then Inl (Vault_Error ''invalid Cloud KMS key name'')
      else if \<not> (starts_with schema ''rally.'' \<and> ends_with schema ''/v1'')
      then Inl (Vault_Error ''invalid envelope schema'')
      else Inr key)"

definition cipher_seal :: "sealing \<Rightarrow> moment \<Rightarrow> string \<Rightarrow> string \<Rightarrow> document vaulted" where
  "cipher_seal sl mo plaintext ad =
     (if plaintext = [] \<or> MAX_SECRET_BYTES < int (length plaintext)
      then Inl (Vault_Error ''invalid connector credential payload'')
      else case sl_wrap sl (mo_dek mo) of
        None \<Rightarrow> Inl (Vault_Error ''could not protect connector credential'')
      | Some wrapped \<Rightarrow>
          Inr [(''schema'', text_field ENVELOPE_SCHEMA),
               (''nonce'', text_field (b64_encode (mo_nonce mo))),
               (''ciphertext'',
                  text_field (b64_encode (sl_encrypt sl (mo_dek mo) (mo_nonce mo) plaintext ad))),
               (''wrapped_dek'', text_field (b64_encode wrapped)),
               (''kms_key'', text_field (sl_key sl))])"

definition decode_field :: "dfield \<Rightarrow> string vaulted" where
  "decode_field f =
     (case f of
        Json (JStr s) \<Rightarrow>
          (case b64_decode s of
             None \<Rightarrow> Inl (Vault_Error ''stored connector credential is invalid'')
           | Some b \<Rightarrow> Inr b)
      | _ \<Rightarrow> Inl (Vault_Error ''stored connector credential is invalid''))"

definition cipher_open :: "sealing \<Rightarrow> document \<Rightarrow> string \<Rightarrow> string vaulted" where
  "cipher_open sl d ad =
     (if dget ''schema'' d \<noteq> text_field ENVELOPE_SCHEMA
      then Inl (Vault_Error ''stored connector credential is invalid'')
      else if dget ''kms_key'' d \<noteq> text_field (sl_key sl)
      then Inl (Vault_Error ''stored connector credential uses an unexpected key'')
      else
        bindE (decode_field (dget ''wrapped_dek'' d)) (\<lambda>wrapped.
          case sl_unwrap sl wrapped of
            None \<Rightarrow> Inl (Vault_Error ''could not open connector credential'')
          | Some dek \<Rightarrow>
              bindE (decode_field (dget ''nonce'' d)) (\<lambda>nonce.
              bindE (decode_field (dget ''ciphertext'' d)) (\<lambda>ct.
                case sl_decrypt sl dek nonce ct ad of
                  None \<Rightarrow> Inl (Vault_Error ''could not open connector credential'')
                | Some plaintext \<Rightarrow> Inr plaintext))))"

definition payload_text :: "secret \<Rightarrow> string" where
  "payload_text s =
     json_dumps '','' '':'' False (JObj [(''kind'', JStr (sec_kind s)), (''value'', JStr (sec_value s))])"

text \<open>\<open>payload["value"]\<close> and \<open>payload["kind"]\<close> of whatever was parsed.\<close>

definition payload_secret :: "json \<Rightarrow> secret vaulted" where
  "payload_secret payload =
     (case payload of
        JObj kvs \<Rightarrow>
          (case (map_of kvs ''value'', map_of kvs ''kind'') of
             (Some v, Some kind) \<Rightarrow> make_secret v kind
           | _ \<Rightarrow> Inl Bad_Payload)
      | _ \<Rightarrow> Inl Bad_Payload)"

definition parsed_payload :: "sealing \<Rightarrow> string \<Rightarrow> json vaulted" where
  "parsed_payload sl plaintext =
     (case sl_loads sl plaintext of None \<Rightarrow> Inl Bad_Payload | Some v \<Rightarrow> Inr v)"

definition open_secret :: "sealing \<Rightarrow> document \<Rightarrow> string \<Rightarrow> secret vaulted" where
  "open_secret sl d ad =
     bindE (cipher_open sl d ad) (\<lambda>plaintext.
     bindE (parsed_payload sl plaintext) payload_secret)"

definition open_connection ::
    "sealing \<Rightarrow> document \<Rightarrow> string \<Rightarrow> (secret \<times> connection) option vaulted" where
  "open_connection sl d ad =
     bindE (cipher_open sl d ad) (\<lambda>plaintext.
     bindE (parsed_payload sl plaintext) (\<lambda>payload.
     bindE (public_record sl d) (\<lambda>r.
     bindE (payload_secret payload) (\<lambda>s. Inr (Some (s, r))))))"

definition unreadable :: "'a vaulted \<Rightarrow> 'a vaulted" where
  "unreadable res =
     (case res of
        Inl Bad_Payload \<Rightarrow> Inl (Vault_Error ''stored connector credential is invalid'')
      | _ \<Rightarrow> res)"


section \<open>Transactions\<close>

text \<open>
  What an operation makes of an exception: the errors in \<open>lets\<close> reach the caller, and every other
  one becomes the operation's own.
\<close>

definition vault_errors :: "vault_error \<Rightarrow> bool" where
  "vault_errors e \<longleftrightarrow> (case e of Bad_Payload \<Rightarrow> False | Type_Error \<Rightarrow> False | Client_Error \<Rightarrow> False | _ \<Rightarrow> True)"

definition transacted ::
    "moment \<Rightarrow> (vault_error \<Rightarrow> bool) \<Rightarrow> string \<Rightarrow> (collection \<Rightarrow> 'a vaulted \<times> collection) \<Rightarrow> collection
       \<Rightarrow> 'a vaulted \<times> collection" where
  "transacted mo lets msg body c =
     (if \<not> mo_db mo then (Inl (Vault_Error msg), c)
      else case body c of
        (Inl e, c1) \<Rightarrow> (Inl (if lets e then e else Vault_Error msg), c1)
      | (Inr x, c1) \<Rightarrow> (Inr x, c1))"

definition in_document ::
    "sealing \<Rightarrow> string \<Rightarrow> string \<Rightarrow> 'a \<Rightarrow> (string \<Rightarrow> document \<Rightarrow> 'a vaulted \<times> collection) \<Rightarrow> collection
       \<Rightarrow> 'a vaulted \<times> collection" where
  "in_document sl uid cid absent body c =
     (case map_of c (document_id sl uid cid) of
        None \<Rightarrow> (Inr absent, c)
      | Some d \<Rightarrow> (if owned_by sl uid d then body (document_id sl uid cid) d else (Inr absent, c)))"

definition checked ::
    "string \<Rightarrow> (string \<Rightarrow> collection \<Rightarrow> 'a vaulted \<times> collection) \<Rightarrow> collection \<Rightarrow> 'a vaulted \<times> collection" where
  "checked cid body c =
     (case checked_connector (JStr cid) of Inl e \<Rightarrow> (Inl e, c) | Inr cid \<Rightarrow> body cid c)"

text \<open>The fields an operation writes.\<close>

definition decertified_fields ::
    "string \<Rightarrow> string \<Rightarrow> string option \<Rightarrow> string option \<Rightarrow> int option \<Rightarrow> document" where
  "decertified_fields status now e lease until =
     [(''status'', text_field status), (''tool_count'', Json (JInt 0)), (''verified_at'', Json JNull),
      (''error_code'', opt_cell e), (''canary_tool'', Json JNull),
      (''tool_schema_sha256'', Json JNull), (''proof_version'', Json JNull),
      (''certified_tools'', Json (JArr [])), (''certified_manifest_sha256'', Json JNull),
      (''execution_lease'', opt_cell lease),
      (''execution_lease_expires_at'', (case until of None \<Rightarrow> Json JNull | Some t \<Rightarrow> Instant t)),
      (''updated_at'', text_field now)]"

definition tools_json :: "(string \<times> string) list \<Rightarrow> json" where
  "tools_json tools =
     JArr (map (\<lambda>(name, dig). JObj [(''name'', JStr name), (''schema_sha256'', JStr dig)]) tools)"

definition concluded_fields ::
    "int \<Rightarrow> string \<Rightarrow> string \<Rightarrow> certificate \<Rightarrow> (string \<times> string) list \<Rightarrow> document" where
  "concluded_fields amount status now c tools =
     (let ready = (status = ''ready''); kept = (\<lambda>v. opt_cell (if ready then v else None)) in
      [(''status'', text_field status), (''tool_count'', Json (JInt amount)),
       (''verified_at'', kept (Some now)), (''error_code'', opt_cell (ct_error c)),
       (''canary_tool'', kept (ct_canary c)), (''tool_schema_sha256'', kept (ct_schema c)),
       (''proof_version'', kept (ct_proof c)),
       (''certified_tools'', Json (if ready then tools_json tools else JArr [])),
       (''certified_manifest_sha256'', kept (ct_manifest c)),
       (''execution_lease'', Json JNull), (''execution_lease_expires_at'', Json JNull),
       (''updated_at'', text_field now)])"

definition leased_fields :: "string option \<Rightarrow> int option \<Rightarrow> string \<Rightarrow> document" where
  "leased_fields lease until now =
     [(''execution_lease'', opt_cell lease),
      (''execution_lease_expires_at'', (case until of None \<Rightarrow> Json JNull | Some t \<Rightarrow> Instant t)),
      (''updated_at'', text_field now)]"

definition some_record :: "sealing \<Rightarrow> document \<Rightarrow> connection option vaulted" where
  "some_record sl d = bindE (public_record sl d) (\<lambda>r. Inr (Some r))"


section \<open>The operations\<close>

definition kv_put ::
    "sealing \<Rightarrow> moment \<Rightarrow> string \<Rightarrow> string \<Rightarrow> secret \<Rightarrow> collection \<Rightarrow> connection vaulted \<times> collection" where
  "kv_put sl mo uid cid s =
     checked cid (\<lambda>cid c.
       case cipher_seal sl mo (payload_text s) (associated_data uid cid) of
         Inl e \<Rightarrow> (Inl e, c)
       | Inr envelope \<Rightarrow>
           (let d = AList.merge envelope
                 [(''owner_hash'', text_field (owner_hash sl uid)), (''connector_id'', text_field cid),
                  (''credential_kind'', text_field (sec_kind s)),
                  (''credential_generation'', text_field (mo_token mo)),
                  (''status'', text_field ''stored_unverified''),
                  (''created_at'', text_field (mo_text mo)), (''updated_at'', text_field (mo_text mo))] in
            if \<not> mo_db mo then (Inl (Vault_Error ''could not store connector credential''), c)
            else case map_of c (document_id sl uid cid) of
              Some old \<Rightarrow> (Inl (Vault_Conflict ''connector credential already exists''), c)
            | None \<Rightarrow> (public_record sl d, AList.update (document_id sl uid cid) d c)))"

definition kv_list :: "sealing \<Rightarrow> moment \<Rightarrow> string \<Rightarrow> collection \<Rightarrow> connection list vaulted" where
  "kv_list sl mo uid c =
     (if \<not> mo_db mo then Inl Client_Error
      else
        bindE (mapE (public_record sl)
            (filter (\<lambda>d. dget ''owner_hash'' d = text_field (owner_hash sl uid)) (map snd c)))
          (\<lambda>records. Inr (sort_key cn_id records)))"

definition kv_get ::
    "sealing \<Rightarrow> moment \<Rightarrow> string \<Rightarrow> string \<Rightarrow> collection \<Rightarrow> (secret \<times> connection) option vaulted" where
  "kv_get sl mo uid cid c =
     fst (checked cid (\<lambda>cid c.
       if \<not> mo_db mo then (Inl Client_Error, c)
       else in_document sl uid cid None (\<lambda>i d.
         (unreadable (open_connection sl d (associated_data uid cid)), c)) c) c)"

definition kv_get_secret ::
    "sealing \<Rightarrow> moment \<Rightarrow> string \<Rightarrow> string \<Rightarrow> collection \<Rightarrow> secret option vaulted" where
  "kv_get_secret sl mo uid cid c = bindE (kv_get sl mo uid cid c) (\<lambda>stored. Inr (map_option fst stored))"

definition lease_held :: "string \<Rightarrow> string \<Rightarrow> document \<Rightarrow> bool" where
  "lease_held generation lease d \<longleftrightarrow>
     dget ''status'' d = text_field ''ready'' \<and> dget ''credential_generation'' d = text_field generation
     \<and> dget ''execution_lease'' d = text_field lease"

definition kv_rotate ::
    "sealing \<Rightarrow> moment \<Rightarrow> string \<Rightarrow> string \<Rightarrow> string \<Rightarrow> string \<Rightarrow> secret \<Rightarrow> secret \<Rightarrow> collection
       \<Rightarrow> connection option vaulted \<times> collection" where
  "kv_rotate sl mo uid cid generation lease expected s =
     checked cid (\<lambda>cid c.
       case cipher_seal sl mo (payload_text s) (associated_data uid cid) of
         Inl e \<Rightarrow> (Inl e, c)
       | Inr envelope \<Rightarrow>
           transacted mo vault_errors ''could not rotate connector credential''
             (\<lambda>c. in_document sl uid cid None (\<lambda>i d.
                if \<not> lease_held generation lease d then (Inr None, c)
                else case unreadable (open_secret sl d (associated_data uid cid)) of
                  Inl e \<Rightarrow> (Inl e, c)
                | Inr current \<Rightarrow>
                    (case (if sec_kind s \<noteq> sec_kind expected then Inr False
                           else same_secret current expected) of
                       Inl e \<Rightarrow> (Inl e, c)
                     | Inr False \<Rightarrow> (Inr None, c)
                     | Inr True \<Rightarrow>
                         (let d1 = AList.merge d (AList.merge envelope
                                [(''credential_kind'', text_field (sec_kind s)),
                                 (''credential_generation'', text_field (mo_token mo)),
                                 (''updated_at'', text_field (mo_text mo))])
                          in (some_record sl d1, AList.update i d1 c)))) c) c)"

definition kv_quarantine ::
    "sealing \<Rightarrow> moment \<Rightarrow> string \<Rightarrow> string \<Rightarrow> string \<Rightarrow> string \<Rightarrow> secret \<Rightarrow> string \<Rightarrow> collection
       \<Rightarrow> bool vaulted \<times> collection" where
  "kv_quarantine sl mo uid cid generation lease expected e =
     checked cid (\<lambda>cid.
       transacted mo vault_errors ''could not quarantine connector credential''
         (\<lambda>c. in_document sl uid cid False (\<lambda>i d.
            if \<not> lease_held generation lease d then (Inr False, c)
            else case bindE (unreadable (open_secret sl d (associated_data uid cid)))
                        (\<lambda>current. same_secret current expected) of
              Inl x \<Rightarrow> (Inl x, c)
            | Inr False \<Rightarrow> (Inr False, c)
            | Inr True \<Rightarrow>
                (Inr True, AList.update i (AList.merge d
                   (decertified_fields ''needs_attention'' (mo_text mo) (Some e) None None)) c)) c))"

definition kv_begin_verification ::
    "sealing \<Rightarrow> moment \<Rightarrow> string \<Rightarrow> string \<Rightarrow> string \<Rightarrow> collection
       \<Rightarrow> connection option vaulted \<times> collection" where
  "kv_begin_verification sl mo uid cid generation =
     checked cid (\<lambda>cid.
       transacted mo (\<lambda>e. False) ''could not begin connector verification''
         (\<lambda>c. in_document sl uid cid None (\<lambda>i d.
            if dget ''credential_generation'' d \<noteq> text_field generation
               \<or> dget ''status'' d = text_field ''ready''
               \<or> dget ''error_code'' d = text_field ''disconnect_pending''
               \<or> document_lease_active sl (mo_check mo) d
            then (Inr None, c)
            else
              (let d1 = AList.merge d (decertified_fields ''verifying'' (mo_text mo) None
                     (Some (mo_token mo)) (Some (mo_now mo + EXECUTION_LEASE)))
               in (some_record sl d1, AList.update i d1 c))) c))"

definition kv_finish_verification ::
    "sealing \<Rightarrow> moment \<Rightarrow> string \<Rightarrow> string \<Rightarrow> string \<Rightarrow> string \<Rightarrow> string \<Rightarrow> certificate \<Rightarrow> collection
       \<Rightarrow> connection option vaulted \<times> collection" where
  "kv_finish_verification sl mo uid cid generation lease status c =
     (\<lambda>docs. if status \<notin> {''ready'', ''needs_attention''}
        then (Inl (Vault_Error ''invalid connector status''), docs)
        else case validate_certification sl status c of
          Inl e \<Rightarrow> (Inl e, docs)
        | Inr tools \<Rightarrow>
            checked cid (\<lambda>cid.
              transacted mo vault_errors ''could not finish connector verification''
                (\<lambda>docs. in_document sl uid cid None (\<lambda>i d.
                   if dget ''credential_generation'' d \<noteq> text_field generation
                      \<or> dget ''status'' d \<noteq> text_field ''verifying''
                      \<or> dget ''execution_lease'' d \<noteq> text_field lease
                   then (Inr None, docs)
                   else
                     (let d1 = AList.merge d (concluded_fields
                            (if status = ''ready'' then ct_tools c else 0) status (mo_text mo) c tools)
                      in (some_record sl d1, AList.update i d1 docs))) docs)) docs)"

text \<open>
  The two operations that return the secret commit first and open the document then; of the
  errors of opening, those of an unreadable payload have a message of their own.
\<close>

definition payload_errors :: "sealing \<Rightarrow> string \<Rightarrow> string \<Rightarrow> document \<Rightarrow> string
    \<Rightarrow> (secret \<times> connection) option vaulted" where
  "payload_errors sl uid cid d msg =
     (case open_connection sl d (associated_data uid cid) of
        Inl Bad_Payload \<Rightarrow> Inl (Vault_Error ''stored connector credential is invalid'')
      | Inl e \<Rightarrow> Inl (Vault_Error msg)
      | Inr x \<Rightarrow> Inr x)"

definition kv_claim ::
    "sealing \<Rightarrow> moment \<Rightarrow> string \<Rightarrow> string \<Rightarrow> collection
       \<Rightarrow> (secret \<times> connection) option vaulted \<times> collection" where
  "kv_claim sl mo uid cid =
     checked cid (\<lambda>cid.
       transacted mo vault_errors ''could not claim connector execution''
         (\<lambda>c. in_document sl uid cid None (\<lambda>i d.
            if dget ''status'' d \<noteq> text_field ''ready'' then (Inr None, c)
            else if document_lease_active sl (mo_check mo) d
            then (Inl (Vault_Busy ''connector execution already in progress''), c)
            else
              (let d1 = AList.merge d (leased_fields (Some (mo_token mo))
                     (Some (mo_now mo + EXECUTION_LEASE)) (mo_text mo))
               in (payload_errors sl uid cid d1 ''could not claim connector execution'',
                   AList.update i d1 c))) c))"

definition kv_release ::
    "sealing \<Rightarrow> moment \<Rightarrow> string \<Rightarrow> string \<Rightarrow> string \<Rightarrow> collection \<Rightarrow> bool vaulted \<times> collection" where
  "kv_release sl mo uid cid lease =
     checked cid (\<lambda>cid.
       transacted mo (\<lambda>e. False) ''could not release connector execution''
         (\<lambda>c. in_document sl uid cid False (\<lambda>i d.
            if dget ''execution_lease'' d \<noteq> text_field lease then (Inr False, c)
            else (Inr True, AList.update i (AList.merge d (leased_fields None None (mo_text mo))) c)) c))"

definition kv_begin_disconnect ::
    "sealing \<Rightarrow> moment \<Rightarrow> string \<Rightarrow> string \<Rightarrow> collection
       \<Rightarrow> (secret \<times> connection) option vaulted \<times> collection" where
  "kv_begin_disconnect sl mo uid cid =
     checked cid (\<lambda>cid.
       transacted mo vault_errors ''could not begin connector disconnect''
         (\<lambda>c. in_document sl uid cid None (\<lambda>i d.
            if dget ''status'' d \<noteq> text_field ''verifying'' \<and> document_lease_active sl (mo_check mo) d
            then (Inl (Vault_Busy ''connector execution is in progress''), c)
            else
              (let generation = (case dget ''credential_generation'' d of
                     Json (JStr g) \<Rightarrow> (if hex_token g then g else mo_token mo)
                   | _ \<Rightarrow> mo_token mo);
                   d1 = AList.merge d ((''credential_generation'', text_field generation)
                     # decertified_fields ''needs_attention'' (mo_text mo)
                         (Some ''disconnect_pending'') None None)
               in (payload_errors sl uid cid d1 ''could not begin connector disconnect'',
                   AList.update i d1 c))) c))"

definition kv_mark ::
    "sealing \<Rightarrow> moment \<Rightarrow> string \<Rightarrow> string \<Rightarrow> string \<Rightarrow> certificate \<Rightarrow> collection
       \<Rightarrow> connection vaulted \<times> collection" where
  "kv_mark sl mo uid cid status c =
     checked cid (\<lambda>cid docs.
       case (if status \<notin> set CONNECTION_STATUSES \<or> ct_tools c < 0 \<or> 128 < ct_tools c
             then Inl (Vault_Error ''invalid connector status'')
             else validate_certification sl status c) of
         Inl e \<Rightarrow> (Inl e, docs)
       | Inr tools \<Rightarrow>
           (if \<not> mo_db mo then (Inl Client_Error, docs)
            else case map_of docs (document_id sl uid cid) of
              None \<Rightarrow> (Inl (Vault_Error ''connector credential does not exist''), docs)
            | Some d \<Rightarrow>
                (if \<not> owned_by sl uid d
                 then (Inl (Vault_Error ''connector credential does not exist''), docs)
                 else
                   (let d1 = AList.merge d (concluded_fields (ct_tools c) status (mo_text mo) c tools)
                    in (public_record sl d1, AList.update (document_id sl uid cid) d1 docs)))))"

definition kv_delete ::
    "sealing \<Rightarrow> moment \<Rightarrow> string \<Rightarrow> string \<Rightarrow> string option \<Rightarrow> bool \<Rightarrow> collection \<Rightarrow> bool vaulted \<times> collection" where
  "kv_delete sl mo uid cid generation need_disconnect =
     checked cid (\<lambda>cid.
       transacted mo (\<lambda>e. False) ''could not delete connector credential''
         (\<lambda>c. in_document sl uid cid False (\<lambda>i d.
            if (case generation of None \<Rightarrow> False
                | Some g \<Rightarrow> dget ''credential_generation'' d \<noteq> text_field g)
            then (Inr False, c)
            else if need_disconnect \<and> dget ''error_code'' d \<noteq> text_field ''disconnect_pending''
            then (Inr False, c)
            else (Inr True, AList.delete i c)) c))"


section \<open>The configured vault\<close>

datatype backend = Kms_Backend string string | Memory_Backend

definition env_value :: "(string \<Rightarrow> string option) \<Rightarrow> string \<Rightarrow> string" where
  "env_value env name = (case env name of None \<Rightarrow> [] | Some v \<Rightarrow> v)"

definition kms_vault :: "string \<Rightarrow> string \<Rightarrow> backend vaulted" where
  "kms_vault project key =
     (if project = [] then Inl (Vault_Error ''Google Cloud project is not configured'')
      else bindE (make_cipher key ENVELOPE_SCHEMA) (\<lambda>key. Inr (Kms_Backend project key)))"

definition make_connector_vault :: "(string \<Rightarrow> string option) \<Rightarrow> backend vaulted" where
  "make_connector_vault env =
     (if env_value env ''RALLY_VAULT_BACKEND'' = ''google_kms''
      then kms_vault (env_value env ''GOOGLE_CLOUD_PROJECT'') (env_value env ''RALLY_KMS_KEY'')
      else if env_value env ''RALLY_VAULT_BACKEND'' = ''memory''
           \<and> env ''RALLY_ALLOW_INSECURE_DEV'' = Some ''1''
      then Inr Memory_Backend
      else Inl (Vault_Error ''connector credential vault is not configured''))"

end
