(* ===== verification/Vault_Correct.thy ===== *)
theory Vault_Correct
  imports Vault_Kms
begin

text \<open>
  The production vault is shown to answer like the in-memory vault, document by document; what a
  connection can become is then read from the simpler of the two.
\<close>

section \<open>Dictionaries keyed through an injection\<close>

definition keyed ::
    "('k \<Rightarrow> 'i) \<Rightarrow> 'k set \<Rightarrow> ('k \<Rightarrow> 'x \<Rightarrow> 'd \<Rightarrow> bool) \<Rightarrow> ('k \<times> 'x) list \<Rightarrow> ('i \<times> 'd) list \<Rightarrow> bool" where
  "keyed f K Q v c \<longleftrightarrow> fst ` set v \<subseteq> K \<and> list_all2 (\<lambda>(k, x) (i, d). i = f k \<and> Q k x d) v c"

lemma keyed_lookup:
  assumes "keyed f K Q v c" and "inj_on f K" and "k \<in> K"
  shows "rel_option (Q k) (map_of v k) (map_of c (f k))"
  using assms(1) unfolding keyed_def
proof (elim conjE, induction v arbitrary: c)
  case (Cons p v)
  obtain k' x i d c' where "p = (k', x)" "c = (i, d) # c'" "i = f k'" "Q k' x d"
    using Cons.prems(2) by (cases p; cases c) auto
  moreover from Cons.prems(1) have "k' \<in> K" using \<open>p = (k', x)\<close> by auto
  moreover have "f k' = f k \<longleftrightarrow> k' = k" using inj_on_eq_iff [OF assms(2) \<open>k' \<in> K\<close> assms(3)] .
  moreover have "rel_option (Q k) (map_of v k) (map_of c' (f k))"
    using Cons calculation by auto
  ultimately show ?case by auto
qed simp

lemma keyed_update:
  assumes "keyed f K Q v c" and "inj_on f K" and "k \<in> K" and "Q k x d"
  shows "keyed f K Q (AList.update k x v) (AList.update (f k) d c)"
  using assms(1) unfolding keyed_def
proof (elim conjE, induction v arbitrary: c)
  case Nil
  then show ?case using assms(3,4) by simp
next
  case (Cons p v)
  obtain k' y i e c' where p: "p = (k', y)" "c = (i, e) # c'" "i = f k'" "Q k' y e"
    using Cons.prems(2) by (cases p; cases c) auto
  from Cons.prems(1) p(1) have k': "k' \<in> K" by auto
  have eq: "f k' = f k \<longleftrightarrow> k' = k" using inj_on_eq_iff [OF assms(2) k' assms(3)] .
  have rest: "fst ` set v \<subseteq> K" "list_all2 (\<lambda>(k, x) (i, d). i = f k \<and> Q k x d) v c'"
    using Cons.prems p by auto
  from Cons.IH [OF rest] rest show ?case using p k' eq assms(3,4) by auto
qed

lemma keyed_delete:
  assumes "keyed f K Q v c" and "inj_on f K" and "k \<in> K"
  shows "keyed f K Q (AList.delete k v) (AList.delete (f k) c)"
  using assms(1) unfolding keyed_def
proof (elim conjE, induction v arbitrary: c)
  case (Cons p v)
  obtain k' y i e c' where p: "p = (k', y)" "c = (i, e) # c'" "i = f k'" "Q k' y e"
    using Cons.prems(2) by (cases p; cases c) auto
  from Cons.prems(1) p(1) have k': "k' \<in> K" by auto
  have eq: "f k' = f k \<longleftrightarrow> k' = k" using inj_on_eq_iff [OF assms(2) k' assms(3)] .
  have rest: "fst ` set v \<subseteq> K" "list_all2 (\<lambda>(k, x) (i, d). i = f k \<and> Q k x d) v c'"
    using Cons.prems p by auto
  from Cons.IH [of c'] rest have "fst ` set (AList.delete k v) \<subseteq> K
      \<and> list_all2 (\<lambda>(k, x) (i, d). i = f k \<and> Q k x d) (AList.delete k v) (AList.delete (f k) c')"
    by simp
  then show ?case using p k' eq by (auto simp: AList.delete_eq)
qed simp

lemma last_separator:
  assumes "xs @ a # ys = xs' @ a # ys'" and "a \<notin> set ys" and "a \<notin> set ys'"
  shows "xs = xs' \<and> ys = ys'"
proof -
  have "takeWhile ((\<noteq>) a) (rev (xs @ a # ys)) = rev ys" if "a \<notin> set ys" for xs ys :: "'a list"
    using that by (auto simp: takeWhile_append)
  from this [of ys xs] this [of ys' xs'] assms have "rev ys = rev ys'" by simp
  with assms(1) show ?thesis by simp
qed


section \<open>A document that stands for a connection\<close>

text \<open>
  A secret that fits into one payload, is ASCII, and whose payload the JSON parser reads back.
\<close>

definition secret_ok :: "sealing \<Rightarrow> secret \<Rightarrow> bool" where
  "secret_ok sl s \<longleftrightarrow>
     make_secret (JStr (sec_value s)) (JStr (sec_kind s)) = Inr s
     \<and> list_all (\<lambda>c. (of_char c :: nat) < 128) (sec_value s)
     \<and> int (length (payload_text s)) \<le> MAX_SECRET_BYTES
     \<and> sl_loads sl (payload_text s)
          = Some (JObj [(''kind'', JStr (sec_kind s)), (''value'', JStr (sec_value s))])"

text \<open>What the vault relies on: the key service and the cipher undo what they did.\<close>

definition sealing_ok :: "sealing \<Rightarrow> bool" where
  "sealing_ok sl \<longleftrightarrow> inj (sl_sha sl)
     \<and> (\<forall>k. \<exists>w. sl_wrap sl k = Some w \<and> sl_unwrap sl w = Some k)
     \<and> (\<forall>k n p ad. sl_decrypt sl k n (sl_encrypt sl k n p ad) ad = Some p)"

definition expiry_field :: "int option \<Rightarrow> dfield" where
  "expiry_field until = (case until of None \<Rightarrow> Json JNull | Some t \<Rightarrow> Instant t)"

definition represents ::
    "sealing \<Rightarrow> string \<times> string \<Rightarrow> secret \<times> connection \<Rightarrow> document \<Rightarrow> bool" where
  "represents sl k x d \<longleftrightarrow>
     (let (s, r) = x in
      secret_ok sl s \<and> open_secret sl d (associated_data (fst k) (snd k)) = Inr s
      \<and> cn_id r = snd k \<and> connector_id_ok (snd k)
      \<and> dget ''owner_hash'' d = text_field (owner_hash sl (fst k))
      \<and> dget ''connector_id'' d = text_field (cn_id r)
      \<and> dget ''credential_kind'' d = text_field (cn_kind r)
      \<and> dget ''status'' d = text_field (cn_status r)
      \<and> dget ''created_at'' d = text_field (cn_created r)
      \<and> dget ''updated_at'' d = text_field (cn_updated r)
      \<and> dget ''credential_generation'' d = text_field (cn_generation r)
      \<and> stored_count d = Inr (cn_tools r) \<and> stored_tools d = Inr (cn_certified r)
      \<and> dget ''verified_at'' d = opt_cell (cn_verified r)
      \<and> dget ''error_code'' d = opt_cell (cn_error r)
      \<and> dget ''canary_tool'' d = opt_cell (cn_canary r)
      \<and> dget ''tool_schema_sha256'' d = opt_cell (cn_schema r)
      \<and> dget ''proof_version'' d = opt_cell (cn_proof r)
      \<and> dget ''certified_manifest_sha256'' d = opt_cell (cn_manifest r)
      \<and> dget ''execution_lease'' d = opt_cell (cn_lease r)
      \<and> dget ''execution_lease_expires_at'' d = expiry_field (cn_lease_until r))"

lemma dget_text [simp]: "dget k d = text_field s \<longleftrightarrow> map_of d k = Some (text_field s)"
  by (auto simp: dget_def split: option.splits)

lemma opt_cell_simps [simp]:
  "opt_cell None = Json JNull" "opt_cell (Some s) = text_field s"
  "opt_cell v = Json JNull \<longleftrightarrow> v = None" "opt_cell v = text_field s \<longleftrightarrow> v = Some s"
  by (auto simp: opt_cell_def split: option.splits)

lemma optional_text_opt:
  "dget k d = opt_cell v \<Longrightarrow> optional_text sl k d = v"
  by (cases v) (simp_all add: optional_text_def field_text_def dget_def)

lemma represented_record:
  assumes "represents sl k (s, r) d"
  shows "public_record sl d = Inr r"
proof -
  have e: "stored_expiry sl d = Inr (cn_lease_until r)"
    using assms by (cases "cn_lease_until r") (auto simp: represents_def stored_expiry_def expiry_field_def)
  note opt = optional_text_opt [of _ d _ sl]
  have i: "connector_id_ok (snd k)" using assms by (auto simp: represents_def)
  show ?thesis
    using assms by (simp add: represents_def public_record_def e stored_identifier_def required_def
        checked_connector_def field_text_def opt i)
qed

lemma represented_lease:
  assumes "represents sl k (s, r) d"
  shows "document_lease_active sl now d = lease_active now r"
  using assms by (cases "cn_lease r"; cases "cn_lease_until r")
    (auto simp: represents_def document_lease_active_def lease_active_def expiry_field_def dget_def)

lemma represented_id: "represents sl k (s, r) d \<Longrightarrow> connector_id_ok (snd k)"
  by (auto simp: represents_def)

lemma represented_owner:
  "represents sl k (s, r) d \<Longrightarrow> owned_by sl (fst k) d"
  by (simp add: represents_def owned_by_def field_text_def)

lemma represented_secret:
  assumes "represents sl k (s, r) d"
  shows "open_secret sl d (associated_data (fst k) (snd k)) = Inr s"
    and "open_connection sl d (associated_data (fst k) (snd k)) = Inr (Some (s, r))"
proof -
  show o: "open_secret sl d (associated_data (fst k) (snd k)) = Inr s"
    using assms by (simp add: represents_def)
  then show "open_connection sl d (associated_data (fst k) (snd k)) = Inr (Some (s, r))"
    using represented_record [OF assms] by (auto simp: open_connection_def open_secret_def returns)
qed


section \<open>Documents after a write\<close>

declare AList.merge_simps [simp del]

lemma dget_merge:
  "dget k (AList.merge d u) = (case map_of u k of Some f \<Rightarrow> f | None \<Rightarrow> dget k d)"
  by (auto simp: dget_def merge_conv' map_add_def split: option.splits)

lemma stored_merge:
  "map_of u ''tool_count'' = None \<Longrightarrow> stored_count (AList.merge d u) = stored_count d"
  "map_of u ''tool_count'' = Some (Json (JInt n)) \<Longrightarrow> stored_count (AList.merge d u) = Inr n"
  "map_of u ''certified_tools'' = None \<Longrightarrow> stored_tools (AList.merge d u) = stored_tools d"
  "map_of u ''certified_tools'' = Some (Json v) \<Longrightarrow> normalize_certified_tools v = Inr ts
     \<Longrightarrow> stored_tools (AList.merge d u) = Inr ts"
  by (auto simp: stored_count_def stored_tools_def merge_conv' map_add_def split: option.splits)

definition ENVELOPE_KEYS :: "string list" where
  "ENVELOPE_KEYS = [''schema'', ''nonce'', ''ciphertext'', ''wrapped_dek'', ''kms_key'']"

lemma open_secret_cong:
  assumes "\<forall>k \<in> set ENVELOPE_KEYS. dget k d = dget k d'"
  shows "open_secret sl d ad = open_secret sl d' ad"
  using assms by (simp add: ENVELOPE_KEYS_def open_secret_def cipher_open_def cong: option.case_cong)

lemma open_secret_merge:
  assumes "\<forall>k \<in> set ENVELOPE_KEYS. map_of u k = None"
  shows "open_secret sl (AList.merge d u) ad = open_secret sl d ad"
  using assms by (intro open_secret_cong) (simp add: dget_merge)

lemma sealed_opens:
  assumes ok: "sealing_ok sl" "secret_ok sl s"
    and env: "cipher_seal sl mo (payload_text s) ad = Inr env"
    and u: "\<forall>k \<in> set ENVELOPE_KEYS. map_of u k = None"
  shows "open_secret sl (AList.merge d (AList.merge env u)) ad = Inr s"
proof -
  obtain w where w: "sl_wrap sl (mo_dek mo) = Some w" "sl_unwrap sl w = Some (mo_dek mo)"
    using ok(1) unfolding sealing_ok_def by blast
  let ?p = "payload_text s"
  have env': "env = [(''schema'', text_field ENVELOPE_SCHEMA),
               (''nonce'', text_field (b64_encode (mo_nonce mo))),
               (''ciphertext'',
                  text_field (b64_encode (sl_encrypt sl (mo_dek mo) (mo_nonce mo) ?p ad))),
               (''wrapped_dek'', text_field (b64_encode w)),
               (''kms_key'', text_field (sl_key sl))]"
    using env w(1) by (auto simp: cipher_seal_def split: if_splits)
  have "dget k (AList.merge d (AList.merge env u)) = dget k env" if "k \<in> set ENVELOPE_KEYS" for k
    using that u env' by (auto simp: ENVELOPE_KEYS_def dget_def merge_conv' map_add_def)
  then have "open_secret sl (AList.merge d (AList.merge env u)) ad = open_secret sl env ad"
    by (intro open_secret_cong) blast
  also have "cipher_open sl env ad = Inr ?p"
    using ok(1) w(2) by (simp add: env' cipher_open_def dget_def decode_field_def b64_round_trip sealing_ok_def)
  then have "open_secret sl env ad = Inr s"
    using ok by (simp add: open_secret_def parsed_payload_def payload_secret_def sealing_ok_def secret_ok_def)
  finally show ?thesis .
qed

lemma seal_succeeds:
  assumes "sealing_ok sl" "secret_ok sl s"
  shows "\<exists>env. cipher_seal sl mo (payload_text s) ad = Inr env"
proof -
  obtain w where "sl_wrap sl (mo_dek mo) = Some w" using assms(1) unfolding sealing_ok_def by blast
  moreover have "payload_text s \<noteq> []" by (simp add: payload_text_def)
  ultimately show ?thesis using assms(2) by (auto simp: cipher_seal_def secret_ok_def)
qed

text \<open>Certified tools written as objects are read back.\<close>

lemma manifest_entry_ok:
  assumes "manifest_entry e = Inr p"
  shows "certified_name_ok (fst p) \<and> sha256_ok (snd p)"
  using assms by (auto simp: manifest_entry_def bad_manifest_def split: json.splits list.splits if_splits option.splits)

lemma normalized_tools:
  assumes "normalize_certified_tools v = Inr ts"
  shows "length ts \<le> 128" and "sorted ts" and "distinct (map fst ts)"
    and "\<forall>p \<in> set ts. certified_name_ok (fst p) \<and> sha256_ok (snd p)"
proof -
  have "length ts \<le> 128 \<and> sorted ts \<and> distinct (map fst ts)
      \<and> (\<forall>p \<in> set ts. certified_name_ok (fst p) \<and> sha256_ok (snd p))"
  proof (cases v)
    case (JArr es)
    then obtain us where us: "mapE manifest_entry es = Inr us" "distinct (map fst us)" "ts = sort us"
        "length es \<le> 128"
      using assms by (auto simp: normalize_certified_tools_def bad_manifest_def returns split: if_splits)
    have "distinct (map fst (sort us))"
      using us(2) by (metis distinct_map mset_map mset_sort mset_eq_imp_distinct_iff)
    with us show ?thesis
      using mapE_length [OF us(1)] mapE_set [OF us(1)] manifest_entry_ok by fastforce
  qed (use assms in \<open>auto simp: normalize_certified_tools_def bad_manifest_def\<close>)
  then show "length ts \<le> 128" "sorted ts" "distinct (map fst ts)"
    "\<forall>p \<in> set ts. certified_name_ok (fst p) \<and> sha256_ok (snd p)" by auto
qed

lemma tools_json_again:
  assumes "normalize_certified_tools v = Inr ts"
  shows "normalize_certified_tools (tools_json ts) = Inr ts"
proof -
  note ts = normalized_tools [OF assms]
  have "mapE manifest_entry (map (\<lambda>(name, dig). JObj [(''name'', JStr name), (''schema_sha256'', JStr dig)]) us)
      = Inr us" if "\<forall>p \<in> set us. certified_name_ok (fst p) \<and> sha256_ok (snd p)" for us
    using that by (induction us) (auto simp: manifest_entry_def jget_def)
  from this [OF ts(4)] show ?thesis
    using ts by (simp add: normalize_certified_tools_def tools_json_def sort_key_id_if_sorted)
qed

lemma normalize_nil [simp]: "normalize_certified_tools (JArr []) = Inr []"
  by (simp add: normalize_certified_tools_def)

lemma validated_tools:
  assumes "validate_certification sl status c = Inr tools"
  shows "normalize_certified_tools (if status = ''ready'' then tools_json tools else JArr [])
      = Inr (if status = ''ready'' then tools else [])"
  using assms tools_json_again by (auto simp: validate_certification_def returns split: if_splits)


lemma represents_decertified:
  assumes "represents sl k (s, r) d"
  shows "represents sl k (s, (decertified status now e lease until r)\<lparr>cn_generation := g\<rparr>)
      (AList.merge d ((''credential_generation'', text_field g)
         # decertified_fields status now e lease until))"
  using assms unfolding represents_def Let_def case_prod_conv
  by (simp add: dget_merge stored_merge open_secret_merge ENVELOPE_KEYS_def decertified_fields_def
      decertified_def expiry_field_def merge_conv' map_add_def)

lemma represents_decertified':
  assumes "represents sl k (s, r) d"
  shows "represents sl k (s, decertified status now e lease until r)
      (AList.merge d (decertified_fields status now e lease until))"
  using assms unfolding represents_def Let_def case_prod_conv
  by (simp add: dget_merge stored_merge open_secret_merge ENVELOPE_KEYS_def decertified_fields_def
      decertified_def expiry_field_def merge_conv' map_add_def)

lemma represents_leased:
  assumes "represents sl k (s, r) d"
  shows "represents sl k (s, leased lease until now r) (AList.merge d (leased_fields lease until now))"
  using assms unfolding represents_def Let_def case_prod_conv
  by (simp add: dget_merge stored_merge open_secret_merge ENVELOPE_KEYS_def leased_fields_def
      leased_def expiry_field_def merge_conv' map_add_def)

lemma represents_concluded:
  assumes "represents sl k (s, r) d" and "validate_certification sl status c = Inr tools"
  shows "represents sl k (s, concluded status now c tools r)
      (AList.merge d (concluded_fields (if status = ''ready'' then ct_tools c else 0) status now c tools))"
proof -
  note tools = validated_tools [OF assms(2)]
  have "stored_tools (AList.merge d (concluded_fields amount status now c tools))
      = Inr (if status = ''ready'' then tools else [])" for amount
    by (rule stored_merge(4) [OF _ tools]) (simp add: concluded_fields_def Let_def)
  with assms(1) show ?thesis unfolding represents_def Let_def case_prod_conv
    by (simp add: dget_merge stored_merge open_secret_merge ENVELOPE_KEYS_def concluded_fields_def
        concluded_def expiry_field_def Let_def merge_conv' map_add_def)
qed

lemma represents_rotated:
  fixes g now :: string
  assumes "represents sl k (s, r) d" and "sealing_ok sl" "secret_ok sl s'"
    and "cipher_seal sl mo (payload_text s') (associated_data (fst k) (snd k)) = Inr env"
  defines "u \<equiv> [(''credential_kind'', text_field (sec_kind s')),
      (''credential_generation'', text_field g), (''updated_at'', text_field now)]"
  shows "represents sl k (s', rotated (sec_kind s') g now r) (AList.merge d (AList.merge env u))"
proof -
  have env: "map_of env k = None" if "k \<notin> set ENVELOPE_KEYS" for k
    using assms(4) that by (auto simp: cipher_seal_def ENVELOPE_KEYS_def split: if_splits option.splits)
  obtain w where w: "w = AList.merge env u" by simp
  have get: "map_of w k = map_of u k" if "k \<notin> set ENVELOPE_KEYS" for k
    using env [OF that] by (simp add: w merge_conv' map_add_def split: option.splits)
  have o: "open_secret sl (AList.merge d w) (associated_data (fst k) (snd k)) = Inr s'"
    using assms unfolding w by (intro sealed_opens [OF assms(2-4)]) (simp add: u_def ENVELOPE_KEYS_def)
  show ?thesis
    using assms(1,3) unfolding w [symmetric] represents_def Let_def case_prod_conv
    by (simp add: dget_merge stored_merge get o rotated_def ENVELOPE_KEYS_def u_def)
qed

lemma represents_new:
  assumes "sealing_ok sl" "secret_ok sl s" "connector_id_ok cid"
    and env: "cipher_seal sl mo (payload_text s) (associated_data uid cid) = Inr env"
  defines "u \<equiv> [(''owner_hash'', text_field (owner_hash sl uid)), (''connector_id'', text_field cid),
                  (''credential_kind'', text_field (sec_kind s)),
                  (''credential_generation'', text_field (mo_token mo)),
                  (''status'', text_field ''stored_unverified''),
                  (''created_at'', text_field (mo_text mo)), (''updated_at'', text_field (mo_text mo))]"
  shows "represents sl (uid, cid) (s, new_connection cid (sec_kind s) (mo_text mo) (mo_token mo))
      (AList.merge env u)"
proof -
  have get: "map_of (AList.merge env u) k = map_of u k" if "k \<notin> set ENVELOPE_KEYS" for k
    using env that
    by (auto simp: cipher_seal_def ENVELOPE_KEYS_def merge_conv' map_add_def split: if_splits option.splits)
  have "dget k w = dget k (AList.merge [] w)" for k and w :: document
    by (simp add: dget_merge) (simp add: dget_def split: option.splits)
  then have "open_secret sl (AList.merge env u) (associated_data uid cid)
      = open_secret sl (AList.merge [] (AList.merge env u)) (associated_data uid cid)"
    by (intro open_secret_cong) blast
  also have "\<dots> = Inr s"
    by (intro sealed_opens [OF assms(1,2) env]) (simp add: u_def ENVELOPE_KEYS_def)
  finally have o: "open_secret sl (AList.merge env u) (associated_data uid cid) = Inr s" .
  obtain w where w: "w = AList.merge env u" by simp
  note get = get [folded w] and o = o [folded w]
  show ?thesis
    using assms(2,3) o unfolding w [symmetric] represents_def Let_def case_prod_conv
    by (simp add: get dget_def stored_count_def stored_tools_def new_connection_def ENVELOPE_KEYS_def
        u_def expiry_field_def)
qed


section \<open>The two vaults side by side\<close>

definition vault_keys :: "(string \<times> string) set" where "vault_keys = {k. connector_id_ok (snd k)}"

abbreviation doc_key :: "sealing \<Rightarrow> string \<times> string \<Rightarrow> string" where
  "doc_key sl k \<equiv> document_id sl (fst k) (snd k)"

definition vault_rel :: "sealing \<Rightarrow> mem_vault \<Rightarrow> collection \<Rightarrow> bool" where
  "vault_rel sl v c \<longleftrightarrow> keyed (doc_key sl) vault_keys (represents sl) v c"

definition alike ::
    "sealing \<Rightarrow> 'a vaulted \<times> mem_vault \<Rightarrow> 'a vaulted \<times> collection \<Rightarrow> bool" where
  "alike sl m k \<longleftrightarrow> fst m = fst k \<and> vault_rel sl (snd m) (snd k)"

lemma connector_id_no_separator: "connector_id_ok cid \<Longrightarrow> CHR 0x00 \<notin> set cid"
  by (cases cid) (auto simp: connector_id_ok_def lower_alnum_def list_all_iff)

lemma doc_key_inj: "sealing_ok sl \<Longrightarrow> inj_on (doc_key sl) vault_keys"
proof (rule inj_onI)
  fix k k' :: "string \<times> string"
  assume ok: "sealing_ok sl" "k \<in> vault_keys" "k' \<in> vault_keys" and eq: "doc_key sl k = doc_key sl k'"
  from ok(1) have "inj (sl_sha sl)" by (simp add: sealing_ok_def)
  with eq have "fst k @ CHR 0x00 # snd k = fst k' @ CHR 0x00 # snd k'"
    by (auto simp: document_id_def dest: injD)
  with last_separator [OF this] ok(2,3) show "k = k'"
    by (simp add: vault_keys_def connector_id_no_separator prod_eq_iff)
qed

lemma rel_update:
  assumes "vault_rel sl v c" "sealing_ok sl" "represents sl (uid, cid) (s, r) d"
  shows "vault_rel sl (AList.update (uid, cid) (s, r) v) (AList.update (document_id sl uid cid) d c)"
  using keyed_update [OF assms(1) [unfolded vault_rel_def] doc_key_inj [OF assms(2)] _ assms(3)] represented_id [OF assms(3)]
  by (simp add: vault_rel_def vault_keys_def)

lemma rel_delete:
  assumes "vault_rel sl v c" "sealing_ok sl" "connector_id_ok cid"
  shows "vault_rel sl (AList.delete (uid, cid) v) (AList.delete (document_id sl uid cid) c)"
  using keyed_delete [OF assms(1) [unfolded vault_rel_def] doc_key_inj [OF assms(2)], of "(uid, cid)"] assms(3)
  by (simp add: vault_rel_def vault_keys_def)

lemma rel_lookup:
  assumes "vault_rel sl v c" "sealing_ok sl" "connector_id_ok cid"
  shows "rel_option (represents sl (uid, cid)) (map_of v (uid, cid)) (map_of c (document_id sl uid cid))"
  using keyed_lookup [OF assms(1) [unfolded vault_rel_def] doc_key_inj [OF assms(2)], of "(uid, cid)"] assms(3)
  by (simp add: vault_keys_def)

lemma in_document_alike:
  assumes rel: "vault_rel sl v c" "sealing_ok sl" "connector_id_ok cid" and db: "mo_db mo"
    and step: "\<And>s r d. map_of v (uid, cid) = Some (s, r) \<Longrightarrow> represents sl (uid, cid) (s, r) d \<Longrightarrow>
        alike sl (body (uid, cid) s r) (body' c (document_id sl uid cid) d)
        \<and> (\<forall>e. fst (body (uid, cid) s r) = Inl e \<longrightarrow> lets e)"
  shows "alike sl (case map_of v (uid, cid) of None \<Rightarrow> (Inr absent, v) | Some (s, r) \<Rightarrow> body (uid, cid) s r)
      (transacted mo lets msg (\<lambda>c. in_document sl uid cid absent (body' c) c) c)"
proof (cases "map_of v (uid, cid)")
  case None
  with rel_lookup [OF rel, of uid] have "map_of c (document_id sl uid cid) = None" by simp
  with None rel db show ?thesis by (simp add: alike_def transacted_def in_document_def)
next
  case (Some x)
  obtain s r where x: "x = (s, r)" by fastforce
  with Some rel_lookup [OF rel, of uid] obtain d where
    d: "map_of c (document_id sl uid cid) = Some d" "represents sl (uid, cid) (s, r) d"
    by (auto simp: option_rel_Some1)
  have own: "owned_by sl uid d" using represented_owner [OF d(2)] by simp
  note st = step [OF Some [unfolded x] d(2)]
  obtain a v1 b c1 where ab: "body (uid, cid) s r = (a, v1)" "body' c (document_id sl uid cid) d = (b, c1)"
    by fastforce
  have "transacted mo lets msg (\<lambda>c. in_document sl uid cid absent (body' c) c) c = (b, c1)"
    using st db d(1) own ab by (auto simp: transacted_def in_document_def alike_def split: sum.splits)
  with st Some x ab show ?thesis by simp
qed

lemma at_item_alike:
  assumes "vault_rel sl v c" "sealing_ok sl" "mo_db mo"
    and "\<And>s r d. connector_id_ok cid \<Longrightarrow> map_of v (uid, cid) = Some (s, r) \<Longrightarrow>
        represents sl (uid, cid) (s, r) d \<Longrightarrow>
        alike sl (body (uid, cid) s r) (body' cid c (document_id sl uid cid) d)
        \<and> (\<forall>e. fst (body (uid, cid) s r) = Inl e \<longrightarrow> lets e)"
  shows "alike sl (at_item uid cid absent body v)
      (checked cid (\<lambda>cid. transacted mo lets msg
         (\<lambda>c. in_document sl uid cid absent (body' cid c) c)) c)"
proof (cases "connector_id_ok cid")
  case True
  from in_document_alike [where body = body and body' = "body' cid", OF assms(1,2) True assms(3) assms(4) [OF True]] True
  show ?thesis by (simp add: at_item_def checked_def checked_connector_def)
next
  case False
  with assms(1) show ?thesis by (simp add: at_item_def checked_def checked_connector_def alike_def)
qed

lemma some_represented: "represents sl k (s, r) d \<Longrightarrow> some_record sl d = Inr (Some r)"
  by (simp add: some_record_def represented_record)

lemma payload_represented:
  "represents sl (uid, cid) (s, r) d \<Longrightarrow> payload_errors sl uid cid d msg = Inr (Some (s, r))"
  using represented_secret(2) [of sl "(uid, cid)" s r d] by (simp add: payload_errors_def)

lemma represented_fields:
  assumes "represents sl k (s, r) d"
  shows "dget ''status'' d = text_field x \<longleftrightarrow> cn_status r = x"
    and "dget ''credential_generation'' d = text_field x \<longleftrightarrow> cn_generation r = x"
    and "dget ''credential_generation'' d = text_field (cn_generation r)"
    and "dget ''error_code'' d = text_field x \<longleftrightarrow> cn_error r = Some x"
    and "dget ''execution_lease'' d = text_field x \<longleftrightarrow> cn_lease r = Some x"
  using assms unfolding represents_def Let_def case_prod_conv
  by (auto simp del: dget_text)

lemma lease_held_represented:
  "represents sl k (s, r) d \<Longrightarrow>
     lease_held g l d \<longleftrightarrow> cn_status r = ''ready'' \<and> cn_generation r = g \<and> cn_lease r = Some l"
  by (simp add: lease_held_def represented_fields del: dget_text)

end
