(* ===== verification/Vault_Runs.thy ===== *)
theory Vault_Runs
  imports Vault_Correct
begin

text \<open>
  Sequences of operations on the two vaults: they answer alike, and what every sequence keeps of a
  connection.
\<close>

section \<open>Each operation answers alike\<close>

definition together :: "sealing \<Rightarrow> moment \<Rightarrow> mem_vault \<Rightarrow> collection \<Rightarrow> bool" where
  "together sl mo v c \<longleftrightarrow> vault_rel sl v c \<and> sealing_ok sl \<and> mo_db mo"

lemma step_update:
  assumes "together sl mo v c" "represents sl (uid, cid) (s, r) d"
  shows "alike sl (a, AList.update (uid, cid) (s, r) v) (a, AList.update (document_id sl uid cid) d c)"
  using rel_update [OF _ _ assms(2)] assms(1) by (simp add: alike_def together_def)

lemma step_same: "together sl mo v c \<Longrightarrow> alike sl (a, v) (a, c)"
  by (simp add: alike_def together_def)

lemma step_item:
  assumes "together sl mo v c"
    and "\<And>s r d. connector_id_ok cid \<Longrightarrow> map_of v (uid, cid) = Some (s, r) \<Longrightarrow>
        represents sl (uid, cid) (s, r) d \<Longrightarrow>
        alike sl (body (uid, cid) s r) (body' cid c (document_id sl uid cid) d)
        \<and> (\<forall>e. fst (body (uid, cid) s r) = Inl e \<longrightarrow> lets e)"
  shows "alike sl (at_item uid cid absent body v)
      (checked cid (\<lambda>cid. transacted mo lets msg
         (\<lambda>c. in_document sl uid cid absent (body' cid c) c)) c)"
  using at_item_alike [of sl v c mo cid uid body body' lets absent msg] assms unfolding together_def by blast

lemma put_alike:
  assumes side: "together sl mo v c" and s: "secret_ok sl s"
  shows "alike sl (mv_put mo uid cid s v) (kv_put sl mo uid cid s c)"
proof (cases "connector_id_ok cid")
  case True
  from side have rel: "vault_rel sl v c" "sealing_ok sl" "mo_db mo" by (simp_all add: together_def)
  obtain env where env: "cipher_seal sl mo (payload_text s) (associated_data uid cid) = Inr env"
    using seal_succeeds [OF rel(2) s] by blast
  note new = represents_new [OF rel(2) s True env]
  from rel_lookup [OF rel(1,2) True, of uid] show ?thesis
    using True rel(3) env represented_record [OF new] step_update [OF side new] step_same [OF side]
    by (cases "map_of v (uid, cid)"; cases "map_of c (document_id sl uid cid)")
      (auto simp: mv_put_def kv_put_def checked_def checked_connector_def Let_def)
qed (use step_same [OF side] in \<open>simp add: mv_put_def kv_put_def checked_def checked_connector_def\<close>)

lemma get_alike:
  assumes "together sl mo v c"
  shows "mv_get uid cid v = kv_get sl mo uid cid c"
proof (cases "connector_id_ok cid")
  case True
  from assms have rel: "vault_rel sl v c" "sealing_ok sl" "mo_db mo" by (simp_all add: together_def)
  note found = rel_lookup [OF rel(1,2) True, of uid]
  show ?thesis
  proof (cases "map_of v (uid, cid)")
    case None
    with found True rel(3) show ?thesis
      by (simp add: mv_get_def kv_get_def at_item_def checked_def checked_connector_def in_document_def)
  next
    case (Some x)
    obtain s r where x: "x = (s, r)" by fastforce
    with Some found obtain d where
      d: "map_of c (document_id sl uid cid) = Some d" "represents sl (uid, cid) (s, r) d"
      by (auto simp: option_rel_Some1)
    from represented_secret(2) [OF d(2)] represented_owner [OF d(2)] d(1) True Some x rel(3) show ?thesis
      by (simp add: mv_get_def kv_get_def at_item_def checked_def checked_connector_def
          in_document_def unreadable_def)
  qed
qed (simp add: mv_get_def kv_get_def at_item_def checked_def checked_connector_def)

lemma list_alike:
  assumes "together sl mo v c"
  shows "kv_list sl mo uid c = Inr (mv_list uid v)"
proof -
  let ?own = "\<lambda>d. dget ''owner_hash'' d = text_field (owner_hash sl uid)"
  have inj: "inj (sl_sha sl)" using assms by (simp add: together_def sealing_ok_def)
  have "list_all2 (\<lambda>(k, x) (i, d). i = doc_key sl k \<and> represents sl k x d) v c"
    using assms by (simp add: together_def vault_rel_def keyed_def)
  then have "mapE (public_record sl) (filter ?own (map snd c))
      = Inr (map (snd \<circ> snd) (filter (\<lambda>p. fst (fst p) = uid) v))"
  proof (induction v c rule: list_all2_induct)
    case (Cons p v q c)
    obtain k s r i d where pq: "p = (k, (s, r))" "q = (i, d)" "represents sl k (s, r) d"
      using Cons(1) by (cases p; cases q) auto
    have own: "?own d \<longleftrightarrow> fst k = uid"
      using pq(3) inj by (auto simp: represents_def owner_hash_def dest: injD)
    from Cons.IH own represented_record [OF pq(3)] show ?case
      by (simp add: pq(1,2) del: dget_text)
  qed simp
  then show ?thesis using assms by (simp add: kv_list_def mv_list_def together_def del: dget_text)
qed

lemma same_secret_ok: "secret_ok sl a \<Longrightarrow> secret_ok sl b \<Longrightarrow> same_secret a b = Inr (a = b)"
  by (auto simp: same_secret_def secret_ok_def)

lemma represented_secret_ok: "represents sl k (s, r) d \<Longrightarrow> secret_ok sl s"
  by (simp add: represents_def)

lemma quarantine_alike:
  assumes side: "together sl mo v c" and "secret_ok sl expected"
  shows "alike sl (mv_quarantine mo uid cid g l expected e v) (kv_quarantine sl mo uid cid g l expected e c)"
  unfolding mv_quarantine_def kv_quarantine_def
proof (rule step_item [OF side], goal_cases)
  case (1 s r d)
  from same_secret_ok [OF represented_secret_ok [OF 1(3)] assms(2)] show ?case
    using step_update [OF side represents_decertified' [OF 1(3)]] step_same [OF side]
      lease_held_represented [OF 1(3)] represented_secret(1) [OF 1(3)]
    by (auto simp: unreadable_def split: bool.splits)
qed

lemma rotate_alike:
  assumes side: "together sl mo v c" and s: "secret_ok sl s" "secret_ok sl expected"
  shows "alike sl (mv_rotate mo uid cid g l expected s v) (kv_rotate sl mo uid cid g l expected s c)"
proof (cases "connector_id_ok cid")
  case True
  from side have rel: "sealing_ok sl" by (simp add: together_def)
  obtain env where env: "cipher_seal sl mo (payload_text s) (associated_data uid cid) = Inr env"
    using seal_succeeds [OF rel s(1)] by blast
  let ?new = "[(''credential_kind'', text_field (sec_kind s)),
      (''credential_generation'', text_field (mo_token mo)), (''updated_at'', text_field (mo_text mo))]"
  let ?body = "\<lambda>cid c i d.
      if \<not> lease_held g l d then (Inr None, c)
      else case unreadable (open_secret sl d (associated_data uid cid)) of
        Inl e \<Rightarrow> (Inl e, c)
      | Inr current \<Rightarrow>
          (case (if sec_kind s \<noteq> sec_kind expected then Inr False else same_secret current expected) of
             Inl e \<Rightarrow> (Inl e, c)
           | Inr False \<Rightarrow> (Inr None, c)
           | Inr True \<Rightarrow>
               (let d1 = AList.merge d (AList.merge env ?new)
                in (some_record sl d1, AList.update i d1 c)))"
  have "alike sl (mv_rotate mo uid cid g l expected s v)
      (checked cid (\<lambda>cid. transacted mo vault_errors ''could not rotate connector credential''
         (\<lambda>c. in_document sl uid cid None (?body cid c) c)) c)"
    unfolding mv_rotate_def
  proof (rule step_item [OF side, where body' = ?body], goal_cases)
    case (1 t r d)
    have new: "represents sl (uid, cid) (s, rotated (sec_kind s) (mo_token mo) (mo_text mo) r)
        (AList.merge d (AList.merge env ?new))"
      using represents_rotated [OF 1(3) rel s(1)] env by simp
    from same_secret_ok [OF represented_secret_ok [OF 1(3)] s(2)] show ?case
      using step_update [OF side new] step_same [OF side] lease_held_represented [OF 1(3)]
        represented_secret(1) [OF 1(3)] some_represented [OF new]
      by (auto simp: unreadable_def Let_def split: bool.splits)
  qed
  then show ?thesis using True env by (simp add: kv_rotate_def checked_def checked_connector_def)
qed (use step_same [OF side] in
    \<open>simp add: mv_rotate_def kv_rotate_def at_item_def checked_def checked_connector_def\<close>)

lemma begin_alike:
  assumes side: "together sl mo v c"
  shows "alike sl (mv_begin_verification mo uid cid g v) (kv_begin_verification sl mo uid cid g c)"
  unfolding mv_begin_verification_def kv_begin_verification_def
proof (rule step_item [OF side], goal_cases)
  case (1 s r d)
  note new = represents_decertified' [OF 1(3)]
  show ?case
    by (simp add: step_update [OF side new] step_same [OF side] represented_fields [OF 1(3)]
      represented_lease [OF 1(3)] some_represented [OF new] Let_def del: dget_text)
qed

lemma finish_alike:
  assumes side: "together sl mo v c" and "status \<in> {''ready'', ''needs_attention''}"
  shows "alike sl (mv_finish_verification sl mo uid cid g l status ct v)
      (kv_finish_verification sl mo uid cid g l status ct c)"
proof (cases "validate_certification sl status ct")
  case (Inr tools)
  have "alike sl (at_item uid cid None (\<lambda>k s r.
            if cn_generation r \<noteq> g \<or> cn_status r \<noteq> ''verifying'' \<or> cn_lease r \<noteq> Some l
            then (Inr None, v)
            else
              (let r1 = concluded status (mo_text mo) ct tools r
               in (Inr (Some r1), AList.update k (s, r1) v))) v)
       (checked cid (\<lambda>cid. transacted mo vault_errors ''could not finish connector verification''
                (\<lambda>docs. in_document sl uid cid None (\<lambda>i d.
                   if dget ''credential_generation'' d \<noteq> text_field g
                      \<or> dget ''status'' d \<noteq> text_field ''verifying''
                      \<or> dget ''execution_lease'' d \<noteq> text_field l
                   then (Inr None, docs)
                   else
                     (let d1 = AList.merge d (concluded_fields
                            (if status = ''ready'' then ct_tools ct else 0) status (mo_text mo) ct tools)
                      in (some_record sl d1, AList.update i d1 docs))) docs)) c)"
  proof (rule step_item [OF side], goal_cases)
    case (1 s r d)
    obtain d1 where d1: "d1 = AList.merge d (concluded_fields (if status = ''ready'' then ct_tools ct else 0)
        status (mo_text mo) ct tools)" by simp
    note new = represents_concluded [OF 1(3) Inr, of "mo_text mo", folded d1]
    show ?case unfolding d1 [symmetric]
      by (simp add: step_update [OF side new] step_same [OF side] represented_fields [OF 1(3)]
        some_represented [OF new] Let_def del: dget_text)
  qed
  with assms(2) Inr show ?thesis by (auto simp: mv_finish_verification_def kv_finish_verification_def)
qed (use assms(2) step_same [OF side] in
    \<open>auto simp: mv_finish_verification_def kv_finish_verification_def\<close>)

lemma claim_alike:
  assumes side: "together sl mo v c"
  shows "alike sl (mv_claim mo uid cid v) (kv_claim sl mo uid cid c)"
  unfolding mv_claim_def kv_claim_def
proof (rule step_item [OF side], goal_cases)
  case (1 s r d)
  note new = represents_leased [OF 1(3)]
  show ?case
    by (simp add: step_update [OF side new] step_same [OF side] represented_fields [OF 1(3)]
      represented_lease [OF 1(3)] payload_represented [OF new] Let_def vault_errors_def del: dget_text)
qed

lemma release_alike:
  assumes side: "together sl mo v c"
  shows "alike sl (mv_release mo uid cid l v) (kv_release sl mo uid cid l c)"
  unfolding mv_release_def kv_release_def
proof (rule step_item [OF side], goal_cases)
  case (1 s r d)
  show ?case
    by (simp add: step_update [OF side represents_leased [OF 1(3)]] step_same [OF side]
      represented_fields [OF 1(3)] del: dget_text)
qed

lemma disconnect_alike:
  assumes side: "together sl mo v c"
  shows "alike sl (mv_begin_disconnect mo uid cid v) (kv_begin_disconnect sl mo uid cid c)"
  unfolding mv_begin_disconnect_def kv_begin_disconnect_def
proof (rule step_item [OF side], goal_cases)
  case (1 s r d)
  note new = represents_decertified [OF 1(3)]
  show ?case
    by (simp add: step_update [OF side new] step_same [OF side] represented_fields [OF 1(3)]
      represented_lease [OF 1(3)] payload_represented [OF new] Let_def vault_errors_def del: dget_text)
qed

lemma delete_alike:
  assumes side: "together sl mo v c"
  shows "alike sl (mv_delete uid cid g need v) (kv_delete sl mo uid cid g need c)"
  unfolding mv_delete_def kv_delete_def
proof (rule step_item [OF side], goal_cases)
  case (1 s r d)
  have "vault_rel sl (AList.delete (uid, cid) v) (AList.delete (document_id sl uid cid) c)"
    "vault_rel sl v c" using rel_delete 1(1) side by (simp_all add: together_def)
  then show ?case
    by (cases g) (auto simp: alike_def step_same [OF side] represented_fields [OF 1(3)] simp del: dget_text)
qed

lemma mark_alike:
  assumes side: "together sl mo v c" and "status = ''ready'' \<or> ct_tools ct = 0"
  shows "alike sl (mv_mark sl mo uid cid status ct v) (kv_mark sl mo uid cid status ct c)"
proof (cases "connector_id_ok cid")
  case True
  from side have rel: "vault_rel sl v c" "sealing_ok sl" "mo_db mo" by (simp_all add: together_def)
  note found = rel_lookup [OF rel(1,2) True, of uid]
  have n: "(if status = ''ready'' then ct_tools ct else 0) = ct_tools ct" using assms(2) by auto
  show ?thesis
  proof (cases "map_of v (uid, cid)")
    case None
    with found have "map_of c (document_id sl uid cid) = None" by simp
    with None True rel(3) step_same [OF side] show ?thesis
      by (auto simp: mv_mark_def kv_mark_def checked_def checked_connector_def split: sum.splits)
  next
    case (Some x)
    obtain s r where x: "x = (s, r)" by fastforce
    with Some found obtain d where
      d: "map_of c (document_id sl uid cid) = Some d" "represents sl (uid, cid) (s, r) d"
      by (auto simp: option_rel_Some1)
    have new: "represents sl (uid, cid) (s, concluded status (mo_text mo) ct tools r)
        (AList.merge d (concluded_fields (ct_tools ct) status (mo_text mo) ct tools))"
      if "validate_certification sl status ct = Inr tools" for tools
      using represents_concluded [OF d(2) that, unfolded n] .
    from d(1) Some x True rel(3) represented_owner [OF d(2)] step_same [OF side] show ?thesis
      by (auto simp: mv_mark_def kv_mark_def checked_def checked_connector_def Let_def
          represented_record [OF new] split: sum.splits intro!: step_update [OF side] new)
  qed
qed (use step_same [OF side] in \<open>simp add: mv_mark_def kv_mark_def checked_def checked_connector_def\<close>)

end
