(* ===== verification/Vault_Safe.thy ===== *)
theory Vault_Safe
  imports Vault_Runs
begin

text \<open>
  Every sequence of operations: what the vaults answer, when a credential is handed out, and how a
  lease and a disconnection hold.
\<close>

section \<open>Sequences of operations\<close>

datatype vault_op =
    V_Put string string secret
  | V_List string
  | V_Get string string
  | V_Rotate string string string string secret secret
  | V_Quarantine string string string string secret string
  | V_Begin string string string
  | V_Finish string string string string string certificate
  | V_Claim string string
  | V_Release string string string
  | V_Disconnect string string
  | V_Mark string string string certificate
  | V_Delete string string "string option" bool

datatype vault_answer =
    Made connection
  | Listed "connection list"
  | Maybe "connection option"
  | Stored "(secret \<times> connection) option"
  | Flag bool

definition answering :: "('a \<Rightarrow> vault_answer) \<Rightarrow> 'a vaulted \<times> 's \<Rightarrow> vault_answer vaulted \<times> 's" where
  "answering f p = (map_sum id f (fst p), snd p)"

fun mv_step :: "sealing \<Rightarrow> moment \<times> vault_op \<Rightarrow> mem_vault \<Rightarrow> vault_answer vaulted \<times> mem_vault" where
  "mv_step sl (mo, V_Put uid cid s) v = answering Made (mv_put mo uid cid s v)"
| "mv_step sl (mo, V_List uid) v = (Inr (Listed (mv_list uid v)), v)"
| "mv_step sl (mo, V_Get uid cid) v = answering Stored (mv_get uid cid v, v)"
| "mv_step sl (mo, V_Rotate uid cid g l e s) v = answering Maybe (mv_rotate mo uid cid g l e s v)"
| "mv_step sl (mo, V_Quarantine uid cid g l e x) v = answering Flag (mv_quarantine mo uid cid g l e x v)"
| "mv_step sl (mo, V_Begin uid cid g) v = answering Maybe (mv_begin_verification mo uid cid g v)"
| "mv_step sl (mo, V_Finish uid cid g l status c) v =
     answering Maybe (mv_finish_verification sl mo uid cid g l status c v)"
| "mv_step sl (mo, V_Claim uid cid) v = answering Stored (mv_claim mo uid cid v)"
| "mv_step sl (mo, V_Release uid cid l) v = answering Flag (mv_release mo uid cid l v)"
| "mv_step sl (mo, V_Disconnect uid cid) v = answering Stored (mv_begin_disconnect mo uid cid v)"
| "mv_step sl (mo, V_Mark uid cid status c) v = answering Made (mv_mark sl mo uid cid status c v)"
| "mv_step sl (mo, V_Delete uid cid g need) v = answering Flag (mv_delete uid cid g need v)"

fun kv_step :: "sealing \<Rightarrow> moment \<times> vault_op \<Rightarrow> collection \<Rightarrow> vault_answer vaulted \<times> collection" where
  "kv_step sl (mo, V_Put uid cid s) v = answering Made (kv_put sl mo uid cid s v)"
| "kv_step sl (mo, V_List uid) v = answering Listed (kv_list sl mo uid v, v)"
| "kv_step sl (mo, V_Get uid cid) v = answering Stored (kv_get sl mo uid cid v, v)"
| "kv_step sl (mo, V_Rotate uid cid g l e s) v = answering Maybe (kv_rotate sl mo uid cid g l e s v)"
| "kv_step sl (mo, V_Quarantine uid cid g l e x) v = answering Flag (kv_quarantine sl mo uid cid g l e x v)"
| "kv_step sl (mo, V_Begin uid cid g) v = answering Maybe (kv_begin_verification sl mo uid cid g v)"
| "kv_step sl (mo, V_Finish uid cid g l status c) v =
     answering Maybe (kv_finish_verification sl mo uid cid g l status c v)"
| "kv_step sl (mo, V_Claim uid cid) v = answering Stored (kv_claim sl mo uid cid v)"
| "kv_step sl (mo, V_Release uid cid l) v = answering Flag (kv_release sl mo uid cid l v)"
| "kv_step sl (mo, V_Disconnect uid cid) v = answering Stored (kv_begin_disconnect sl mo uid cid v)"
| "kv_step sl (mo, V_Mark uid cid status c) v = answering Made (kv_mark sl mo uid cid status c v)"
| "kv_step sl (mo, V_Delete uid cid g need) v = answering Flag (kv_delete sl mo uid cid g need v)"

text \<open>
  Operations as the callers issue them: secrets that fit into one sealed payload, and a status
  of a finished verification that is one of the two possible ones.
\<close>

fun op_ok :: "sealing \<Rightarrow> moment \<times> vault_op \<Rightarrow> bool" where
  "op_ok sl (mo, V_Put uid cid s) \<longleftrightarrow> mo_db mo \<and> secret_ok sl s"
| "op_ok sl (mo, V_Rotate uid cid g l e s) \<longleftrightarrow> mo_db mo \<and> secret_ok sl e \<and> secret_ok sl s"
| "op_ok sl (mo, V_Quarantine uid cid g l e x) \<longleftrightarrow> mo_db mo \<and> secret_ok sl e"
| "op_ok sl (mo, V_Finish uid cid g l status c) \<longleftrightarrow> mo_db mo \<and> status \<in> {''ready'', ''needs_attention''}"
| "op_ok sl (mo, V_Mark uid cid status c) \<longleftrightarrow> mo_db mo \<and> (status = ''ready'' \<or> ct_tools c = 0)"
| "op_ok sl (mo, _) \<longleftrightarrow> mo_db mo"

fun vault_run :: "('x \<Rightarrow> 's \<Rightarrow> 'a \<times> 's) \<Rightarrow> 'x list \<Rightarrow> 's \<Rightarrow> 'a list \<times> 's" where
  "vault_run step [] s = ([], s)"
| "vault_run step (x # xs) s =
     (let (a, s1) = step x s; (as, s2) = vault_run step xs s1 in (a # as, s2))"

lemma vault_run_append:
  "vault_run step (xs @ ys) s
     = (let (as, s1) = vault_run step xs s; (bs, s2) = vault_run step ys s1 in (as @ bs, s2))"
  by (induction xs arbitrary: s) (auto simp: split_beta Let_def)

lemma answering_alike: "alike sl p q \<Longrightarrow> alike sl (answering f p) (answering f q)"
  by (simp add: alike_def answering_def)

lemma step_alike:
  assumes "vault_rel sl v c" "sealing_ok sl" "op_ok sl x"
  shows "alike sl (mv_step sl x v) (kv_step sl x c)"
proof -
  obtain mo op where x: "x = (mo, op)" by fastforce
  have side: "together sl mo v c"
    using assms unfolding x by (cases op) (simp_all add: together_def)
  note steps = put_alike [OF side] quarantine_alike [OF side] rotate_alike [OF side] begin_alike [OF side]
    finish_alike [OF side] claim_alike [OF side] release_alike [OF side] disconnect_alike [OF side]
    delete_alike [OF side] mark_alike [OF side]
  show ?thesis
    using assms(3) unfolding x
    by (cases op) (simp_all add: answering_alike steps get_alike [OF side] list_alike [OF side]
        step_same [OF side] answering_def [of _ "(_, _)"])
qed

lemma run_alike:
  assumes "sealing_ok sl" "\<forall>x \<in> set xs. op_ok sl x" "vault_rel sl v c"
  shows "fst (vault_run (mv_step sl) xs v) = fst (vault_run (kv_step sl) xs c)
    \<and> vault_rel sl (snd (vault_run (mv_step sl) xs v)) (snd (vault_run (kv_step sl) xs c))"
  using assms(2,3)
proof (induction xs arbitrary: v c)
  case (Cons x xs)
  from step_alike [OF Cons.prems(2) assms(1)] Cons.prems(1)
  have "alike sl (mv_step sl x v) (kv_step sl x c)" by simp
  with Cons show ?case by (auto simp: alike_def split_beta Let_def)
qed simp

lemma empty_vaults: "vault_rel sl [] []"
  by (simp add: vault_rel_def keyed_def)


section \<open>Invariants of the in-memory vault\<close>

definition certified :: "sealing \<Rightarrow> connection \<Rightarrow> bool" where
  "certified sl r \<longleftrightarrow>
     1 \<le> cn_tools r \<and> cn_tools r = int (length (cn_certified r)) \<and> distinct (map fst (cn_certified r))
     \<and> (\<exists>canary dig. cn_canary r = Some canary \<and> cn_schema r = Some dig
           \<and> (canary, dig) \<in> set (cn_certified r))
     \<and> cn_proof r = Some CERTIFICATION_SCHEMA
     \<and> cn_manifest r = Some (manifest_sha sl (cn_certified r))"

definition slot_of :: "mem_vault \<Rightarrow> string \<Rightarrow> string \<Rightarrow> connection option" where
  "slot_of v uid cid = map_option snd (map_of v (uid, cid))"

lemma validated_certificate:
  assumes "validate_certification sl ''ready'' c = Inr tools"
  shows "certified sl (concluded ''ready'' now c tools r)"
proof -
  from assms have n: "normalize_certified_tools (ct_certified c) = Inr tools" and ok: "certificate_ok sl c tools"
    by (auto simp: validate_certification_def returns split: if_splits)
  have "distinct (map fst (rev tools))" using normalized_tools(3) [OF n] by (simp add: rev_map [symmetric])
  with ok normalized_tools(3) [OF n] show ?thesis
    by (auto simp: certificate_ok_def certified_def concluded_def dest!: map_of_SomeD split: option.splits)
qed

text \<open>What one operation makes of the connection it is addressed to.\<close>

fun op_key :: "vault_op \<Rightarrow> (string \<times> string) option" where
  "op_key (V_List uid) = None"
| "op_key (V_Get uid cid) = None"
| "op_key (V_Put uid cid s) = Some (uid, cid)"
| "op_key (V_Rotate uid cid g l e s) = Some (uid, cid)"
| "op_key (V_Quarantine uid cid g l e x) = Some (uid, cid)"
| "op_key (V_Begin uid cid g) = Some (uid, cid)"
| "op_key (V_Finish uid cid g l status c) = Some (uid, cid)"
| "op_key (V_Claim uid cid) = Some (uid, cid)"
| "op_key (V_Release uid cid l) = Some (uid, cid)"
| "op_key (V_Disconnect uid cid) = Some (uid, cid)"
| "op_key (V_Mark uid cid status c) = Some (uid, cid)"
| "op_key (V_Delete uid cid g need) = Some (uid, cid)"

lemmas mv_defs = mv_put_def mv_rotate_def mv_quarantine_def mv_begin_verification_def
  mv_finish_verification_def mv_claim_def mv_release_def mv_begin_disconnect_def mv_mark_def mv_delete_def

text \<open>
  The possible changes of a connection by one operation, as a step relation: \<open>change mo r op r'\<close>.
\<close>

inductive change ::
    "sealing \<Rightarrow> moment \<Rightarrow> vault_op \<Rightarrow> connection option \<Rightarrow> connection option \<Rightarrow> bool" for sl mo where
  Unchanged: "change sl mo op r r"
| Created: "change sl mo (V_Put uid cid s) None
     (Some (new_connection cid (sec_kind s) (mo_text mo) (mo_token mo)))"
| Rotated: "cn_status r = ''ready'' \<Longrightarrow> cn_generation r = g \<Longrightarrow> cn_lease r = Some l \<Longrightarrow>
     change sl mo (V_Rotate uid cid g l e s) (Some r)
       (Some (rotated kind (mo_token mo) (mo_text mo) r))"
| Quarantined: "cn_status r = ''ready'' \<Longrightarrow> cn_generation r = g \<Longrightarrow> cn_lease r = Some l \<Longrightarrow>
     change sl mo (V_Quarantine uid cid g l e x) (Some r)
       (Some (decertified ''needs_attention'' (mo_text mo) (Some x) None None r))"
| Begun: "cn_generation r = g \<Longrightarrow> cn_status r \<noteq> ''ready'' \<Longrightarrow> cn_error r \<noteq> Some ''disconnect_pending'' \<Longrightarrow>
     \<not> lease_active (mo_check mo) r \<Longrightarrow>
     change sl mo (V_Begin uid cid g) (Some r)
       (Some (decertified ''verifying'' (mo_text mo) None (Some (mo_token mo))
                (Some (mo_now mo + EXECUTION_LEASE)) r))"
| Finished: "cn_generation r = g \<Longrightarrow> cn_status r = ''verifying'' \<Longrightarrow> cn_lease r = Some l \<Longrightarrow>
     validate_certification sl status c = Inr tools \<Longrightarrow>
     change sl mo (V_Finish uid cid g l status c) (Some r) (Some (concluded status (mo_text mo) c tools r))"
| Claimed: "cn_status r = ''ready'' \<Longrightarrow> \<not> lease_active (mo_check mo) r \<Longrightarrow>
     change sl mo (V_Claim uid cid) (Some r)
       (Some (leased (Some (mo_token mo)) (Some (mo_now mo + EXECUTION_LEASE)) (mo_text mo) r))"
| Released: "cn_lease r = Some l \<Longrightarrow>
     change sl mo (V_Release uid cid l) (Some r) (Some (leased None None (mo_text mo) r))"
| Leaving: "cn_status r = ''verifying'' \<or> \<not> lease_active (mo_check mo) r \<Longrightarrow>
     g = (if hex_token (cn_generation r) then cn_generation r else mo_token mo) \<Longrightarrow>
     change sl mo (V_Disconnect uid cid) (Some r)
       (Some ((decertified ''needs_attention'' (mo_text mo) (Some ''disconnect_pending'') None None r)
          \<lparr>cn_generation := g\<rparr>))"
| Marked: "validate_certification sl status c = Inr tools \<Longrightarrow>
     change sl mo (V_Mark uid cid status c) (Some r) (Some (concluded status (mo_text mo) c tools r))"
| Deleted: "change sl mo (V_Delete uid cid g need) (Some r) None"

lemma slot_update: "slot_of (AList.update (uid, cid) (s, r) v) uid' cid'
    = (if uid' = uid \<and> cid' = cid then Some r else slot_of v uid' cid')"
  by (auto simp: slot_of_def update_conv')

lemma slot_delete: "slot_of (AList.delete (uid, cid) v) uid' cid'
    = (if uid' = uid \<and> cid' = cid then None else slot_of v uid' cid')"
  by (auto simp: slot_of_def delete_conv')

lemma at_item_cases:
  obtains (Refused) "snd (at_item uid cid absent body v) = v"
  | (Found) s r where "map_of v (uid, cid) = Some (s, r)" "slot_of v uid cid = Some r"
      "at_item uid cid absent body v = body (uid, cid) s r"
  by (cases "connector_id_ok cid"; cases "map_of v (uid, cid)")
    (auto simp: at_item_def checked_connector_def slot_of_def split: sum.splits)


definition moves ::
    "sealing \<Rightarrow> moment \<Rightarrow> vault_op \<Rightarrow> string \<Rightarrow> string \<Rightarrow> mem_vault \<Rightarrow> mem_vault \<Rightarrow> bool" where
  "moves sl mo op uid cid v v1 \<longleftrightarrow>
     change sl mo op (slot_of v uid cid) (slot_of v1 uid cid)
     \<and> (\<forall>u i. (u, i) \<noteq> (uid, cid) \<longrightarrow> slot_of v1 u i = slot_of v u i)"

lemma moves_same: "moves sl mo op uid cid v v"
  by (simp add: moves_def Unchanged)

lemma moves_update:
  assumes "slot_of v uid cid = Some r" and "change sl mo op (Some r) (Some r1)"
  shows "moves sl mo op uid cid v (AList.update (uid, cid) (s, r1) v)"
  using assms by (simp add: moves_def slot_update)

lemma moves_item:
  assumes "\<And>s r. map_of v (uid, cid) = Some (s, r) \<Longrightarrow> slot_of v uid cid = Some r \<Longrightarrow>
      moves sl mo op uid cid v (snd (body (uid, cid) s r))"
  shows "moves sl mo op uid cid v (snd (at_item uid cid absent body v))"
proof (cases rule: at_item_cases [of uid cid absent body v])
  case Refused
  then show ?thesis by (simp add: moves_same)
next
  case (Found s r)
  with assms show ?thesis by simp
qed

lemma mv_step_moves:
  assumes "op_key op = Some (uid, cid)"
  shows "moves sl mo op uid cid v (snd (mv_step sl (mo, op) v))"
proof (cases op)
  case (V_Put uid' cid' s)
  with assms show ?thesis
    by (auto simp: mv_put_def answering_def checked_connector_def moves_def Let_def
        slot_of_def update_conv' Unchanged intro: Created split: option.splits sum.splits)
next
  case (V_Rotate u i g l e s)
  with assms show ?thesis
    by (auto simp: mv_rotate_def answering_def Let_def moves_same intro!: moves_item
        split: sum.splits bool.splits) (rule moves_update, assumption, rule Rotated, simp_all)
next
  case (V_Quarantine u i g l e x)
  with assms show ?thesis
    by (auto simp: mv_quarantine_def answering_def Let_def moves_same intro!: moves_item
        split: sum.splits bool.splits) (rule moves_update, assumption, rule Quarantined, simp_all)
next
  case (V_Begin u i g)
  with assms show ?thesis
    by (auto simp: mv_begin_verification_def answering_def Let_def moves_same intro!: moves_item)
      (rule moves_update, assumption, rule Begun, simp_all)
next
  case (V_Finish u i g l status c)
  with assms show ?thesis
    by (auto simp: mv_finish_verification_def answering_def Let_def moves_same returns intro!: moves_item split: sum.splits if_splits)
      (rule moves_update, simp add: slot_of_def, rule Finished; simp)+
next
  case (V_Claim u i)
  with assms show ?thesis
    by (auto simp: mv_claim_def answering_def Let_def moves_same intro!: moves_item)
      (rule moves_update, assumption, rule Claimed, simp_all)
next
  case (V_Release u i l)
  with assms show ?thesis
    by (auto simp: mv_release_def answering_def Let_def moves_same intro!: moves_item)
      (rule moves_update, assumption, rule Released, simp_all)
next
  case (V_Disconnect u i)
  with assms show ?thesis
    by (auto simp: mv_begin_disconnect_def answering_def Let_def moves_same intro!: moves_item)
      (rule moves_update, assumption, rule Leaving; simp)+
next
  case (V_Mark u i status c)
  with assms show ?thesis
    by (auto simp: mv_mark_def answering_def Let_def moves_same slot_of_def returns split: sum.splits option.splits if_splits)
      (rule moves_update, simp add: slot_of_def, rule Marked; simp)+
next
  case (V_Delete u i g need)
  with assms show ?thesis
    by (auto simp: mv_delete_def answering_def Let_def moves_same intro!: moves_item)
      (simp add: moves_def slot_delete Deleted)+
qed (use assms in auto)

lemma mv_step_reads:
  assumes "op_key op = None"
  shows "snd (mv_step sl (mo, op) v) = v"
  using assms by (cases op) (simp_all add: answering_def)

text \<open>An invariant of one connection that every change keeps is kept by every sequence.\<close>

lemma slot_invariant:
  assumes "P (slot_of v uid cid)"
    and "\<And>mo op r r'. (mo, op) \<in> set xs \<Longrightarrow> op_key op = Some (uid, cid) \<Longrightarrow> change sl mo op r r' \<Longrightarrow>
      P r \<Longrightarrow> P r'"
  shows "P (slot_of (snd (vault_run (mv_step sl) xs v)) uid cid)"
  using assms
proof (induction xs arbitrary: v)
  case (Cons x xs)
  obtain mo op where x: "x = (mo, op)" by fastforce
  have "P (slot_of (snd (mv_step sl (mo, op) v)) uid cid)"
  proof (cases "op_key op")
    case None
    with Cons.prems(1) show ?thesis by (simp add: mv_step_reads)
  next
    case (Some k)
    obtain u i where k: "k = (u, i)" by fastforce
    note m = mv_step_moves [OF Some [unfolded k], of sl mo v]
    show ?thesis
    proof (cases "(uid, cid) = (u, i)")
      case True
      with m Some k x Cons.prems show ?thesis by (force simp: moves_def)
    next
      case False
      with m Cons.prems(1) show ?thesis by (simp add: moves_def)
    qed
  qed
  with Cons.IH [of "snd (mv_step sl (mo, op) v)"] Cons.prems(2) show ?case
    by (auto simp: x split_beta Let_def)
qed simp


section \<open>Certification, leases, disconnection\<close>

lemma change_certified:
  assumes "change sl mo op r r'" and "\<forall>q. r = Some q \<and> cn_status q = ''ready'' \<longrightarrow> certified sl q"
  shows "\<forall>q. r' = Some q \<and> cn_status q = ''ready'' \<longrightarrow> certified sl q"
  using assms
  by cases (auto simp: new_connection_def decertified_def leased_def rotated_def certified_def
      dest!: validated_certificate simp: concluded_def Let_def split: if_splits)

lemma ready_certified:
  assumes "slot_of (snd (vault_run (mv_step sl) xs [])) uid cid = Some r" "cn_status r = ''ready''"
  shows "certified sl r"
proof -
  let ?P = "\<lambda>r. \<forall>q. r = Some q \<and> cn_status q = ''ready'' \<longrightarrow> certified sl q"
  have "?P (slot_of (snd (vault_run (mv_step sl) xs [])) uid cid)"
  proof (rule slot_invariant [where P = ?P])
    show "?P (slot_of [] uid cid)" by (simp add: slot_of_def)
    show "?P r'" if "change sl mo op r r'" "?P r" for mo op r r' by (rule change_certified [OF that])
  qed
  with assms show ?thesis by blast
qed

definition leased_to :: "string \<Rightarrow> int \<Rightarrow> connection option \<Rightarrow> bool" where
  "leased_to l until r \<longleftrightarrow>
     (\<exists>q. r = Some q \<and> cn_status q = ''ready'' \<and> cn_lease q = Some l \<and> cn_lease_until q = Some until)"

text \<open>What can end a lease before it lapses: its holder, or an operation that needs no lease.\<close>

fun ends_lease :: "string \<Rightarrow> string \<Rightarrow> string \<Rightarrow> vault_op \<Rightarrow> bool" where
  "ends_lease uid cid l (V_Release u i k) \<longleftrightarrow> u = uid \<and> i = cid \<and> k = l"
| "ends_lease uid cid l (V_Quarantine u i g k e x) \<longleftrightarrow> u = uid \<and> i = cid \<and> k = l"
| "ends_lease uid cid l (V_Mark u i status c) \<longleftrightarrow> u = uid \<and> i = cid"
| "ends_lease uid cid l (V_Delete u i g need) \<longleftrightarrow> u = uid \<and> i = cid"
| "ends_lease uid cid l _ \<longleftrightarrow> False"

lemma change_leased:
  assumes "change sl mo op r r'" and "leased_to l until r" and "hex_token l" and "mo_check mo < until"
    and "op_key op = Some (uid, cid)" and "\<not> ends_lease uid cid l op"
  shows "leased_to l until r'"
  using assms by cases (auto simp: leased_to_def rotated_def lease_active_def)

definition leaving :: "string \<Rightarrow> connection option \<Rightarrow> bool" where
  "leaving g r \<longleftrightarrow> (\<exists>q. r = Some q \<and> cn_status q = ''needs_attention''
     \<and> cn_error q = Some ''disconnect_pending'' \<and> cn_generation q = g)"

lemma change_leaving:
  assumes "change sl mo op r r'" and "leaving g r" and "hex_token g"
    and "\<And>u i status c. op \<noteq> V_Mark u i status c" "\<And>u i h need. op \<noteq> V_Delete u i h need"
  shows "leaving g r'"
  using assms by cases (auto simp: leaving_def leased_def decertified_def)

text \<open>The same, of the production vault.\<close>

lemma claim_slot:
  assumes "vault_rel sl v c" "sealing_ok sl" and "kv_claim sl mo uid cid c = (Inr (Some (s, r)), c')"
  shows "\<exists>q v'. slot_of v uid cid = Some q \<and> cn_status q = ''ready'' \<and> \<not> lease_active (mo_check mo) q
    \<and> r = leased (Some (mo_token mo)) (Some (mo_now mo + EXECUTION_LEASE)) (mo_text mo) q
    \<and> slot_of v' uid cid = Some r \<and> vault_rel sl v' c'"
proof -
  have "mo_db mo" using assms(3)
    by (auto simp: kv_claim_def checked_def transacted_def split: sum.splits if_splits)
  with assms have "together sl mo v c" by (simp add: together_def)
  from claim_alike [OF this, of uid cid] assms(3)
  have "fst (mv_claim mo uid cid v) = Inr (Some (s, r))" "vault_rel sl (snd (mv_claim mo uid cid v)) c'"
    by (simp_all add: alike_def)
  then show ?thesis
    by (intro exI [of _ "the (slot_of v uid cid)"] exI [of _ "snd (mv_claim mo uid cid v)"])
      (auto simp: mv_claim_def at_item_def checked_connector_def Let_def slot_of_def update_conv'
        split: if_splits option.splits)
qed

lemma claimed_certified:
  assumes ok: "sealing_ok sl" "\<forall>x \<in> set xs. op_ok sl x"
    and claim: "kv_claim sl mo uid cid (snd (vault_run (kv_step sl) xs [])) = (Inr (Some (s, r)), c')"
  shows "cn_status r = ''ready'' \<and> certified sl r \<and> cn_lease r = Some (mo_token mo)"
proof -
  have rel: "vault_rel sl (snd (vault_run (mv_step sl) xs [])) (snd (vault_run (kv_step sl) xs []))"
    using run_alike [OF ok empty_vaults] by simp
  from claim_slot [OF rel ok(1) claim] obtain q where
    q: "slot_of (snd (vault_run (mv_step sl) xs [])) uid cid = Some q" "cn_status q = ''ready''"
      "r = leased (Some (mo_token mo)) (Some (mo_now mo + EXECUTION_LEASE)) (mo_text mo) q" by blast
  from ready_certified [OF q(1,2)] q(2,3) show ?thesis by (simp add: leased_def certified_def)
qed

lemma claims_apart:
  assumes ok: "sealing_ok sl" "\<forall>x \<in> set xs \<union> set ys. op_ok sl x" "hex_token (mo_token mo)"
    and first: "kv_claim sl mo uid cid (snd (vault_run (kv_step sl) xs [])) = (Inr (Some (s, r)), c)"
    and mid: "\<forall>(m, op) \<in> set ys. mo_check m < mo_now mo + EXECUTION_LEASE
        \<and> \<not> ends_lease uid cid (mo_token mo) op"
    and second: "kv_claim sl mo' uid cid (snd (vault_run (kv_step sl) ys c)) = (Inr (Some (s', r')), c')"
  shows "mo_now mo + EXECUTION_LEASE \<le> mo_check mo'"
proof -
  let ?until = "mo_now mo + EXECUTION_LEASE"
  have rel: "vault_rel sl (snd (vault_run (mv_step sl) xs [])) (snd (vault_run (kv_step sl) xs []))"
    using run_alike [OF ok(1) _ empty_vaults] ok(2) by simp
  from claim_slot [OF rel ok(1) first] obtain q v where
    q: "cn_status q = ''ready''" "r = leased (Some (mo_token mo)) (Some ?until) (mo_text mo) q"
    and v: "slot_of v uid cid = Some r" "vault_rel sl v c" by blast
  have "leased_to (mo_token mo) ?until (slot_of (snd (vault_run (mv_step sl) ys v)) uid cid)"
  proof (rule slot_invariant [where P = "leased_to (mo_token mo) ?until"])
    show "leased_to (mo_token mo) ?until (slot_of v uid cid)"
      using q v(1) by (simp add: leased_to_def leased_def)
  next
    fix m op a b
    assume "(m, op) \<in> set ys" "op_key op = Some (uid, cid)" "change sl m op a b"
      "leased_to (mo_token mo) ?until a"
    with change_leased [of sl m op a b "mo_token mo" ?until uid cid] mid ok(3)
    show "leased_to (mo_token mo) ?until b" by blast
  qed
  moreover have "vault_rel sl (snd (vault_run (mv_step sl) ys v)) (snd (vault_run (kv_step sl) ys c))"
    using run_alike [OF ok(1) _ v(2)] ok(2) by simp
  from claim_slot [OF this ok(1) second] obtain q' where
    "slot_of (snd (vault_run (mv_step sl) ys v)) uid cid = Some q'" "\<not> lease_active (mo_check mo') q'" by blast
  ultimately show ?thesis using ok(3) by (auto simp: leased_to_def lease_active_def)
qed

lemma left_for_good:
  assumes ok: "sealing_ok sl" "\<forall>x \<in> set xs \<union> set ys. op_ok sl x" "hex_token (mo_token mo)" "mo_db m"
    and leave: "kv_begin_disconnect sl mo uid cid (snd (vault_run (kv_step sl) xs [])) = (Inr (Some (s, r)), c)"
    and mid: "\<forall>(m, op) \<in> set ys. op_key op = Some (uid, cid) \<longrightarrow>
        (\<forall>u i status ct. op \<noteq> V_Mark u i status ct) \<and> (\<forall>u i h need. op \<noteq> V_Delete u i h need)"
  defines "c' \<equiv> snd (vault_run (kv_step sl) ys c)"
  shows "kv_claim sl m uid cid c' = (Inr None, c')"
    and "fst (kv_delete sl m uid cid (Some (cn_generation r)) True c') = Inr True"
proof -
  have rel: "vault_rel sl (snd (vault_run (mv_step sl) xs [])) (snd (vault_run (kv_step sl) xs []))"
    using run_alike [OF ok(1) _ empty_vaults] ok(2) by simp
  have db: "mo_db mo" using leave
    by (auto simp: kv_begin_disconnect_def checked_def transacted_def split: sum.splits if_splits)
  define v0 where "v0 = snd (vault_run (mv_step sl) xs [])"
  define v where "v = snd (mv_begin_disconnect mo uid cid v0)"
  from db rel ok(1) have "together sl mo v0 (snd (vault_run (kv_step sl) xs []))"
    by (simp add: together_def v0_def)
  from disconnect_alike [OF this, of uid cid] leave
  have m: "fst (mv_begin_disconnect mo uid cid v0) = Inr (Some (s, r))" "vault_rel sl v c"
    by (simp_all add: alike_def v_def)
  then have left: "leaving (cn_generation r) (slot_of v uid cid)" "hex_token (cn_generation r)" "connector_id_ok cid"
    using ok(3) by (auto simp: v_def mv_begin_disconnect_def at_item_def checked_connector_def Let_def slot_of_def
        update_conv' leaving_def decertified_def split: if_splits option.splits)
  define v' where "v' = snd (vault_run (mv_step sl) ys v)"
  have "leaving (cn_generation r) (slot_of v' uid cid)"
    unfolding v'_def
  proof (rule slot_invariant [where P = "leaving (cn_generation r)"])
    show "leaving (cn_generation r) (slot_of v uid cid)" by (rule left(1))
  next
    fix m op a b
    assume "(m, op) \<in> set ys" "op_key op = Some (uid, cid)" "change sl m op a b" "leaving (cn_generation r) a"
    with change_leaving [of sl m op a b "cn_generation r"] mid left(2) show "leaving (cn_generation r) b" by blast
  qed
  then obtain t q where q: "map_of v' (uid, cid) = Some (t, q)" "cn_status q = ''needs_attention''"
    "cn_error q = Some ''disconnect_pending''" "cn_generation q = cn_generation r"
    by (auto simp: leaving_def slot_of_def)
  have rel': "vault_rel sl v' c'"
    using run_alike [OF ok(1) _ m(2)] ok(2) by (simp add: v'_def c'_def)
  with rel_lookup [OF rel' ok(1) left(3), of uid] q(1) obtain d where
    d: "map_of c' (document_id sl uid cid) = Some d" "represents sl (uid, cid) (t, q) d"
    by (auto simp: option_rel_Some1)
  note f = represented_fields [OF d(2)] and o = represented_owner [OF d(2), simplified]
  show "kv_claim sl m uid cid c' = (Inr None, c')"
    using left(3) ok(4) d(1) o q
    by (simp add: kv_claim_def checked_def checked_connector_def transacted_def in_document_def f del: dget_text)
  show "fst (kv_delete sl m uid cid (Some (cn_generation r)) True c') = Inr True"
    using left(3) ok(4) d(1) o q
    by (simp add: kv_delete_def checked_def checked_connector_def transacted_def in_document_def f del: dget_text)
qed


section \<open>Tenants\<close>

definition elsewhere :: "sealing \<Rightarrow> string \<Rightarrow> string \<Rightarrow> collection \<Rightarrow> collection \<Rightarrow> bool" where
  "elsewhere sl uid cid c c1 \<longleftrightarrow> map_of c1 (document_id sl uid cid) = map_of c (document_id sl uid cid)"

lemma elsewhere_same [simp]: "elsewhere sl uid cid c c"
  by (simp add: elsewhere_def)

lemma document_id_apart:
  assumes "inj (sl_sha sl)" "connector_id_ok cid" "connector_id_ok i" "(u, i) \<noteq> (uid, cid)"
  shows "document_id sl u i \<noteq> document_id sl uid cid"
proof
  assume "document_id sl u i = document_id sl uid cid"
  with assms(1) have "u @ CHR 0x00 # i = uid @ CHR 0x00 # cid" by (auto simp: document_id_def dest: injD)
  from last_separator [OF this] assms(2-4) show False by (simp add: connector_id_no_separator)
qed

lemma elsewhere_if [simp]:
  "elsewhere sl uid cid c (snd (if b then p else q))
     \<longleftrightarrow> (if b then elsewhere sl uid cid c (snd p) else elsewhere sl uid cid c (snd q))"
  by simp

lemma elsewhere_checked:
  assumes "connector_id_ok i \<Longrightarrow> elsewhere sl uid cid c (snd (body i c))"
  shows "elsewhere sl uid cid c (snd (checked i body c))"
  using assms by (simp add: checked_def checked_connector_def)

lemma elsewhere_transacted:
  assumes "elsewhere sl uid cid c (snd (body c))"
  shows "elsewhere sl uid cid c (snd (transacted mo lets msg body c))"
  using assms by (auto simp: transacted_def split: prod.splits sum.splits)

lemma elsewhere_in_document:
  assumes "\<And>d. elsewhere sl uid cid c (snd (body (document_id sl u i) d))"
  shows "elsewhere sl uid cid c (snd (in_document sl u i absent body c))"
  using assms by (auto simp: in_document_def split: option.splits)

lemma elsewhere_step:
  assumes inj: "inj (sl_sha sl)" and ok: "connector_id_ok cid" and op: "op_key op \<noteq> Some (uid, cid)"
  shows "elsewhere sl uid cid c (snd (kv_step sl (mo, op) c))"
proof -
  have up: "elsewhere sl uid cid c (AList.update (document_id sl u i) d c)"
    and del: "elsewhere sl uid cid c (AList.delete (document_id sl u i) c)"
    if "connector_id_ok i" "(u, i) \<noteq> (uid, cid)" for u i d
    using document_id_apart [OF inj ok that] by (auto simp: elsewhere_def update_conv' delete_conv')
  show ?thesis
  proof (cases op)
    case (V_Finish u i g l status ct)
    have "elsewhere sl uid cid c (snd (checked i (\<lambda>i. transacted mo vault_errors msg (\<lambda>docs.
        in_document sl u i None (\<lambda>k d. if b d then (Inr None, docs)
          else (let d1 = f d in (some_record sl d1, AList.update k d1 docs))) docs)) c))" for msg b f
      using op V_Finish by (intro elsewhere_checked elsewhere_transacted elsewhere_in_document)
        (auto simp: Let_def up)
    then show ?thesis
      by (simp add: V_Finish answering_def kv_finish_verification_def split: sum.split)
  qed (use op in \<open>auto simp: answering_def kv_put_def kv_rotate_def kv_quarantine_def
        kv_begin_verification_def kv_claim_def kv_release_def kv_begin_disconnect_def kv_mark_def
        kv_delete_def Let_def up del
        intro!: elsewhere_checked elsewhere_transacted elsewhere_in_document
        split: sum.splits option.splits bool.splits\<close>)
qed

end
