(* ===== verification/Vault_Samples.thy ===== *)
theory Vault_Samples
  imports Vault_Safe
begin

text \<open>One secret, one certificate and a connection that becomes ready, for the witnesses.\<close>

definition sample_secret :: secret where
  "sample_secret = \<lparr>sec_value = ''key'', sec_kind = ''api_key''\<rparr>"

definition sample_tools_text :: string where
  "sample_tools_text =
     json_dumps '','' '':'' False (JArr [JArr [JStr ''search'', JStr (replicate 64 (CHR ''a''))]])"

definition sample_sealing :: sealing where
  "sample_sealing =
     \<lparr>sl_sha = (\<lambda>s. if s = sample_tools_text then replicate 64 (CHR ''b'')
        else if s = replicate 64 (CHR ''b'') then sample_tools_text else s),
      sl_loads = (\<lambda>t. if t = payload_text sample_secret
        then Some (JObj [(''kind'', JStr ''api_key''), (''value'', JStr ''key'')]) else None),
      sl_iso = \<lambda>s. None, sl_show_time = \<lambda>t. [], sl_key = ''projects/p/cryptoKeys/k'',
      sl_wrap = Some, sl_unwrap = Some, sl_encrypt = \<lambda>k n p ad. p, sl_decrypt = \<lambda>k n c ad. Some c\<rparr>"

definition sample_moment :: "int \<Rightarrow> char \<Rightarrow> moment" where
  "sample_moment t c =
     \<lparr>mo_check = t, mo_now = t, mo_text = ''now'', mo_token = replicate 32 c, mo_dek = ''dek'',
      mo_nonce = ''nonce'', mo_db = True\<rparr>"

definition sample_certificate :: certificate where
  "sample_certificate =
     \<lparr>ct_tools = 1, ct_error = None, ct_canary = Some ''search'',
      ct_schema = Some (replicate 64 (CHR ''a'')), ct_proof = Some CERTIFICATION_SCHEMA,
      ct_certified = tools_json [(''search'', replicate 64 (CHR ''a''))],
      ct_manifest = Some (replicate 64 (CHR ''b''))\<rparr>"

definition sample_vault_ops :: "(moment \<times> vault_op) list" where
  "sample_vault_ops =
     [(sample_moment 1 (CHR ''1''), V_Put ''ada'' ''crm'' sample_secret),
      (sample_moment 2 (CHR ''2''), V_Begin ''ada'' ''crm'' (replicate 32 (CHR ''1''))),
      (sample_moment 3 (CHR ''3''), V_Finish ''ada'' ''crm'' (replicate 32 (CHR ''1''))
         (replicate 32 (CHR ''2'')) ''ready'' sample_certificate)]"

definition sample_docs :: collection where
  "sample_docs = snd (vault_run (kv_step sample_sealing) sample_vault_ops [])"

lemma sample_sealing_ok: "sealing_ok sample_sealing"
  by (auto simp: sealing_ok_def sample_sealing_def inj_def)

lemma sample_secret_ok: "secret_ok sample_sealing sample_secret"
proof -
  have "sl_loads sample_sealing (payload_text sample_secret)
      = Some (JObj [(''kind'', JStr (sec_kind sample_secret)), (''value'', JStr (sec_value sample_secret))])"
    by (simp add: sample_sealing_def sample_secret_def)
  moreover have "make_secret (JStr ''key'') (JStr ''api_key'') = Inr sample_secret" by code_simp
  moreover have "int (length (payload_text sample_secret)) \<le> MAX_SECRET_BYTES" by code_simp
  ultimately show ?thesis by (simp add: secret_ok_def sample_secret_def)
qed

lemma sample_ops_ok: "\<forall>x \<in> set sample_vault_ops. op_ok sample_sealing x"
  by (simp add: sample_vault_ops_def sample_secret_ok sample_moment_def)

definition sample_vault :: mem_vault where
  "sample_vault = snd (vault_run (mv_step sample_sealing) sample_vault_ops [])"

lemma sample_claimed:
  "case mv_claim (sample_moment 4 (CHR ''4'')) ''ada'' ''crm'' sample_vault of
     (Inr (Some (s, r)), c) \<Rightarrow> True | _ \<Rightarrow> False"
  by code_simp

lemma sample_together: "together sample_sealing (sample_moment t c) sample_vault sample_docs"
  using run_alike [OF sample_sealing_ok sample_ops_ok empty_vaults] sample_sealing_ok
  by (simp add: together_def sample_vault_def sample_docs_def sample_moment_def)

lemma sample_claim:
  obtains s r c where
    "kv_claim sample_sealing (sample_moment 4 (CHR ''4'')) ''ada'' ''crm'' sample_docs = (Inr (Some (s, r)), c)"
proof -
  obtain res docs where res: "kv_claim sample_sealing (sample_moment 4 (CHR ''4'')) ''ada'' ''crm'' sample_docs
      = (res, docs)" by fastforce
  with claim_alike [OF sample_together, of 4 "CHR ''4''" "''ada''" "''crm''"] sample_claimed
  show thesis by (auto simp: alike_def intro: that split: prod.splits sum.splits option.splits)
qed

lemma sample_left:
  "case mv_begin_disconnect (sample_moment 5 (CHR ''5'')) ''ada'' ''crm'' sample_vault of
     (Inr (Some (s, r)), c) \<Rightarrow> True | _ \<Rightarrow> False"
  by code_simp

lemma sample_disconnect:
  obtains s r c where
    "kv_begin_disconnect sample_sealing (sample_moment 5 (CHR ''5'')) ''ada'' ''crm'' sample_docs
      = (Inr (Some (s, r)), c)"
proof -
  obtain res docs where res: "kv_begin_disconnect sample_sealing (sample_moment 5 (CHR ''5'')) ''ada'' ''crm'' sample_docs
      = (res, docs)" by fastforce
  with disconnect_alike [OF sample_together, of 5 "CHR ''5''" "''ada''" "''crm''"] sample_left
  show thesis by (auto simp: alike_def intro: that split: prod.splits sum.splits option.splits)
qed

text \<open>A second claim, when the first lease has lapsed.\<close>

lemma sample_again:
  assumes "kv_claim sample_sealing (sample_moment 4 (CHR ''4'')) ''ada'' ''crm'' sample_docs = (Inr (Some (s, r)), c)"
  shows "\<exists>s' r' c'. kv_claim sample_sealing (sample_moment 90000004 (CHR ''5'')) ''ada'' ''crm'' c
      = (Inr (Some (s', r')), c')"
proof -
  have "vault_rel sample_sealing sample_vault sample_docs"
    using sample_together [of 4 "CHR ''4''"] by (simp add: together_def)
  from claim_slot [OF this sample_sealing_ok assms] obtain q v where
    q: "cn_status q = ''ready''"
      "r = leased (Some (replicate 32 (CHR ''4''))) (Some (4 + EXECUTION_LEASE)) ''now'' q"
    and v: "slot_of v ''ada'' ''crm'' = Some r" "vault_rel sample_sealing v c"
    by (auto simp: sample_moment_def)
  have side: "together sample_sealing (sample_moment 90000004 (CHR ''5'')) v c"
    using v(2) sample_sealing_ok by (simp add: together_def sample_moment_def)
  have "connector_id_ok ''crm''" by code_simp
  then have "fst (mv_claim (sample_moment 90000004 (CHR ''5'')) ''ada'' ''crm'' v) \<noteq> Inr None
      \<and> (\<forall>e. fst (mv_claim (sample_moment 90000004 (CHR ''5'')) ''ada'' ''crm'' v) \<noteq> Inl e)"
    using v(1) q by (auto simp: mv_claim_def at_item_def checked_connector_def slot_of_def Let_def leased_def
        lease_active_def sample_moment_def EXECUTION_LEASE_def)
  moreover obtain res docs where "kv_claim sample_sealing (sample_moment 90000004 (CHR ''5'')) ''ada'' ''crm'' c
      = (res, docs)" by fastforce
  ultimately show ?thesis
    using claim_alike [OF side, of "''ada''" "''crm''"] by (cases res) (auto simp: alike_def)
qed

end
