(* ===== verification/Spec2Isabelle.thy ===== *)
theory Spec2Isabelle
  imports Samples Cloud_Samples Ingress_Samples Connector_Samples Vault_Samples
begin

text \<open>
  Rally runs a task with several command-line language models of different families that share
  one checklist. Its rule is that an item is finished only when a worker that does not own it
  says so. This library models the runner and its guards, and proves that the rule and the limits
  around it hold whatever the workers, the providers and the messages that arrive do.

  The parts, in the order of the imports (source files are under \<open>src/\<close>):

  \<^item> \<open>Rally_Prelude\<close>: the errors of the code as values, JSON values with Python's truth,
    equality, \<open>str\<close> and \<open>repr\<close>, texts as lists of bytes, decimal numbers, and dictionaries keyed
    by JSON values.
  \<^item> \<open>Envelope\<close> (\<open>src/envelope.py\<close>): the envelope of a reply (\<open>fences\<close>,
    \<open>extract_envelope\<close>), its shape check (\<open>validate_shape\<close>), the reconciliation of a
    proposed checklist with the recorded one (\<open>transition\<close>, \<open>admit\<close>, \<open>reconcile\<close>),
    completion and the progress fingerprint. \<open>Envelope_Correct\<close> states the life cycle of
    an item as a step relation, shows that every accepted change is one of its steps, and proves
    the invariant of checklists, scope, growth, and what the fingerprint ignores.
  \<^item> \<open>Fleet\<close> (\<open>src/agents.py\<close>): the preflight of the fleet and the four command lines. The
    process that runs a command is a parameter.
  \<^item> \<open>Send_Ledger\<close> (\<open>src/transport.py\<close>): the quota of outgoing mail, with an interface for
    rolling ceilings that three interpretations instantiate, and credential lookup.
  \<^item> \<open>Base64\<close>: the standard library's codec, with its round trip.
  \<^item> \<open>Run_State\<close>, \<open>Runner\<close> (\<open>src/runner.py\<close>): the state of a run, the actions on it
    (memory, disk, ledger, trace of outside effects, exceptions as values), worker order,
    bounded recovery, and one turn. \<open>Runner_Turn\<close> has the case rule of a turn, \<open>Runner_Loop\<close>
    the loop with its termination measure and invariants.
  \<^item> \<open>Report\<close> (\<open>src/report.py\<close>), \<open>Media\<close> (\<open>src/media.py\<close>), \<open>Coordinator\<close>
    (\<open>src/cloud_coordinator.py\<close>), \<open>Delivery\<close> (\<open>src/runner.py\<close>): reports and their delivery,
    generated artifacts, the cloud handoff, human guidance.
  \<^item> \<open>Commission\<close> (\<open>src/runner.py\<close>): the site, that is every saved run, the shared ledger, the
    history of effects and the quarantine; commissions, notes, one pass of the serve loop, stop
    and retry. \<open>Frames\<close> states what every step of a turn may touch as an interface and
    interprets it for the identity of a run and for the reports it mails;
    \<open>Commission_Correct\<close> carries the invariant of the site.
  \<^item> \<open>Regex\<close>: regular expressions matched by derivatives, with the relation they decide.
    \<open>Mail_Auth\<close>, \<open>Mail_Text\<close>, \<open>Ingress\<close> (\<open>src/ingress.py\<close>): the evidence a mail carries, its
    text without quotations and signatures, the bounded raw header block, and one poll that turns
    pending records into the messages of the serve loop. \<open>Ingress_Correct\<close> follows authority
    from the headers of a mail to the runs of the site.
  \<^item> \<open>Run_Store\<close>, \<open>Coordination\<close> (\<open>cloud/store.py\<close>, \<open>cloud/service.py\<close>): the commission
    service. The contract of a run store is an interface, interpreted for the in-memory and the
    Firestore backend; inside it the concurrent attempts of the service are a step relation with
    its invariant, and a pair of backends is shown to answer alike.
  \<^item> \<open>Auth_Sessions\<close>, \<open>Magic_Links\<close>, \<open>Link_Tokens\<close> (\<open>cloud/auth_sessions.py\<close>,
    \<open>cloud/magic_links.py\<close>): sign-in codes, sessions and links, again an interface with both
    backends as interpretations, and properties of every sequence of operations.
  \<^item> \<open>Urls\<close>: the parts of the standard library's URL parser that the checks of an endpoint use.
    \<open>Connectors\<close> (\<open>src/connectors.py\<close>): the catalog, the settings of each user, the tool policy
    and the authority that is frozen for a run; \<open>Connectors_Correct\<close> shows what every frozen
    authority guarantees. \<open>Approvals\<close> (\<open>cloud/connector_approvals.py\<close>): the ledger of requests a
    person approves; \<open>Approvals_Correct\<close> reads the history of a record from the sequence of
    operations. \<open>Credentials\<close> (\<open>cloud/connector_credentials.py\<close>): the keychain items of a
    connection. \<open>Gateway\<close> (\<open>cloud/connector_gateway.py\<close>): discovery of tools, the dispatch of a
    name to an endpoint and the guarded call; \<open>Gateway_Correct\<close> joins it with the three others.
  \<^item> \<open>Vault\<close>, \<open>Vault_Kms\<close> (\<open>cloud/credential_vault.py\<close>): the credentials of hosted connectors in
    the in-memory vault and in Firestore documents sealed by a key service. \<open>Vault_Correct\<close> relates a
    document to a connection, \<open>Vault_Runs\<close> shows operation by operation that the two vaults answer
    alike, and \<open>Vault_Safe\<close> reads from the possible changes of a connection when a credential is
    handed out, how long a lease holds and that tenants are isolated.
  \<^item> \<open>Samples\<close>, \<open>Cloud_Samples\<close>, \<open>Ingress_Samples\<close>, \<open>Connector_Samples\<close>, \<open>Vault_Samples\<close>: concrete inputs on which the properties are exercised.

  Conventions. What lies outside the code, such as a worker's answer, an HTTP reply, the clock or
  the JSON parser, is a field of an environment record and unconstrained unless a property names
  a hypothesis. A text is its UTF-8 bytes, so limits counted in characters agree with the code on
  ASCII text. An exception of Python is a value of \<open>exn\<close>; an action returns a sum and the state
  it reached, so what was saved before an exception stays saved. The loop is total: its measure
  is the number of turns, reprompts and recoveries left, and no fuel is used.

  The properties C1 to C40 follow, the runner first, then the cloud services, the
  ingress and the connectors; further facts stand at the end.

  Not modelled: the rendering of mail bodies and HTML, the prompt given to a worker, the command
  line parser, git and console synchronisation beyond the point where they are called, the OAuth
  flow of hosted connectors, and the HTTP layer of the cloud control plane. Digests are taken to be injective where a
  property says so.
\<close>

section \<open>Properties\<close>



text \<open>
  C2. Whatever a batch of ingress messages holds and whatever the workers, the coordinator and
  the providers answer, one pass of the serve loop leaves every saved run legal (each item in a
  known state, each finished item verified by someone who does not own it, at most eight
  recoveries numbered in order) and loses no run.
\<close>

theorem serve_keeps_runs_legal:
  assumes "serve_pass cfg envs i ms w = (acks, w')" and "site_ok w" and "named_fleet cfg"
  shows "site_ok w' \<and> (\<exists>new. map fst (runs w') = map fst (runs w) @ new)"
  using assms by (rule serve_pass_ok)

theorem serve_keeps_runs_legal_witness:
  "site_ok (snd (serve_pass demo_config (\<lambda>i. demo_env) 0
      [\<lparr>m_id = ''q1'', m_retryable = False, m_body = M_Commission demo_commission\<rparr>] (demo_site None)))"
proof -
  have "site_ok (demo_site None)" "named_fleet demo_config" by code_simp+
  from serve_keeps_runs_legal [OF surjective_pairing this] show ?thesis by blast
qed

text \<open>
  C3. In a legal run of an accepted fleet, a finished item whose owner and verifier are both
  configured workers was verified by a model of another family than the one that did the work.
\<close>

theorem finished_item_cross_family:
  assumes "run_ok s" and "it \<in> set (checklist s)" and "it_state it = st_done"
    and "assert_pins (c_agents cfg) = Inr ()"
    and "it_owner it = JStr a" and "it_verified_by it = JStr b"
    and "map_of (c_agents cfg) a = Some ga" and "map_of (c_agents cfg) b = Some gb"
  shows "a_family ga \<noteq> a_family gb"
proof -
  have "item_ok it" using assms(1,2) by (simp add: run_ok_def checklist_ok_def list_all_iff)
  from item_ok_done [OF this assms(3)] assms(5,6) have "a \<noteq> b" by (simp add: independent_def)
  with assert_pins_families [OF assms(4,7,8)] show ?thesis by blast
qed

theorem finished_item_cross_family_witness:
  "a_family (demo_agent ''anthropic'' ''c'') \<noteq> a_family (demo_agent ''google'' ''gemini-3'')"
  by (rule finished_item_cross_family [where cfg = demo_config and a = "''claude''" and b = "''agy''"
        and it = "(demo_item st_done)\<lparr>it_verified_by := JStr ''agy''\<rparr>"
        and s = "(demo_state st_done)\<lparr>checklist := [(demo_item st_done)\<lparr>it_verified_by := JStr ''agy''\<rparr>]\<rparr>"])
    code_simp+

text \<open>
  C4. Every change that \<open>reconcile\<close> lets through is a step of the life cycle of an item
  (stay, claim, submit, verify by another, reject by another, dispute, escalate, take over
  under granted recovery): the code refines that state machine.
\<close>

theorem transition_refines_life_cycle:
  "life_step who (in_recovery (it_id it) recov) limit
    (card_of old) (card_of (fst (transition who limit recov old it)))"
  by (rule transition_refines)

text \<open>
  C5. The loop of a legal run always ends, and runs at most
  \<open>(limit + 8) (reprompts_max + 2) + reprompts_max + 1\<close> workers: turns, reprompts and recovery
  handoffs together.
\<close>

theorem loop_dispatch_bound:
  assumes "run_ok (cur r)" and "0 \<le> turn (cur r)" and "0 \<le> reprompts (cur r)"
    and "0 \<le> l_turns_max (c_limits cfg)" and "0 \<le> l_reprompts_max (c_limits cfg)"
  shows "int (dispatched (snd (loop cfg envs 0 r))) \<le> int (dispatched r)
    + (l_turns_max (c_limits cfg) + 8) * (l_reprompts_max (c_limits cfg) + 2)
    + l_reprompts_max (c_limits cfg) + 1"
proof -
  have "dispatched (snd (loop cfg envs 0 r))
      \<le> dispatched r + potential cfg (l_turns_max (c_limits cfg)) (cur r)"
    using turns_from_dispatches by (simp add: loop_def)
  moreover have "continuity_ok (cont (cur r))" using assms(1) by (simp add: run_ok_def)
  ultimately show ?thesis using potential_fresh [OF _ assms(2-5)] by force
qed

theorem loop_dispatch_bound_witness:
  "dispatched (snd (loop demo_config (\<lambda>i. demo_turn st_done) 0 (demo_rig st_awaiting))) \<le> 38"
proof -
  have "run_ok (cur (demo_rig st_awaiting))" by code_simp
  moreover have "0 \<le> turn (cur (demo_rig st_awaiting))" "0 \<le> reprompts (cur (demo_rig st_awaiting))"
    "0 \<le> l_turns_max (c_limits demo_config)" "0 \<le> l_reprompts_max (c_limits demo_config)"
    "l_turns_max (c_limits demo_config) = 4" "l_reprompts_max (c_limits demo_config) = 1"
    "dispatched (demo_rig st_awaiting) = 0"
    by code_simp+
  ultimately show ?thesis
    using loop_dispatch_bound [of "demo_rig st_awaiting" demo_config "\<lambda>i. demo_turn st_done"] by simp
qed



text \<open>
  C7. The kill switch: once the human note starts with \<open>STOP\<close>, in any case and after any white
  space, the loop dispatches no worker, spends no send, changes no item, and records the halt.
\<close>

theorem stop_dispatches_nothing:
  assumes "stop_requested (human_note (cur r))" and "turn (cur r) < l_turns_max (c_limits cfg)"
  shows "\<exists>r'. loop cfg envs 0 r = (Inr ''stopped_by_human'', r')
    \<and> dispatched r' = dispatched r \<and> ledger r' = ledger r \<and> checklist (disk r') = checklist (cur r)
    \<and> halt (disk r') = Some \<lparr>h_reason = ''stopped_by_human'', h_detail = strip (human_note (cur r))\<rparr>"
  using loop_stopped [OF assms] by (simp add: loop_def)

theorem stop_dispatches_nothing_witness:
  "\<exists>r'. loop demo_config (\<lambda>i. demo_turn st_done) 0
      ((demo_rig st_awaiting)\<lparr>cur := (demo_state st_awaiting)\<lparr>human_note := '' stop now''\<rparr>\<rparr>)
      = (Inr ''stopped_by_human'', r') \<and> dispatched r' = 0"
proof -
  let ?r = "(demo_rig st_awaiting)\<lparr>cur := (demo_state st_awaiting)\<lparr>human_note := '' stop now''\<rparr>\<rparr>"
  have "stop_requested (human_note (cur ?r))" "turn (cur ?r) < l_turns_max (c_limits demo_config)"
    "dispatched ?r = 0"
    by code_simp+
  with stop_dispatches_nothing [of ?r demo_config "\<lambda>i. demo_turn st_done"] show ?thesis by auto
qed

text \<open>
  C8. A commission is created once: if handling a request published a run, even if handling it
  then failed half way, every later delivery of the same request creates no other run.
\<close>

theorem commission_at_most_one_run:
  assumes "handle_commission cfg env c w = (res, w1)" and "site_ok w" and "named_fleet cfg"
    and "durable_key c \<noteq> []" and "map fst (runs w1) \<noteq> map fst (runs w)"
    and "durable_key again = durable_key c" and "handle_commission cfg later again w1 = (res2, w2)"
  shows "map fst (runs w2) = map fst (runs w1)"
  using assms by (rule commission_created_once)

theorem commission_at_most_one_run_witness:
  "map fst (runs (snd (handle_commission demo_config demo_down demo_commission
      (snd (handle_commission demo_config demo_down demo_commission (demo_site None)))))) = [''r-abc'']"
proof -
  let ?w1 = "snd (handle_commission demo_config demo_down demo_commission (demo_site None))"
  have k: "map fst (runs ?w1) = [''r-abc'']" by code_simp
  moreover have "site_ok (demo_site None)" "named_fleet demo_config" "durable_key demo_commission \<noteq> []"
    by code_simp+
  moreover have "map fst (runs (demo_site None)) = []" by (simp add: demo_site_def)
  ultimately show ?thesis
    using commission_at_most_one_run [where cfg = demo_config and env = demo_down
        and c = demo_commission and w = "demo_site None" and later = demo_down and again = demo_commission,
        OF surjective_pairing _ _ _ _ refl surjective_pairing] by simp
qed

text \<open>
  C9. Mailing a report settles it or leaves it pending under the idempotency key it already
  had, on disk as in memory; it hands at most one message to the provider, none when the report
  was settled before, and always under that key, so a retry repeats the request and never
  makes a second one.
\<close>

theorem report_mail_idempotent:
  assumes "mail_report cfg env h r = (res, r')" and "disk r = cur r"
  shows "disk r' = cur r' \<and> core (cur r') = core (cur r) \<and> report (cur r') = report (cur r)
    \<and> halt (cur r') = halt (cur r) \<and> delivery_key (cur r') = delivery_key (cur r)
    \<and> (res = Inr () \<longrightarrow> settled (disk r'))
    \<and> (res \<noteq> Inr () \<longrightarrow> \<not> settled (disk r'))
    \<and> (trace r' = trace r
       \<or> \<not> settled (cur r) \<and> trace r' = trace r @ [ReportMailed (delivery_key (cur r)) (fst (classify h))])"
  using assms by (rule mail_report_outcome)

theorem report_mail_idempotent_witness:
  "settled (disk (snd (mail_report demo_config demo_report_env ''complete''
      ((demo_rig st_done)\<lparr>cur := demo_reported ''pending'', disk := demo_reported ''pending''\<rparr>))))"
proof -
  let ?r = "(demo_rig st_done)\<lparr>cur := demo_reported ''pending'', disk := demo_reported ''pending''\<rparr>"
  have "fst (mail_report demo_config demo_report_env ''complete'' ?r) = Inr ()" by code_simp
  then obtain r' where "mail_report demo_config demo_report_env ''complete'' ?r = (Inr (), r')"
    by (metis prod.collapse)
  with report_mail_idempotent [OF this] show ?thesis by auto
qed

text \<open>
  C10. A note from anyone but the commissioner of the run changes nothing at all.
\<close>

theorem note_needs_commissioner:
  assumes "stored_run w (n_run_id n) = Some s" and "\<not> may_note s n"
  shows "handle_note cfg env n w = (Inl (NoteRejected ''note sender is not the run commissioner''), w)"
  using assms by (rule note_rejected)

theorem note_needs_commissioner_witness:
  "handle_note demo_config demo_env (demo_note\<lparr>n_sender := ''eve@b''\<rparr>) (demo_site (Some (demo_state st_done)))
    = (Inl (NoteRejected ''note sender is not the run commissioner''), demo_site (Some (demo_state st_done)))"
proof (rule note_needs_commissioner)
  show "stored_run (demo_site (Some (demo_state st_done))) (n_run_id (demo_note\<lparr>n_sender := ''eve@b''\<rparr>))
      = Some (demo_state st_done)"
    by (simp add: stored_run_def demo_site_def demo_note_def)
  show "\<not> may_note (demo_state st_done) (demo_note\<lparr>n_sender := ''eve@b''\<rparr>)" by code_simp
qed

text \<open>
  C11. The commissioner's note never finishes an item and never touches a finished one, and it
  leaves the run legal: authority to supply information is not authority to approve.
\<close>

theorem note_approves_nothing:
  "finished (checklist (snd (apply_human_note now msg s))) = finished (checklist s)
   \<and> (\<not> run_ok s \<or> run_ok (snd (apply_human_note now msg s)))"
  using apply_human_note_finished apply_human_note_ok by blast

theorem note_approves_nothing_witness:
  "run_ok (snd (apply_human_note ''now'' ''go on'' (demo_state st_blocked)))"
proof -
  have "run_ok (demo_state st_blocked)" by code_simp
  with note_approves_nothing [of "''now''" "''go on''" "demo_state st_blocked"] show ?thesis by blast
qed

text \<open>
  C12. The send ceilings hold over any schedule of reservations issued in time order from an
  empty ledger: in no window of a day does one run own more than its ceiling, in no window of an
  hour are more than the hourly, in no window of a day more than the daily ceiling granted.
\<close>

theorem sends_within_ceilings:
  assumes "sorted (map fst reqs)" and "0 \<le> per_run c" and "0 \<le> per_hour c" and "0 \<le> per_day c"
    and "ledger_run c Absent [] reqs = (left, granted)"
  shows "int (length (filter (\<lambda>s. r_run s = run \<and> t - 86400 < r_at s \<and> r_at s \<le> t) granted)) \<le> per_run c
    \<and> int (length (filter (\<lambda>s. t - 3600 < r_at s \<and> r_at s \<le> t) granted)) \<le> per_hour c
    \<and> int (length (filter (\<lambda>s. t - 86400 < r_at s \<and> r_at s \<le> t) granted)) \<le> per_day c"
proof -
  let ?t = "case reqs of [] \<Rightarrow> 0 | q # _ \<Rightarrow> fst q"
  have "tracks Absent [] ?t" by (simp add: tracks_def ledger_read_def recent_def)
  moreover have "all_respected c []"
    using assms(2-4) hourly.respected_Nil daily.respected_Nil run_daily.respected_Nil
    by (simp add: all_respected_def)
  moreover have "sorted (?t # map fst reqs)" using assms(1) by (fastforce split: list.split)
  ultimately have "all_respected c granted" using ledger_run_respects_ceilings assms(5) by fastforce
  then show ?thesis
    by (simp add: all_respected_def hourly.respected_def daily.respected_def run_daily.respected_def
        hourly.window_def daily.window_def run_daily.window_def)
qed

theorem sends_within_ceilings_witness:
  "length (filter (\<lambda>s. r_run s = ''r'' \<and> 10 - 86400 < r_at s \<and> r_at s \<le> 10)
     (snd (ledger_run (default_ceilings 1) Absent [] [(5, ''r'', None), (7, ''r'', None)]))) \<le> 1"
proof -
  have "0 \<le> per_run (default_ceilings 1)" "0 \<le> per_hour (default_ceilings 1)"
    "0 \<le> per_day (default_ceilings 1)" "per_run (default_ceilings 1) = 1"
    by (simp_all add: default_ceilings_def)
  then show ?thesis
    using sends_within_ceilings [of "[(5, ''r'', None), (7, ''r'', None)]" "default_ceilings 1" _ _ "''r''" 10,
        OF _ _ _ _ surjective_pairing] by simp
qed

text \<open>
  C13. Nobody approves their own work: an item that is done after a turn was done before, by the
  same verifier, or it awaited verification, the worker of this turn does not own it, and that
  worker is recorded as its verifier. Neither its owner nor its identity changes on the way.
\<close>

theorem no_self_approval:
  assumes "reconcile prev proposed who limit allow recov = Inr (out, viol)"
    and "x \<in> set out" and "it_state x = st_done"
  shows "\<exists>old \<in> set prev. it_id old = it_id x \<and> it_owner x = it_owner old
    \<and> (it_state old = st_done \<and> it_verified_by x = it_verified_by old
       \<or> it_state old = st_awaiting \<and> it_owner old \<noteq> JStr who \<and> it_verified_by x = JStr who)"
  using assms by (rule reconcile_no_self_approval)

theorem no_self_approval_witness:
  "\<exists>old \<in> {demo_item st_awaiting}. it_owner old \<noteq> JStr ''agy''"
proof -
  have *: "reconcile [demo_item st_awaiting] [item_json (demo_item st_done)] ''agy'' 2 False []
      = Inr ([(demo_item st_done)\<lparr>it_verified_by := JStr ''agy''\<rparr>], [])" by code_simp
  have d: "it_state ((demo_item st_done)\<lparr>it_verified_by := JStr ''agy''\<rparr>) = st_done" by code_simp
  from no_self_approval [OF * _ d] have "it_state (demo_item st_awaiting) = st_done
      \<or> it_owner (demo_item st_awaiting) \<noteq> JStr ''agy''" by auto
  moreover have "it_state (demo_item st_awaiting) \<noteq> st_done" by code_simp
  ultimately show ?thesis by blast
qed







text \<open>
  C17. The mechanical summary exists exactly when every item can be printed: its description,
  and the evidence of a finished or stuck item, must be a text or a list. A number a worker put
  there makes the summary, and with it every report of the run, raise.
\<close>

theorem summary_defined_iff:
  "(\<exists>t. mechanical_summary items text h = Inr t) \<longleftrightarrow> (\<forall>i \<in> set items. reportable i)"
  by (rule mechanical_summary_defined)

theorem summary_defined_iff_witness:
  "\<not> (\<exists>t. mechanical_summary [(demo_item st_done)\<lparr>it_description := JInt 3\<rparr>] ''t'' ''complete'' = Inr t)"
  unfolding summary_defined_iff by code_simp







text \<open>
  C21. A sign-in code works once: after an exchange granted a session for it, no exchange of the
  same code ever grants another, whatever operations come in between, unless the same random
  code is drawn again.
\<close>

theorem sign_in_code_single_use:
  assumes "ops = memory_auth sha \<or> ops = firestore_auth sha"
    and "ao_exchange ops now fresh code s = (Inr (Some p), s')"
    and "list_all (\<lambda>a. \<not> draws_code sha (sha code) a) as"
  shows "fst (ao_exchange ops later again code (auth_run ops as s')) \<noteq> Inr (Some q)"
  using assms by (metis memory_sessions.code_used_once firestore_sessions.code_used_once)

theorem sign_in_code_single_use_witness:
  "\<forall>q. fst (ao_exchange (firestore_auth (\<lambda>x. x)) 9 (demo_token CHR ''t'') (demo_token CHR ''c'')
     (snd (ao_exchange (firestore_auth (\<lambda>x. x)) 5 (demo_token CHR ''s'') (demo_token CHR ''c'')
       (auth_run (firestore_auth (\<lambda>x. x)) [Issue 0 (demo_token CHR ''c'') demo_user] no_auth)))) \<noteq> Inr (Some q)"
proof -
  let ?ops = "firestore_auth (\<lambda>x. x)"
  let ?s = "auth_run ?ops [Issue 0 (demo_token CHR ''c'') demo_user] no_auth"
  have "fst (ao_exchange ?ops 5 (demo_token CHR ''s'') (demo_token CHR ''c'') ?s)
      = Inr (Some (demo_token CHR ''s'', demo_user))" by code_simp
  then have "ao_exchange ?ops 5 (demo_token CHR ''s'') (demo_token CHR ''c'') ?s
      = (Inr (Some (demo_token CHR ''s'', demo_user)),
         snd (ao_exchange ?ops 5 (demo_token CHR ''s'') (demo_token CHR ''c'') ?s))"
    by (metis prod.collapse)
  from sign_in_code_single_use [OF _ this, of "\<lambda>x. x" "[]"] show ?thesis by simp
qed

text \<open>
  C22. A session that identifies somebody was opened by exchanging a code less than half an hour
  ago, and the code was issued for exactly that identity less than two minutes before.
\<close>

theorem session_rests_on_code:
  assumes "ops = memory_auth sha \<or> ops = firestore_auth sha"
    and "fst (ao_identity ops now t (auth_run ops as no_auth)) = Inr (Some i)"
  shows "\<exists>began fresh code issued c. (Exchange began fresh code, Session fresh i) \<in> set (auth_log ops as no_auth)
    \<and> sha fresh = sha t \<and> now < began + 1800
    \<and> (Issue issued c i, Code c) \<in> set (auth_log ops as no_auth) \<and> sha c = sha code
    \<and> began < issued + 120"
proof -
  obtain s' where "ao_identity ops now t (auth_run ops as no_auth) = (Inr (Some i), s')"
    using assms(2) by (metis prod.collapse)
  with assms(1) memory_sessions.session_provenance firestore_sessions.session_provenance show ?thesis
    unfolding SESSION_TTL_def CODE_TTL_def by fastforce
qed

theorem session_rests_on_code_witness:
  "\<exists>began fresh code. (Exchange began fresh code, Session fresh demo_user) \<in> set (auth_log (memory_auth (\<lambda>x. x))
     [Issue 0 (demo_token CHR ''c'') demo_user, Exchange 5 (demo_token CHR ''s'') (demo_token CHR ''c'')] no_auth)
     \<and> 7 < began + 1800"
proof -
  have "fst (ao_identity (memory_auth (\<lambda>x. x)) 7 (demo_token CHR ''s'') (auth_run (memory_auth (\<lambda>x. x))
      [Issue 0 (demo_token CHR ''c'') demo_user, Exchange 5 (demo_token CHR ''s'') (demo_token CHR ''c'')]
      no_auth)) = Inr (Some demo_user)" by code_simp
  from session_rests_on_code [OF _ this, of "\<lambda>x. x"] show ?thesis by blast
qed

text \<open>
  C23. A sign-in link works once: after it signed somebody in, it never signs anybody in again,
  in any workspace and whatever operations come in between.
\<close>

theorem sign_in_link_single_use:
  assumes "ops = memory_links hmac sha secret \<or> ops = firestore_links hmac sha secret"
    and "lo_consume ops now token ws s = (Some i, s')"
  shows "fst (lo_consume ops later token ws' (link_run ops as s')) = None"
  using assms by (metis memory_link.link_used_once firestore_link.link_used_once)

theorem sign_in_link_single_use_witness:
  "\<exists>s'. lo_consume (firestore_links demo_hmac (\<lambda>x. x) ''secret'') 1700000000000000 demo_link ''w''
      demo_link_state = (Some demo_user, s')
    \<and> fst (lo_consume (firestore_links demo_hmac (\<lambda>x. x) ''secret'') 1700000001000000 demo_link ''w''
        (link_run (firestore_links demo_hmac (\<lambda>x. x) ''secret'') [] s')) = None"
proof -
  let ?ops = "firestore_links demo_hmac (\<lambda>x. x) ''secret''"
  obtain s' where s': "lo_consume ?ops 1700000000000000 demo_link ''w'' demo_link_state = (Some demo_user, s')"
    using demo_link_accepted by (simp add: firestore_links_def fs_consume_def demo_link_state_def usable_def
        link_identity_def demo_user_def)
  with sign_in_link_single_use [OF _ this, of demo_hmac "\<lambda>x. x" "''secret''" 1700000001000000 "''w''" "[]"]
  show ?thesis by blast
qed

text \<open>
  C24. A link that signs somebody in is genuine: its token is signed with the service's secret,
  has not expired and is bound to the address and the workspace; it was sent for that person and
  workspace, less than ten minutes ago.
\<close>

theorem sign_in_rests_on_sending:
  assumes "ops = memory_links hmac sha secret \<or> ops = firestore_links hmac sha secret"
    and "fst (lo_consume ops now token ws (link_run ops as no_links)) = Some i"
  shows "validated_token_hash hmac sha secret token now = Some (sha token)
    \<and> binding_matches hmac secret token (u_email i) ws
    \<and> (\<exists>sent random delivery expires u token'.
         (Send_Link sent random delivery expires u ws, Sent token') \<in> set (link_log ops as no_links)
         \<and> sha token' = sha token \<and> i = u\<lparr>u_picture := None\<rparr> \<and> now < sent + 600000000)"
proof -
  obtain s' where "lo_consume ops now token ws (link_run ops as no_links) = (Some i, s')"
    using assms(2) by (metis prod.collapse)
  with assms(1) have "genuine hmac secret token ws now (u_email i)
      \<and> (\<exists>sent random delivery expires u token'.
         (Send_Link sent random delivery expires u ws, Sent token') \<in> set (link_log ops as no_links)
         \<and> sha token' = sha token \<and> i = u\<lparr>u_picture := None\<rparr> \<and> now < sent + LINK_TTL)"
    by (elim disjE) (simp_all only: memory_link.link_provenance firestore_link.link_provenance)
  then show ?thesis
    using validated_token_hash_cases(1) [of hmac sha secret token now]
      validated_token_hash_cases(2) [of hmac secret token now] by (simp add: genuine_def LINK_TTL_def)
qed

theorem sign_in_rests_on_sending_witness:
  "binding_matches demo_hmac ''secret'' demo_link ''a@b'' ''w''"
proof -
  let ?ops = "memory_links demo_hmac (\<lambda>x. x) ''secret''"
  have "fst (lo_consume ?ops 1700000000000000 demo_link ''w'' (link_run ?ops
      [Send_Link 1700000000000000 (demo_token CHR ''n'') None None demo_user ''w'',
       Activate 1700000000000000 demo_link] no_links)) = Some demo_user"
    using demo_link_accepted by (simp add: memory_links_def mem_consume_def mem_issue_def mem_activate_def
        demo_link_made no_links_def new_link_def usable_def link_identity_def demo_user_def)
  from sign_in_rests_on_sending [OF disjI1 [OF refl] this] show ?thesis
    by (simp add: demo_user_def)
qed

text \<open>
  C25. In one window of fifteen minutes at most five sign-in requests are let through for an
  address and at most ten thousand for everybody, in either backend and whatever else happens.
\<close>

theorem sign_in_rate_limited:
  "length (filter (allowed_in (Some email) w) (link_log (memory_links hmac sha secret) as no_links)) \<le> 5
   \<and> length (filter (allowed_in None w) (link_log (memory_links hmac sha secret) as no_links)) \<le> 10000
   \<and> length (filter (allowed_in (Some email) w) (link_log (firestore_links hmac sha secret) as no_links)) \<le> 5
   \<and> length (filter (allowed_in None w) (link_log (firestore_links hmac sha secret) as no_links)) \<le> 10000"
  using memory_link.run_allowed [of email w hmac sha secret as]
    firestore_link.run_allowed [of email w hmac sha secret as]
  by (simp add: EMAIL_RATE_LIMIT_def GLOBAL_RATE_LIMIT_def)

text \<open>
  C26. A token that was made is accepted: it passes the format, the signature and the binding
  check, with its own digest, at every moment before the second it expires in.
\<close>

theorem link_token_round_trip:
  assumes "new_link_token hmac sha secret email ws now random delivery expires = Inr (token, h, until)"
    and "\<And>k m. length (hmac k m) = 32"
    and "length random = 43" and "list_all url_char random"
    and "length (show_int (seconds until)) = 10" and "0 \<le> until"
    and "seconds later < seconds until"
  shows "validated_token_hash hmac sha secret token later = Some h \<and> binding_matches hmac secret token email ws"
  using assms by (rule new_link_token_accepted)

theorem link_token_round_trip_witness:
  "validated_token_hash demo_hmac (\<lambda>x. x) ''secret'' demo_link 0 = Some demo_link"
  using link_token_round_trip [OF demo_link_made [of email ws], of 0]
  by (simp add: demo_hmac_def demo_token_def seconds_def show_int_def demo_second list_all_iff url_char_def)

text \<open>
  C27. A run that failed or lapsed is not stuck: from every state the service can reach, whatever
  attempts are still in flight, one request for it with a coordinator that answers finishes the
  run, and stores it as ready under its identifier and its key.
\<close>

theorem lapsed_commission_recovers:
  assumes "inj sha" and "(store_step (firestore_ops sha))\<^sup>*\<^sup>* (empty_firestore, {}) (s, F)"
    and "fs_by_key sha key s = Some r" and "key \<noteq> []"
    and "resumable (sv_now env) r" and "rr_task_digest r = sv_sha env body"
    and "run_coordinator env body (rr_run_id r) (rr_attempts r + 1) = Inr out"
  shows "\<exists>r' s'. submit_commission (firestore_ops sha) (\<lambda>s. s) (\<lambda>s. s) env body rid key s = (Inr (r', False), s')
    \<and> fs_by_key sha key s' = Some r' \<and> fs_get (rr_run_id r) s' = Some r'
    \<and> rr_run_id r' = rr_run_id r \<and> rr_status r' = ''ready_for_rally'' \<and> rr_coordinator_record r' = Some out"
proof -
  have "fs_good sha s" "flights_ok (firestore_ops sha) s F"
    using firestore_runs.steps_keep [OF assms(2)] empty_good(1) [OF assms(1)] empty_flights by simp_all
  from firestore_runs.lapsed_recovers [OF this, of key r env body out rid] assms(3-7) show ?thesis by simp
qed

theorem lapsed_commission_recovers_witness:
  "\<exists>r' s'. submit_commission (firestore_ops (\<lambda>x. x)) (\<lambda>s. s) (\<lambda>s. s) (demo_service\<lparr>sv_now := 1000\<rparr>)
      ''t'' [] ''k1'' (demo_fire [demo_run]) = (Inr (r', False), s')
    \<and> fs_by_key (\<lambda>x. x) ''k1'' s' = Some r' \<and> rr_status r' = ''ready_for_rally''"
proof -
  have "(store_step (firestore_ops (\<lambda>x. x)))\<^sup>*\<^sup>* (empty_firestore, {}) (demo_fire [demo_run], {demo_run})"
    using demo_claim by blast
  moreover have "fs_by_key (\<lambda>x. x) ''k1'' (demo_fire [demo_run]) = Some demo_run"
    by (simp add: demo_run_defs fs_by_key_def)
  moreover have "resumable (sv_now (demo_service\<lparr>sv_now := 1000\<rparr>)) demo_run"
    by (simp add: resumable_def lease_expired_def demo_run_defs COORDINATION_LEASE_SECONDS_def)
  moreover have "rr_task_digest demo_run = sv_sha (demo_service\<lparr>sv_now := 1000\<rparr>) ''t''"
    by (simp add: demo_run_defs)
  moreover have "run_coordinator (demo_service\<lparr>sv_now := 1000\<rparr>) ''t'' (rr_run_id demo_run)
      (rr_attempts demo_run + 1) = Inr ''out''"
    by (simp add: run_coordinator_def demo_run_defs strip_def is_space_def)
  moreover have "inj (\<lambda>x::string. x)" "''k1'' \<noteq> []" by simp_all
  ultimately show ?thesis
    using lapsed_commission_recovers [of "\<lambda>x. x" "demo_fire [demo_run]" "{demo_run}" "''k1''" demo_run
      "demo_service\<lparr>sv_now := 1000\<rparr>" "''t''" "''out''" "[]"] by blast
qed



text \<open>
  C29. What a mail must show to be a commission or a note: exactly one raw \<open>From\<close> with exactly one
  valid address, the same the provider reports, of an owner; exactly one
  \<open>Authentication-Results\<close> field, of the trusted service; in it exactly one DKIM and one DMARC
  verdict, both passing; the DMARC domain equal to the sender's and the DKIM domain aligned with
  it. Nothing in the body plays a part.
\<close>

theorem mail_needs_evidence:
  assumes "classify_mail env cfg msg raw = Inr b"
    and "b = M_Commission c \<and> a = co_sender c \<or> b = M_Note n \<and> a = n_sender n"
  shows "a \<in> set (map lower (ic_owners cfg)) \<and> visible_sender env (jget ''from'' msg) = Some a
    \<and> (\<exists>v. header_values raw ''From'' = [v] \<and> visible_sender env (JStr v) = Some a)
    \<and> (\<exists>field service segs rs dkim dmarc d.
         header_values raw ''Authentication-Results'' = [field]
         \<and> auth_segments (strip (unfold_header field)) = Some (service # segs)
         \<and> fullmatch TRUSTED_SERVICE service \<and> parsed_results segs = Some rs
         \<and> verdicts ''dkim'' rs = [(''pass'', dkim)] \<and> verdicts ''dmarc'' rs = [(''pass'', dmarc)]
         \<and> property_domain False dmarc ''header.from'' = Some (domain_of a)
         \<and> property_domain True dkim ''header.i'' = Some d \<and> aligned_domain d (domain_of a))"
proof -
  from assms classify_mail_authorised [of env cfg msg raw] have auth: "authorised_mail env cfg msg raw a" by auto
  then have "email_authenticates raw a" by (simp add: authorised_mail_def)
  then obtain v service segs rs where e: "header_values raw ''Authentication-Results'' = [v]"
    "auth_segments (strip (unfold_header v)) = Some (service # segs)"
    "fullmatch TRUSTED_SERVICE service" "parsed_results segs = Some rs" "aligned_verdicts a rs"
    by (rule email_authenticatesD)
  from auth have "\<exists>v. header_values raw ''From'' = [v] \<and> visible_sender env (JStr v) = Some a"
    by (auto simp: authorised_mail_def raw_sender_def split: list.splits)
  with auth e aligned_verdictsD [OF e(5)] show ?thesis unfolding authorised_mail_def by metis
qed

theorem mail_needs_evidence_witness:
  "classify_mail demo_poll demo_icfg demo_mail (Some demo_headers)
     = Inr (M_Commission (mail_commission ''do it'' ''a@b.co'' None))
   \<and> (\<exists>v. header_values (Some demo_headers) ''From'' = [v])"
proof -
  have c: "classify_mail demo_poll demo_icfg demo_mail (Some demo_headers)
     = Inr (M_Commission (mail_commission ''do it'' ''a@b.co'' None))" by code_simp
  from mail_needs_evidence [OF this, of "mail_commission ''do it'' ''a@b.co'' None" "''a@b.co''"] c
  show ?thesis by (auto simp: mail_commission_def)
qed

text \<open>
  C30. A gated call reaches a provider only on a person's approval. Whenever a worker's call of a
  tool that the frozen policy marks \<open>human_approval\<close> reaches a provider, the run has before it a
  worker's request for the same run, connector and tool with canonically equal arguments, then the
  approval of exactly that request by a person in time, and no call in between that reached a
  provider on it; the call itself is in time. Hence an approval lets one call through.
\<close>

theorem gated_call_rests_on_approval:
  assumes "g = gate_run cd authority ops start" and "gw_ledger start = No_File"
    and "call_allowed_tool (env\<lparr>ge_coders := cd\<rparr>) authority cid tool arguments approval g = (res, g')"
    and "gw_calls g' \<noteq> gw_calls g" and "gated authority cid tool"
  shows "\<exists>i la ask lb k human t approved lc deadline. approval = Some i
      \<and> gate_log cd authority ops start = la @ ask # lb @ (Human k human t, approved) # lc
      \<and> asked_for cd authority (fst ask) cid tool (args_of arguments) deadline
      \<and> strip k = strip i \<and> t < deadline \<and> ge_now env < deadline
      \<and> (\<forall>(op, reached) \<in> set lb \<union> set lc. \<not> (reached \<and> spends authority i op))"
  using gated_call_history [OF assms] .

theorem gated_call_rests_on_approval_witness:
  "length (gw_calls (snd sample_gated_call)) = 1
   \<and> (\<exists>la ask lb k human t approved lc. gate_log sample_coders sample_authority sample_gate_ops sample_gate
        = la @ ask # lb @ (Human k human t, approved) # lc)"
proof -
  let ?g = "gate_run sample_coders sample_authority sample_gate_ops sample_gate"
  have env: "sample_gate_env 30 = (sample_gate_env 30)\<lparr>ge_coders := sample_coders\<rparr>"
    by (simp add: sample_gate_env_def)
  have "call_allowed_tool ((sample_gate_env 30)\<lparr>ge_coders := sample_coders\<rparr>) sample_authority ''crm'' ''send''
      (Some sample_args) (Some ''apr_1'') ?g = (fst sample_gated_call, snd sample_gated_call)"
    by (simp only: env [symmetric] sample_gated_call_def prod.collapse)
  note call = this
  have ledger: "gw_ledger sample_gate = No_File" by code_simp
  have "gw_calls ?g = []" by code_simp
  moreover have "gw_calls (snd sample_gated_call) \<noteq> []" using sample_gated_call_sent by auto
  ultimately have "gw_calls (snd sample_gated_call) \<noteq> gw_calls ?g" by simp
  from gated_call_rests_on_approval [OF refl ledger call this sample_gated]
  have "\<exists>la ask lb k human t approved lc. gate_log sample_coders sample_authority sample_gate_ops sample_gate
        = la @ ask # lb @ (Human k human t, approved) # lc"
    by - (elim exE conjE, intro exI, assumption)
  then show ?thesis using sample_gated_call_sent by blast
qed

text \<open>
  C31. Whatever a worker sends, a call that reaches a provider stays within the frozen authority:
  the user enabled the connector, the policy frozen from that user's settings lists the tool as
  readable or gated, the arguments satisfy its constraints, and the endpoint is an HTTPS URL
  without credentials on a host and path the catalog allows for that provider.
\<close>

theorem calls_stay_within_authority:
  assumes "authority_snapshot h cfg run receipt_path subject approval_path = Inr authority"
    and "call_allowed_tool env authority cid tool arguments approval g = (res, g')"
    and "gw_calls g' \<noteq> gw_calls g"
  shows "\<exists>sent. gw_calls g' = gw_calls g @ [sent]
    \<and> sent_within h cfg subject cid tool (args_of arguments) sent"
  using sent_call_within [OF assms] .

theorem calls_stay_within_authority_witness:
  "\<exists>sent. gw_calls (snd sample_read_call) = [sent]
    \<and> sent_within sample_host [] ''ada'' ''crm'' ''search'' [] sent"
proof -
  have call: "call_allowed_tool (sample_gate_env 30) sample_authority ''crm'' ''search'' None None sample_gate
      = (fst sample_read_call, snd sample_read_call)" by (simp add: sample_read_call_def)
  have "gw_calls (snd sample_read_call) \<noteq> gw_calls sample_gate" by code_simp
  from calls_stay_within_authority [OF sample_snapshot call this] show ?thesis
    by (simp add: sample_gate_def args_of_def)
qed

text \<open>
  C32. The normal form of a tool policy is a fixed point: what an installation's tool rules
  normalise to normalises to itself, so the policy in the frozen authority is exactly the one the
  gateway would read again, and every rule in it has one of the four risk classes.
\<close>

theorem tool_policy_normal:
  assumes "tool_policy connector override = Inr policy"
  shows "tool_policy connector (JObj [(''tools'', JObj policy)]) = Inr policy
    \<and> (\<forall>(tool, rule) \<in> set policy. \<exists>kvs. rule = JObj kvs \<and> jget ''risk'' kvs \<in> JStr ` set RISK_CLASSES)"
  using tool_policy_again [OF assms] tool_policy_risks [OF assms] by blast

theorem tool_policy_normal_witness:
  "\<exists>policy. tool_policy ''crm'' (JObj [(''tools'', JObj sample_tools)]) = Inr policy
    \<and> tool_policy ''crm'' (JObj [(''tools'', JObj policy)]) = Inr policy"
proof -
  have "case tool_policy ''crm'' (JObj [(''tools'', JObj sample_tools)]) of Inr p \<Rightarrow> True | Inl e \<Rightarrow> False"
    by code_simp
  then obtain policy where "tool_policy ''crm'' (JObj [(''tools'', JObj sample_tools)]) = Inr policy"
    by (auto split: sum.splits)
  with tool_policy_normal [OF this] show ?thesis by blast
qed





text \<open>
  C35. The ledger of approvals is bounded: whatever sequence of operations ran, it never holds more
  than 1024 records, and a request is refused for lack of room only when none of its records can be
  dropped.
\<close>

theorem approval_ledger_bounded:
  "length (ledger_of (ap_run_ops cd ops No_File)) \<le> MAX_RECORDS
   \<and> (\<forall>l. make_space (ledger_of (ap_run_ops cd ops No_File)) = (False, l) \<longrightarrow>
        list_all (\<lambda>p. \<not> terminal (snd p)) l \<and> MAX_RECORDS \<le> length l)"
  using ledger_bounded no_space_unfinished ledger_distinct by blast

theorem approval_ledger_bounded_witness:
  "\<exists>n. n = length (ledger_of (ap_run_ops sample_coders [Ask [''a''] ''r'' ''c'' ''t'' (JObj []) 60 1] No_File))
    \<and> n = 1 \<and> n \<le> MAX_RECORDS"
proof -
  have "length (ledger_of (ap_run_ops sample_coders [Ask [''a''] ''r'' ''c'' ''t'' (JObj []) 60 1] No_File)) = 1"
    by code_simp
  with approval_ledger_bounded [of sample_coders "[Ask [''a''] ''r'' ''c'' ''t'' (JObj []) 60 1]"] show ?thesis
    by simp
qed



text \<open>
  C37. A credential is handed out only for a certified connection: whenever a worker claims one, the
  connection is ready, its manifest lists at least one tool, the canary that was called is one of
  them under the digest of its schema, and the digest of the manifest is the recorded one.
\<close>

theorem claim_needs_certificate:
  assumes "sealing_ok sl" and "\<forall>x \<in> set xs. op_ok sl x"
    and "kv_claim sl mo uid cid (snd (vault_run (kv_step sl) xs [])) = (Inr (Some (s, r)), c')"
  shows "cn_status r = ''ready'' \<and> certified sl r \<and> cn_lease r = Some (mo_token mo)"
  using claimed_certified [OF assms] .

theorem claim_needs_certificate_witness:
  "\<exists>s r c. kv_claim sample_sealing (sample_moment 4 (CHR ''4'')) ''ada'' ''crm'' sample_docs = (Inr (Some (s, r)), c)
    \<and> certified sample_sealing r"
proof -
  obtain s r c where
    *: "kv_claim sample_sealing (sample_moment 4 (CHR ''4'')) ''ada'' ''crm'' sample_docs = (Inr (Some (s, r)), c)"
    by (rule sample_claim)
  from claim_needs_certificate [OF sample_sealing_ok sample_ops_ok this [unfolded sample_docs_def]] * show ?thesis
    by blast
qed

text \<open>
  C38. A lease is exclusive: after one worker claimed a connection, a second claim succeeds only once
  the lease has lapsed, unless an operation in between held the token of the lease, marked or
  deleted the connection, or read the clock when the lease had lapsed.
\<close>

theorem lease_is_exclusive:
  assumes "sealing_ok sl" and "\<forall>x \<in> set xs \<union> set ys. op_ok sl x" and "hex_token (mo_token mo)"
    and "kv_claim sl mo uid cid (snd (vault_run (kv_step sl) xs [])) = (Inr (Some (s, r)), c)"
    and "\<forall>(m, op) \<in> set ys. mo_check m < mo_now mo + EXECUTION_LEASE
        \<and> \<not> ends_lease uid cid (mo_token mo) op"
    and "kv_claim sl mo' uid cid (snd (vault_run (kv_step sl) ys c)) = (Inr (Some (s', r')), c')"
  shows "mo_now mo + EXECUTION_LEASE \<le> mo_check mo'"
  using claims_apart [OF assms] .

theorem lease_is_exclusive_witness:
  "\<exists>c s r c'. kv_claim sample_sealing (sample_moment 90000004 (CHR ''5'')) ''ada'' ''crm'' c = (Inr (Some (s, r)), c')
    \<and> (4::int) + EXECUTION_LEASE \<le> 90000004"
proof -
  obtain s r c where
    first: "kv_claim sample_sealing (sample_moment 4 (CHR ''4'')) ''ada'' ''crm'' sample_docs = (Inr (Some (s, r)), c)"
    by (rule sample_claim)
  from sample_again [OF first] obtain s' r' c' where
    second: "kv_claim sample_sealing (sample_moment 90000004 (CHR ''5'')) ''ada'' ''crm'' c = (Inr (Some (s', r')), c')"
    by blast
  have token: "hex_token (mo_token (sample_moment 4 (CHR ''4'')))" by code_simp
  have ops: "\<forall>x \<in> set sample_vault_ops \<union> set []. op_ok sample_sealing x" using sample_ops_ok by simp
  have "mo_now (sample_moment 4 (CHR ''4'')) + EXECUTION_LEASE \<le> mo_check (sample_moment 90000004 (CHR ''5''))"
    by (rule lease_is_exclusive [OF sample_sealing_ok ops token first [unfolded sample_docs_def], where mo' =
        "sample_moment 90000004 (CHR ''5'')"]) (use second in simp_all)
  then have "(4::int) + EXECUTION_LEASE \<le> 90000004" by (simp add: sample_moment_def)
  with second show ?thesis by blast
qed

text \<open>
  C39. A connection that is being disconnected stays out: nothing but marking or deleting it hands its
  credential out again, and the deletion that ends the disconnection succeeds.
\<close>

theorem disconnected_stays_out:
  assumes "sealing_ok sl" and "\<forall>x \<in> set xs \<union> set ys. op_ok sl x" and "hex_token (mo_token mo)" and "mo_db m"
    and "kv_begin_disconnect sl mo uid cid (snd (vault_run (kv_step sl) xs [])) = (Inr (Some (s, r)), c)"
    and "\<forall>(m, op) \<in> set ys. op_key op = Some (uid, cid) \<longrightarrow>
        (\<forall>u i status ct. op \<noteq> V_Mark u i status ct) \<and> (\<forall>u i h need. op \<noteq> V_Delete u i h need)"
  shows "fst (kv_claim sl m uid cid (snd (vault_run (kv_step sl) ys c))) = Inr None
    \<and> fst (kv_delete sl m uid cid (Some (cn_generation r)) True (snd (vault_run (kv_step sl) ys c))) = Inr True"
  using left_for_good [OF assms] by simp

theorem disconnected_stays_out_witness:
  "\<exists>c. fst (kv_claim sample_sealing (sample_moment 6 (CHR ''6'')) ''ada'' ''crm'' c) = Inr None \<and> c \<noteq> []"
proof -
  obtain s r c where
    leave: "kv_begin_disconnect sample_sealing (sample_moment 5 (CHR ''5'')) ''ada'' ''crm'' sample_docs
      = (Inr (Some (s, r)), c)"
    by (rule sample_disconnect)
  have token: "hex_token (mo_token (sample_moment 5 (CHR ''5'')))" by code_simp
  have db: "mo_db (sample_moment 6 (CHR ''6''))" by (simp add: sample_moment_def)
  from disconnected_stays_out [OF sample_sealing_ok _ token db leave [unfolded sample_docs_def], where ys = "[]"]
    sample_ops_ok
  have *: "fst (kv_claim sample_sealing (sample_moment 6 (CHR ''6'')) ''ada'' ''crm'' c) = Inr None"
    "fst (kv_delete sample_sealing (sample_moment 6 (CHR ''6'')) ''ada'' ''crm'' (Some (cn_generation r)) True c)
      = Inr True" by simp_all
  then have "c \<noteq> []"
    by (auto simp: kv_delete_def checked_def transacted_def in_document_def split: sum.splits if_splits)
  with * show ?thesis by blast
qed

text \<open>
  C40. Tenants are isolated: an operation of another user, or on another connector, changes nothing
  that a user reads of a connection, in whatever state the database is.
\<close>

theorem tenants_are_isolated:
  assumes "inj (sl_sha sl)" and "connector_id_ok cid" and "op_key op \<noteq> Some (uid, cid)"
  shows "kv_get sl m uid cid (snd (kv_step sl (mo, op) c)) = kv_get sl m uid cid c"
  using elsewhere_step [OF assms, where mo = mo and c = c]
  by (simp add: kv_get_def checked_def checked_connector_def in_document_def elsewhere_def assms(2)
      split: option.split)

theorem tenants_are_isolated_witness:
  "kv_get sample_sealing (sample_moment 5 (CHR ''5'')) ''ada'' ''crm''
      (snd (kv_step sample_sealing
        (sample_moment 4 (CHR ''4''), V_Delete ''eve'' ''crm'' None False) sample_docs))
    = kv_get sample_sealing (sample_moment 5 (CHR ''5'')) ''ada'' ''crm'' sample_docs"
proof (rule tenants_are_isolated)
  show "inj (sl_sha sample_sealing)" using sample_sealing_ok by (simp add: sealing_ok_def)
  show "connector_id_ok ''crm''" by code_simp
qed simp

section \<open>Further facts\<close>

text \<open>
  The progress fingerprint is a function of the set of (identifier, state, owner) lines:
  neither the order in which a worker lists the items nor an edit of a description, of the
  evidence, of the verifier or of the rejection count changes it, so only a real move of an item
  resets the no-progress counter.
\<close>

theorem digest_ignores_order_and_prose:
  assumes "mset (map (\<lambda>it. (it_id it, it_state it, it_owner it)) xs)
      = mset (map (\<lambda>it. (it_id it, it_state it, it_owner it)) ys)"
    and "inj_on (\<lambda>it. py_str (it_id it)) (set xs)" and "distinct xs"
  shows "digest xs = digest ys"
proof -
  let ?f = "\<lambda>it. (it_id it, it_state it, it_owner it)"
  obtain zs where zs: "mset zs = mset xs" "map ?f zs = map ?f ys"
    using mset_map_reorder [OF assms(1)] by blast
  have "digest xs = digest zs" using digest_order [OF zs(1) [symmetric] assms(2)] .
  also have "\<dots> = digest ys" using zs(2) by (rule digest_edit_in_place)
  finally show ?thesis .
qed

theorem digest_ignores_order_and_prose_witness:
  "digest [demo_item st_done, (demo_item st_open)\<lparr>it_id := JStr ''c2''\<rparr>]
    = digest [(demo_item st_open)\<lparr>it_id := JStr ''c2'', it_evidence := JStr ''new''\<rparr>, demo_item st_done]"
  by (rule digest_ignores_order_and_prose) (simp_all add: demo_item_def)

text \<open>
  The envelope of a reply is one of its fenced blocks, or the whole reply, parsed, and it
  has a checklist; and a last block that is an envelope wins over every example before it.
\<close>

theorem envelope_is_last_block:
  "(\<forall>e. extract_envelope loads reply = Some e \<longrightarrow> ''checklist'' \<in> fst ` set e
      \<and> (\<exists>b \<in> insert (strip reply) (set (fences reply)). loads b = Some (JObj e)))
    \<and> (\<forall>bs b e. fences reply = bs @ [b] \<and> loads b = Some (JObj e) \<and> ''checklist'' \<in> fst ` set e
      \<longrightarrow> extract_envelope loads reply = Some e)"
  using extract_envelope_sound extract_prefers_last_fence by blast

theorem envelope_is_last_block_witness:
  "extract_envelope (\<lambda>b. Some (JObj [(''checklist'', JArr [])])) (ticks @ ''{'' @ ''}'' @ ticks)
    = Some [(''checklist'', JArr [])]"
proof -
  have "fences (ticks @ ''{'' @ ''}'' @ ticks) = [] @ [''{}'']" by code_simp
  with envelope_is_last_block [of "\<lambda>b. Some (JObj [(''checklist'', JArr [])])"
      "ticks @ ''{'' @ ''}'' @ ticks"] show ?thesis by simp
qed

text \<open>
  Bytes survive the wire: what the runner decodes of a deliverable within the size limit is
  exactly what the provider encoded.
\<close>

theorem artifact_round_trip:
  assumes "bytes \<noteq> []" and "length bytes \<le> 6 * 1024 * 1024"
  shows "decode_bounded (JStr (b64_encode bytes)) = Inr bytes"
proof -
  have "b64_encode bytes \<noteq> []" using b64_round_trip [of bytes] assms(1) by auto
  with assms show ?thesis by (simp add: decode_bounded_def MAX_MEDIA_BYTES_def b64_round_trip)
qed

theorem artifact_round_trip_witness: "decode_bounded (JStr (b64_encode ''AB'')) = Inr ''AB''"
  by (rule artifact_round_trip) simp_all

text \<open>
  A failure of the media provider never stops a run: the media step never raises the
  provider's error, and a prompt that is already delivered is not generated again.
\<close>

theorem media_failure_contained:
  "fst (prepare_media env now request revision r) \<noteq> Inl (MediaGenerationError m)"
  using prepare_media_contained by (metis surjective_pairing)

text \<open>
  A proposed item that is not an object makes the reconciliation of the reply raise,
  although the shape check has already reported it.
\<close>

theorem malformed_item_crashes:
  assumes "raw \<in> set proposed" and "\<forall>kvs. raw \<noteq> JObj kvs"
  shows "\<exists>e. reconcile prev proposed who limit allow recov = Inl e"
  using assms by (rule reconcile_raises_on_non_object)

theorem malformed_item_crashes_witness:
  "\<exists>e. reconcile [] [JStr ''x''] ''claude'' 2 True [] = Inl e"
  by (rule malformed_item_crashes [of "JStr ''x''"]) simp_all

text \<open>
  Whatever a note, the workers and the providers do, the saved run keeps its identity: its
  identifier, request key, commission message, commissioner, workspace and source run.
\<close>

theorem note_keeps_identity:
  assumes "stored_run w (n_run_id n) = Some s" and "handle_note cfg env n w = (res, w')"
  shows "\<exists>t. stored_run w' (n_run_id n) = Some t \<and> ident t = ident s"
proof (cases "may_note s n")
  case True
  with assms have "on_run (n_run_id n) s (note_body cfg env n) w = (res, w')"
    by (simp add: handle_note_def)
  from on_run_ident [OF identity_note_body this] show ?thesis by (simp add: stored_run_def)
next
  case False
  with assms note_rejected show ?thesis by fastforce
qed

theorem note_keeps_identity_witness:
  "\<exists>t. stored_run (snd (handle_note demo_config demo_env demo_note
      (demo_site (Some (demo_reported ''pending''))))) ''r-abc'' = Some t \<and> run_id t = ''r-abc''"
proof -
  let ?w = "demo_site (Some (demo_reported ''pending''))"
  have "stored_run ?w (n_run_id demo_note) = Some (demo_reported ''pending'')" "n_run_id demo_note = ''r-abc''"
    by (simp_all add: stored_run_def demo_site_def demo_note_def)
  moreover have "run_id (demo_reported ''pending'') = ''r-abc''" by code_simp
  ultimately show ?thesis
    using note_keeps_identity [OF _ surjective_pairing, of ?w demo_note "demo_reported ''pending''"
        demo_config demo_env] by (auto simp: ident_def)
qed

text \<open>
  How the network cuts the raw message does not matter: whatever chunks the response arrives
  in, the header block is what precedes the first blank line of the whole stream, and is refused
  exactly when there is none within sixty-four kilobytes.
\<close>

theorem header_block_ignores_chunks:
  assumes "list_all (\<lambda>c. c \<noteq> []) chunks"
  shows "raw_header_block [] (map Some chunks) =
    (case blank_at (concat chunks) of
       None \<Rightarrow> Inl header_missing
     | Some e \<Rightarrow> if e > 65536 then Inl header_missing else Inr (take e (concat chunks)))"
  using raw_header_block_spec [OF assms, of "[]"] blank_at_short(1)
  by (simp add: header_spec_def MAX_HEADER_def split: option.split)

theorem header_block_ignores_chunks_witness:
  "raw_header_block [] (map Some [''A: b'' @ [CHR 13], [CHR 10, CHR 13], [CHR 10] @ ''body'']) = Inr ''A: b''"
  by (subst header_block_ignores_chunks) (simp_all add: blank_at.simps starts_with_def)

text \<open>
  A dashboard envelope that ingress accepts is accepted further down: its run identifier and
  workspace pass the checks of the runner and the console unchanged, its request key is its run
  identifier, so that a redelivery finds its run, and its task is neither empty nor longer than
  6300 bytes.
\<close>

theorem dashboard_commission_accepted:
  assumes "classify_dashboard payload = M_Commission c"
  shows "valid_run_id (co_run_id c) \<and> co_request_key c = co_run_id c
    \<and> validate_workspace_id (co_workspace_id c) = Inr (co_workspace_id c)
    \<and> co_task c \<noteq> [] \<and> length (co_task c) \<le> 6300"
  using assms by (rule dashboard_downstream)

theorem dashboard_commission_accepted_witness:
  "valid_run_id ''r-abc'' \<and> (\<exists>c. classify_dashboard demo_dashboard = M_Commission c \<and> co_run_id c = ''r-abc'')"
proof -
  obtain c where c: "classify_dashboard demo_dashboard = M_Commission c" "co_run_id c = ''r-abc''"
    using demo_dashboard_accepted by blast
  with dashboard_commission_accepted [OF c(1)] show ?thesis by auto
qed

text \<open>
  A delivery of a commission whose report is settled returns the run it belongs to, runs
  nothing, mails nothing and spends no send.
\<close>

theorem settled_replay_is_silent:
  assumes "find_commission (durable_key c) (co_message_id c) w = Some (rid, s)"
    and "validate_workspace_id (co_workspace_id c) = Inr ws" and "ws = None \<or> ws = Some (workspace_id s)"
    and "report s \<noteq> []" and "settled s"
  shows "\<exists>w'. handle_commission cfg env c w = (Inr (run_id s), w')
    \<and> history w' = history w \<and> sends w' = sends w \<and> map fst (runs w') = map fst (runs w)"
  using assms by (rule replay_settled)

theorem settled_replay_is_silent_witness:
  "\<exists>w'. handle_commission demo_config demo_env demo_commission (demo_site (Some (demo_reported ''delivered'')))
      = (Inr ''r-abc'', w') \<and> history w' = []"
proof -
  let ?w = "demo_site (Some (demo_reported ''delivered''))"
  have "map_option fst (find_commission (durable_key demo_commission) (co_message_id demo_commission) ?w)
      = Some ''r-abc''" by code_simp
  moreover have "find_commission (durable_key demo_commission) (co_message_id demo_commission) ?w
      = Some (''r-abc'', demo_reported ''delivered'')"
    using calculation find_commission_Some by (fastforce simp: demo_site_def)
  moreover have "validate_workspace_id (co_workspace_id demo_commission) = Inr None"
    "report (demo_reported ''delivered'') \<noteq> []" "settled (demo_reported ''delivered'')"
    "run_id (demo_reported ''delivered'') = ''r-abc''" "history ?w = []"
    by code_simp+
  ultimately show ?thesis
    using settled_replay_is_silent [of demo_commission ?w "''r-abc''" "demo_reported ''delivered''" None
        demo_config demo_env] by auto
qed

text \<open>
  A note whose report exists already runs no worker again: its redelivery can at most mail
  the pending report.
\<close>

theorem answered_note_runs_nothing:
  assumes "stored_run w (n_run_id n) = Some s" and "may_note s n" and "already_answered s n"
    and "handle_note cfg env n w = (res, w')"
  shows "\<exists>new. history w' = history w @ new \<and> (\<forall>a. Dispatched a \<notin> set new)"
  using assms by (rule note_replayed)

theorem answered_note_runs_nothing_witness:
  "\<exists>new. history (snd (handle_note demo_config demo_env demo_note
      (demo_site (Some (demo_reported ''pending''))))) = new \<and> (\<forall>a. Dispatched a \<notin> set new)"
proof -
  let ?w = "demo_site (Some (demo_reported ''pending''))"
  have "stored_run ?w (n_run_id demo_note) = Some (demo_reported ''pending'')" "history ?w = []"
    by (simp_all add: stored_run_def demo_site_def demo_note_def)
  moreover have "may_note (demo_reported ''pending'') demo_note"
    "already_answered (demo_reported ''pending'') demo_note" by code_simp+
  ultimately show ?thesis
    using answered_note_runs_nothing [OF _ _ _ surjective_pairing, of ?w demo_note
        "demo_reported ''pending''" demo_config demo_env] by auto
qed

text \<open>
  Exactly which fleets the preflight accepts: at least two workers, a declared and distinct
  family for each, execution rights for all of them or for none, and an Antigravity worker pinned
  to a Gemini model.
\<close>

theorem fleet_accepted_iff:
  "assert_pins agents = Inr () \<longleftrightarrow>
     2 \<le> length agents
     \<and> distinct (map (\<lambda>p. a_family (snd p)) agents)
     \<and> (\<forall>p \<in> set agents. a_family (snd p) \<noteq> [])
     \<and> ((\<forall>p \<in> set agents. a_exec_flags (snd p) \<noteq> [])
          \<or> (\<forall>p \<in> set agents. a_exec_flags (snd p) = []))
     \<and> (\<forall>a. map_of agents ''agy'' = Some a \<longrightarrow>
           (\<exists>m. a_model a = Some m \<and> starts_with m ''gemini-''))"
  by (rule assert_pins_iff)

theorem fleet_accepted_iff_witness: "\<exists>m. a_model (demo_agent ''google'' ''gemini-3'') = Some m
    \<and> starts_with m ''gemini-''"
proof -
  have "assert_pins demo_fleet = Inr ()"
    "map_of demo_fleet ''agy'' = Some (demo_agent ''google'' ''gemini-3'')" by code_simp+
  with fleet_accepted_iff [of demo_fleet] show ?thesis by blast
qed

text \<open>
  What is stored for a profile comes back: after saving valid OAuth tokens and a client, loading
  them returns the same, given that the JSON codec returns the two payloads it encoded.
\<close>

theorem stored_credentials_return:
  assumes "codec_ok t (token_payload tok)" and "codec_ok t (client_payload c)"
    and "make_token access refresh kind expires scope = Inr tok" and "make_client i secret = Inr c"
    and "save_tokens t service tok k = (Inr (), k1)" and "save_client t service c k1 = (Inr (), k2)"
    and "vt_works t (Find service ''oauth-token'')" and "vt_works t (Find service ''oauth-client'')"
  shows "load_tokens t service k2 = Inr (Some (tok\<lparr>ot_type := ''Bearer''\<rparr>)) \<and> load_client t service k2 = Inr (Some c)"
  using credentials_return [OF assms] .

theorem stored_credentials_return_witness:
  "\<exists>k1 k2. save_tokens sample_keys ''s'' sample_token Map.empty = (Inr (), k1)
    \<and> save_client sample_keys ''s'' sample_client k1 = (Inr (), k2)
    \<and> load_client sample_keys ''s'' k2 = Inr (Some sample_client)"
proof -
  have m: "make_token (JStr ''at'') JNull (JStr ''Bearer'') (JInt 5) JNull = Inr sample_token" by code_simp
  have c: "make_client (JStr ''id'') JNull = Inr sample_client" by code_simp
  obtain k1 where k1: "save_tokens sample_keys ''s'' sample_token Map.empty = (Inr (), k1)"
    by (simp add: save_tokens_def kc_write_def sample_keys_def)
  obtain k2 where k2: "save_client sample_keys ''s'' sample_client k1 = (Inr (), k2)"
    by (simp add: save_client_def kc_write_def sample_keys_def)
  have "vt_works sample_keys (Find ''s'' a)" for a by (simp add: sample_keys_def)
  with stored_credentials_return [OF sample_codec m c k1 k2] k1 k2 show ?thesis by blast
qed

text \<open>
  Disconnecting erases: after a successful disconnect none of the four credential items of the
  profile's service is left and no other service has changed; a failed one has still erased every
  item that could be erased.
\<close>

theorem disconnect_erases:
  assumes "delete_profile_credentials t service k = (res, k')"
  shows "(\<forall>s a. k' (s, a) = (if s = service \<and> a \<in> set CREDENTIAL_ACCOUNTS \<and> vt_works t (Drop service a)
        then None else k (s, a)))
    \<and> ((\<exists>b. res = Inr b) = (\<forall>a \<in> set CREDENTIAL_ACCOUNTS. vt_works t (Drop service a)))"
  using delete_accounts_outcome [OF assms [unfolded delete_profile_credentials_def]] by auto

theorem disconnect_erases_witness:
  "\<exists>res k'. delete_profile_credentials sample_keys ''s'' [(''s'', ''tokens'') \<mapsto> ''x''] = (res, k')
    \<and> k' (''s'', ''tokens'') = None"
proof -
  obtain res k' where "delete_profile_credentials sample_keys ''s'' [(''s'', ''tokens'') \<mapsto> ''x''] = (res, k')"
    by fastforce
  with disconnect_erases [OF this] show ?thesis
    by (auto simp: CREDENTIAL_ACCOUNTS_def sample_keys_def)
qed

end
